(* ===== verification/Kubebox_Prelude.thy ===== *)
theory Kubebox_Prelude
  imports Main
begin

text \<open>
  Shared vocabulary of the development: the collections of automation, the Go
  results and errors the components return, Go's fixed-width arithmetic where the
  program can overflow it, and \<open>time.Time\<close> / \<open>time.Duration\<close>.

  A Go \<open>string\<close> and a Go \<open>[]byte\<close> are both byte sequences; both are HOL's
  \<open>string\<close> (a list of \<open>char\<close>, and a \<open>char\<close> is one byte).
\<close>

named_theorems go_simps "evaluation of the modelled Go library functions"
named_theorems frame "what an operation leaves alone"
named_theorems preserves "operations preserve the component invariant"
named_theorems branch "one equation per branch of an operation"

section \<open>Results\<close>

text \<open>
  A Go function returning \<open>(T, error)\<close> is a HOL function into \<open>'e + 'a\<close>: \<open>Inl e\<close>
  is a non-nil error, \<open>Inr v\<close> the value with a nil error. A function that returns
  only an \<open>error\<close> gives an \<open>'e option\<close>, \<open>None\<close> being \<open>nil\<close>.
\<close>

type_synonym ('e, 'a) result = "'e + 'a"

fun is_ok :: "('e, 'a) result \<Rightarrow> bool" where
  "is_ok (Inl _) = False"
| "is_ok (Inr _) = True"

lemma is_ok_iff [simp]: "is_ok r \<longleftrightarrow> (\<exists>v. r = Inr v)"
  by (cases r) auto

section \<open>Machine integers\<close>

text \<open>Go's \<open>int\<close> and \<open>int64\<close> are 64-bit two's complement on the deployed platforms.\<close>

definition wrap64 :: "int \<Rightarrow> int" where
  "wrap64 x = (x + 2 ^ 63) mod 2 ^ 64 - 2 ^ 63"

lemma wrap64_id: "- (2 ^ 63) \<le> x \<Longrightarrow> x < 2 ^ 63 \<Longrightarrow> wrap64 x = x"
  by (simp add: wrap64_def)

lemma wrap64_range: "- (2 ^ 63) \<le> wrap64 x \<and> wrap64 x < 2 ^ 63"
proof -
  have "0 \<le> (x + 2 ^ 63) mod (2 ^ 64 :: int)" "(x + 2 ^ 63) mod (2 ^ 64 :: int) < 2 ^ 64"
    by simp_all
  then show ?thesis by (simp add: wrap64_def)
qed

section \<open>Time\<close>

text \<open>
  A \<open>time.Time\<close> is the number of nanoseconds since the zero time (1 January of year
  1, UTC), so that the zero value \<open>time.Time{}\<close> is \<open>0\<close>. A \<open>time.Duration\<close> is a
  number of nanoseconds in an \<open>int64\<close>; \<open>Time.Add\<close> itself does not wrap in the range
  of dates a clock can give.
\<close>

type_synonym time = int
type_synonym duration = int

definition zero_time :: time where "zero_time = 0"

definition IsZero :: "time \<Rightarrow> bool" where "IsZero t \<longleftrightarrow> t = zero_time"

definition Before :: "time \<Rightarrow> time \<Rightarrow> bool" where "Before t u \<longleftrightarrow> t < u"

definition Add :: "time \<Rightarrow> duration \<Rightarrow> time" where "Add t d = t + d"

definition Second :: duration where "Second = 1000000000"

definition Millisecond :: duration where "Millisecond = 1000000"

text \<open>\<open>time.Duration(n) * time.Second\<close>: an \<open>int64\<close> product, which wraps.\<close>

definition seconds :: "int \<Rightarrow> duration" where "seconds n = wrap64 (n * Second)"

text \<open>\<open>Time.Sub\<close> saturates at the ends of the \<open>int64\<close> range.\<close>

definition Sub :: "time \<Rightarrow> time \<Rightarrow> duration" where
  "Sub t u = max (- (2 ^ 63)) (min (2 ^ 63 - 1) (t - u))"

text \<open>\<open>Time.Unix\<close>: whole seconds since 1970, rounded down.\<close>

definition unix_epoch :: int where "unix_epoch = 62135596800"

definition Unix :: "time \<Rightarrow> int" where "Unix t = t div Second - unix_epoch"

lemmas time_defs [go_simps] = zero_time_def IsZero_def Before_def Add_def Second_def Millisecond_def
  Unix_def unix_epoch_def

lemma seconds_exact: "\<bar>n\<bar> \<le> 9223372036 \<Longrightarrow> seconds n = n * Second"
  unfolding seconds_def by (rule wrap64_id) (auto simp: Second_def)

lemma seconds_pos: "0 < n \<Longrightarrow> n \<le> 9223372036 \<Longrightarrow> 0 < seconds n"
  by (simp add: seconds_exact Second_def)

lemma Unix_mono: "t \<le> u \<Longrightarrow> Unix t \<le> Unix u"
  by (simp add: Unix_def Second_def zdiv_mono1)

section \<open>Lists, maps and options\<close>

lemma takeWhile_eq_self_iff: "takeWhile P xs = xs \<longleftrightarrow> (\<forall>x \<in> set xs. P x)"
  by (rule takeWhile_eq_all_conv)

lemma dropWhile_hd_not: "xs = [] \<or> \<not> P (hd xs) \<Longrightarrow> dropWhile P xs = xs"
  by (cases xs) auto

lemma card_map_upd_new:
  assumes "finite (dom m)" and "k \<notin> {a. \<exists>v. m a = Some v \<and> P v}" and "P x"
  shows "card {a. \<exists>v. (m(k \<mapsto> x)) a = Some v \<and> P v} = Suc (card {a. \<exists>v. m a = Some v \<and> P v})"
proof -
  have fin: "finite {a. \<exists>v. m a = Some v \<and> P v}"
    by (rule finite_subset [OF _ assms(1)]) auto
  have "{a. \<exists>v. (m(k \<mapsto> x)) a = Some v \<and> P v} = insert k {a. \<exists>v. m a = Some v \<and> P v}"
    using assms(3) by auto
  with fin assms(2) show ?thesis by simp
qed

lemma card_map_upd_drop:
  assumes "finite (dom m)" and "m k = Some y" and "P y" and "\<not> P x"
  shows "Suc (card {a. \<exists>v. (m(k \<mapsto> x)) a = Some v \<and> P v}) = card {a. \<exists>v. m a = Some v \<and> P v}"
proof -
  have fin: "finite {a. \<exists>v. m a = Some v \<and> P v}"
    by (rule finite_subset [OF _ assms(1)]) auto
  have eq: "{a. \<exists>v. (m(k \<mapsto> x)) a = Some v \<and> P v} = {a. \<exists>v. m a = Some v \<and> P v} - {k}"
    using assms(4) by auto
  have "k \<in> {a. \<exists>v. m a = Some v \<and> P v}"
    using assms(2,3) by simp
  from card.remove [OF fin this] show ?thesis unfolding eq by (rule sym)
qed

lemma card_map_upd_same:
  assumes "\<not> P x" and "\<And>y. m k = Some y \<Longrightarrow> \<not> P y"
  shows "{a. \<exists>v. (m(k \<mapsto> x)) a = Some v \<and> P v} = {a. \<exists>v. m a = Some v \<and> P v}"
  using assms by auto

end
