(* ===== verification/Go_Strings.thy ===== *)
theory Go_Strings
  imports Kubebox_Prelude
begin

text \<open>
  The functions of Go's \<open>strings\<close>, \<open>strconv\<close> and \<open>fmt\<close> packages that kubebox
  calls, on byte strings, with the lemmas the components use.
\<close>

section \<open>Prefixes and substrings\<close>

definition HasPrefix :: "string \<Rightarrow> string \<Rightarrow> bool" where
  "HasPrefix s p \<longleftrightarrow> take (length p) s = p"

definition TrimPrefix :: "string \<Rightarrow> string \<Rightarrow> string" where
  "TrimPrefix s p = (if HasPrefix s p then drop (length p) s else s)"

fun Contains :: "string \<Rightarrow> string \<Rightarrow> bool" where
  "Contains [] sub = (sub = [])"
| "Contains (c # s) sub = (HasPrefix (c # s) sub \<or> Contains s sub)"

lemma HasPrefix_iff: "HasPrefix s p \<longleftrightarrow> (\<exists>r. s = p @ r)"
  by (metis HasPrefix_def append_eq_conv_conj append_take_drop_id)

lemma HasPrefix_append [simp]: "HasPrefix (p @ r) p"
  by (simp add: HasPrefix_def)

lemma TrimPrefix_append [simp]: "TrimPrefix (p @ r) p = r"
  by (simp add: TrimPrefix_def)

lemma HasPrefix_Nil [simp]: "HasPrefix s []"
  by (simp add: HasPrefix_def)

lemma Contains_iff: "Contains s sub \<longleftrightarrow> (\<exists>p r. s = p @ sub @ r)"
proof (induction s)
  case Nil
  show ?case by simp
next
  case (Cons c s)
  have "(\<exists>p r. c # s = p @ sub @ r) \<longleftrightarrow> (\<exists>r. c # s = sub @ r) \<or> (\<exists>p r. s = p @ sub @ r)"
    (is "?L \<longleftrightarrow> ?R")
  proof
    assume ?L
    then obtain p r where "c # s = p @ sub @ r" by blast
    then show ?R by (cases p) auto
  next
    assume ?R
    then show ?L by (metis append_Cons append_Nil)
  qed
  with Cons.IH show ?case by (simp add: HasPrefix_iff)
qed

lemma Contains_single: "Contains s [c] \<longleftrightarrow> c \<in> set s"
  by (simp add: Contains_iff in_set_conv_decomp)

section \<open>Split and Join\<close>

text \<open>\<open>strings.Split\<close> with a one-byte separator: never empty.\<close>

fun Split :: "string \<Rightarrow> char \<Rightarrow> string list" where
  "Split [] sep = [[]]"
| "Split (c # s) sep =
     (if c = sep then [] # Split s sep
      else (case Split s sep of [] \<Rightarrow> [[c]] | p # ps \<Rightarrow> (c # p) # ps))"

text \<open>\<open>strings.SplitN(s, sep, 2)\<close>.\<close>

definition SplitN2 :: "string \<Rightarrow> char \<Rightarrow> string list" where
  "SplitN2 s sep =
     (case dropWhile (\<lambda>c. c \<noteq> sep) s of
        [] \<Rightarrow> [s]
      | _ # r \<Rightarrow> [takeWhile (\<lambda>c. c \<noteq> sep) s, r])"

fun Join :: "string list \<Rightarrow> string \<Rightarrow> string" where
  "Join [] sep = []"
| "Join [x] sep = x"
| "Join (x # y # xs) sep = x @ sep @ Join (y # xs) sep"

lemma Split_not_Nil [simp]: "Split s sep \<noteq> []"
  by (induction s) (auto split: list.splits)

lemma Split_no_sep: "sep \<notin> set s \<Longrightarrow> Split s sep = [s]"
  by (induction s) auto

lemma Split_append_sep: "sep \<notin> set p \<Longrightarrow> Split (p @ sep # s) sep = p # Split s sep"
  by (induction p) auto

lemma Split_parts_no_sep: "p \<in> set (Split s sep) \<Longrightarrow> sep \<notin> set p"
proof (induction s arbitrary: p)
  case (Cons c s)
  then show ?case by (cases "Split s sep") (auto split: if_splits)
qed simp

lemma Join_Split: "Join (Split s sep) [sep] = s"
proof (induction s)
  case (Cons c s)
  obtain p ps where "Split s sep = p # ps"
    by (meson Split_not_Nil list.exhaust)
  with Cons show ?case by (cases ps) auto
qed simp

lemma Split_Join:
  assumes "xs \<noteq> []" and "\<forall>x \<in> set xs. sep \<notin> set x"
  shows "Split (Join xs [sep]) sep = xs"
  using assms by (induction xs "[sep]" rule: Join.induct) (auto simp: Split_no_sep Split_append_sep)

lemma length_Split: "length (Split s sep) = Suc (length (filter (\<lambda>c. c = sep) s))"
proof (induction s)
  case (Cons c s)
  then show ?case by (cases "Split s sep") auto
qed simp

lemma Split_two_iff:
  "Split s sep = [a, b] \<longleftrightarrow> s = a @ sep # b \<and> sep \<notin> set a \<and> sep \<notin> set b"
proof
  assume eq: "Split s sep = [a, b]"
  then have "s = a @ sep # b" using Join_Split [of s sep] by simp
  moreover have "sep \<notin> set a" "sep \<notin> set b"
    using Split_parts_no_sep [of _ s sep] eq by auto
  ultimately show "s = a @ sep # b \<and> sep \<notin> set a \<and> sep \<notin> set b" by simp
next
  assume "s = a @ sep # b \<and> sep \<notin> set a \<and> sep \<notin> set b"
  then show "Split s sep = [a, b]" by (simp add: Split_append_sep Split_no_sep)
qed

lemma SplitN2_sep: "sep \<notin> set a \<Longrightarrow> SplitN2 (a @ sep # b) sep = [a, b]"
  by (auto simp: SplitN2_def dropWhile_append takeWhile_append split: list.splits)

lemma SplitN2_two_iff: "SplitN2 s sep = [a, b] \<longleftrightarrow> s = a @ sep # b \<and> sep \<notin> set a"
proof
  assume eq: "SplitN2 s sep = [a, b]"
  then obtain d r where dw: "dropWhile (\<lambda>c. c \<noteq> sep) s = d # r"
    and ab: "a = takeWhile (\<lambda>c. c \<noteq> sep) s" "b = r"
    by (auto simp: SplitN2_def split: list.splits)
  from dw have "d = sep" by (metis (full_types) dropWhile_eq_Cons_conv)
  with dw ab have "s = a @ sep # b" by (metis takeWhile_dropWhile_id)
  moreover from ab have "sep \<notin> set a" by (auto dest: set_takeWhileD)
  ultimately show "s = a @ sep # b \<and> sep \<notin> set a" by simp
next
  assume "s = a @ sep # b \<and> sep \<notin> set a"
  then show "SplitN2 s sep = [a, b]" by (simp add: SplitN2_sep)
qed

section \<open>Trimming\<close>

text \<open>\<open>strings.TrimLeft\<close>, \<open>TrimRight\<close> and \<open>Trim\<close> with a one-byte cut set.\<close>

definition TrimLeft :: "string \<Rightarrow> char \<Rightarrow> string" where
  "TrimLeft s c = dropWhile (\<lambda>x. x = c) s"

definition TrimRight :: "string \<Rightarrow> char \<Rightarrow> string" where
  "TrimRight s c = rev (dropWhile (\<lambda>x. x = c) (rev s))"

definition Trim :: "string \<Rightarrow> char \<Rightarrow> string" where
  "Trim s c = TrimRight (TrimLeft s c) c"

lemma TrimRight_snoc [simp]: "TrimRight (s @ [x]) c = (if x = c then TrimRight s c else s @ [x])"
  by (simp add: TrimRight_def)

lemma TrimRight_Nil [simp]: "TrimRight [] c = []"
  by (simp add: TrimRight_def)

lemma TrimRight_last: "TrimRight s c \<noteq> [] \<Longrightarrow> last (TrimRight s c) \<noteq> c"
  by (induction s rule: rev_induct) auto

text \<open>
  \<open>strings.TrimSpace\<close> removes the characters of \<open>unicode.IsSpace\<close>. As bytes these
  are the six ASCII spaces and the UTF-8 encodings of U+0085, U+00A0, U+1680,
  U+2000 to U+200A, U+2028, U+2029, U+202F, U+205F and U+3000. UTF-8 is prefix free
  and self-synchronising, so removing a decoded space rune at either end is removing
  one of these byte sequences.
\<close>

definition space_seqs :: "string list" where
  "space_seqs =
     [[CHR 0x20], [CHR 0x09], [CHR 0x0A], [CHR 0x0B], [CHR 0x0C], [CHR 0x0D],
      [CHR 0xC2, CHR 0x85], [CHR 0xC2, CHR 0xA0], [CHR 0xE1, CHR 0x9A, CHR 0x80],
      [CHR 0xE2, CHR 0x80, CHR 0x80], [CHR 0xE2, CHR 0x80, CHR 0x81],
      [CHR 0xE2, CHR 0x80, CHR 0x82], [CHR 0xE2, CHR 0x80, CHR 0x83],
      [CHR 0xE2, CHR 0x80, CHR 0x84], [CHR 0xE2, CHR 0x80, CHR 0x85],
      [CHR 0xE2, CHR 0x80, CHR 0x86], [CHR 0xE2, CHR 0x80, CHR 0x87],
      [CHR 0xE2, CHR 0x80, CHR 0x88], [CHR 0xE2, CHR 0x80, CHR 0x89],
      [CHR 0xE2, CHR 0x80, CHR 0x8A], [CHR 0xE2, CHR 0x80, CHR 0xA8],
      [CHR 0xE2, CHR 0x80, CHR 0xA9], [CHR 0xE2, CHR 0x80, CHR 0xAF],
      [CHR 0xE2, CHR 0x81, CHR 0x9F], [CHR 0xE3, CHR 0x80, CHR 0x80]]"

function strip_seqs :: "string list \<Rightarrow> string \<Rightarrow> string" where
  "strip_seqs ws s =
     (case find (\<lambda>w. w \<noteq> [] \<and> HasPrefix s w) ws of
        None \<Rightarrow> s
      | Some w \<Rightarrow> strip_seqs ws (drop (length w) s))"
  by pat_completeness auto
termination
proof (relation "measure (\<lambda>(ws, s). length s)")
  fix ws :: "string list" and s w :: string
  assume "find (\<lambda>w. w \<noteq> [] \<and> HasPrefix s w) ws = Some w"
  then have "w \<noteq> []" "HasPrefix s w" by (auto simp: find_Some_iff)
  then show "((ws, drop (length w) s), ws, s) \<in> measure (\<lambda>(ws, s). length s)"
    by (cases s) (auto simp: HasPrefix_def)
qed simp

declare strip_seqs.simps [simp del]

definition TrimSpace :: "string \<Rightarrow> string" where
  "TrimSpace s = rev (strip_seqs (map rev space_seqs) (rev (strip_seqs space_seqs s)))"

text \<open>A byte that neither starts nor ends a space sequence.\<close>

definition solid :: "char \<Rightarrow> bool" where
  "solid c \<longleftrightarrow> (\<forall>w \<in> set space_seqs. hd w \<noteq> c \<and> last w \<noteq> c)"

lemma strip_seqs_none: "(\<And>w. w \<in> set ws \<Longrightarrow> w \<noteq> [] \<Longrightarrow> \<not> HasPrefix s w) \<Longrightarrow> strip_seqs ws s = s"
  by (subst strip_seqs.simps) (auto simp: find_None_iff split: option.splits dest!: find_Some_iff [THEN iffD1])

lemma HasPrefix_hd: "HasPrefix s w \<Longrightarrow> w \<noteq> [] \<Longrightarrow> hd s = hd w"
  by (auto simp: HasPrefix_iff)

lemma TrimSpace_solid:
  assumes "s \<noteq> []" and "solid (hd s)" and "solid (last s)"
  shows "TrimSpace s = s"
proof -
  have ne: "w \<noteq> []" if "w \<in> set space_seqs" for w
    using that by (auto simp: space_seqs_def)
  have "strip_seqs space_seqs s = s"
    using assms(2) by (intro strip_seqs_none) (metis HasPrefix_hd solid_def)
  moreover have "strip_seqs (map rev space_seqs) (rev s) = rev s"
  proof (rule strip_seqs_none)
    fix w assume "w \<in> set (map rev space_seqs)"
    then obtain v where v: "v \<in> set space_seqs" "w = rev v" by auto
    with assms(3) have "last v \<noteq> last s" by (auto simp: solid_def)
    moreover have "hd (rev s) = last s" "hd w = last v"
      using assms(1) ne [OF v(1)] v(2) by (simp_all add: hd_rev)
    ultimately show "\<not> HasPrefix (rev s) w"
      using ne [OF v(1)] v(2) HasPrefix_hd [of "rev s" w] by auto
  qed
  ultimately show ?thesis by (simp add: TrimSpace_def)
qed

lemma TrimSpace_Nil [simp]: "TrimSpace [] = []"
proof -
  have "strip_seqs ws [] = []" for ws
    by (rule strip_seqs_none) (auto simp: HasPrefix_def)
  then show ?thesis by (simp add: TrimSpace_def)
qed

section \<open>Decimal numbers\<close>

text \<open>\<open>fmt.Sprintf("%d", n)\<close> of a non-negative number, and \<open>"%08d"\<close>.\<close>

definition digit :: "nat \<Rightarrow> char" where
  "digit d = char_of (48 + d)"

fun itoa :: "nat \<Rightarrow> string" where
  "itoa n = (if n < 10 then [digit n] else itoa (n div 10) @ [digit (n mod 10)])"

declare itoa.simps [simp del]

definition pad08 :: "nat \<Rightarrow> string" where
  "pad08 n = replicate (8 - length (itoa n)) (CHR ''0'') @ itoa n"

definition undigit :: "char \<Rightarrow> nat" where
  "undigit c = of_char c - 48"

definition atoi :: "string \<Rightarrow> nat" where
  "atoi s = foldl (\<lambda>acc c. 10 * acc + undigit c) 0 s"

lemma undigit_digit: "d < 10 \<Longrightarrow> undigit (digit d) = d"
  by (simp add: undigit_def digit_def)

lemma atoi_snoc: "atoi (s @ [c]) = 10 * atoi s + undigit c"
  by (simp add: atoi_def)

lemma atoi_itoa: "atoi (itoa n) = n"
proof (induction n rule: itoa.induct)
  case (1 n)
  show ?case
  proof (cases "n < 10")
    case True
    then show ?thesis by (subst itoa.simps) (simp add: atoi_def undigit_digit)
  next
    case False
    with 1 show ?thesis
      by (subst itoa.simps) (simp add: atoi_snoc undigit_digit)
  qed
qed

lemma undigit_zero: "undigit (CHR ''0'') = 0"
  by (simp add: undigit_def)

lemma atoi_zeros: "atoi (replicate k (CHR ''0'') @ s) = atoi s"
  by (induction k) (simp_all add: atoi_def undigit_zero)

lemma atoi_pad08: "atoi (pad08 n) = n"
  by (simp add: pad08_def atoi_zeros atoi_itoa)

lemma itoa_inject: "itoa m = itoa n \<longleftrightarrow> m = n"
  by (metis atoi_itoa)

lemma pad08_inject: "pad08 m = pad08 n \<longleftrightarrow> m = n"
  by (metis atoi_pad08)

lemma itoa_not_Nil [simp]: "itoa n \<noteq> []"
  by (subst itoa.simps) simp

lemma digit_range: "d < 10 \<Longrightarrow> digit d \<in> set ''0123456789''"
proof -
  assume "d < 10"
  then have "d \<in> set [0..<10]" by simp
  moreover have "\<forall>d \<in> set [0..<10]. digit d \<in> set ''0123456789''" by code_simp
  ultimately show ?thesis by blast
qed

lemma itoa_digits: "c \<in> set (itoa n) \<Longrightarrow> c \<in> set ''0123456789''"
proof (induction n arbitrary: c rule: itoa.induct)
  case (1 n)
  show ?case
  proof (cases "n < 10")
    case True
    with "1.prems" show ?thesis by (metis digit_range empty_iff itoa.simps list.set(1) set_ConsD)
  next
    case False
    then have "itoa n = itoa (n div 10) @ [digit (n mod 10)]" by (subst itoa.simps) simp
    with "1.prems" consider "c \<in> set (itoa (n div 10))" | "c = digit (n mod 10)" by auto
    then show ?thesis
      using "1.IH" [OF False] digit_range [of "n mod 10"] by cases simp_all
  qed
qed

lemma length_pad08: "8 \<le> length (pad08 n)"
  by (simp add: pad08_def)

section \<open>Keys joined with a NUL byte\<close>

text \<open>
  The control plane keys its maps by \<open>tenantID + "\x00" + rest\<close>. The pair is
  recoverable when the second component has no NUL byte: it is what follows the last
  NUL of the key.
\<close>

definition NUL :: char where "NUL = CHR 0x00"

lemma nul_key_inject:
  assumes "NUL \<notin> set b" and "NUL \<notin> set b'"
  shows "a @ NUL # b = a' @ NUL # b' \<longleftrightarrow> a = a' \<and> b = b'"
proof
  let ?tail = "\<lambda>s. takeWhile (\<lambda>c. c \<noteq> NUL) (rev s)"
  assume eq: "a @ NUL # b = a' @ NUL # b'"
  have "?tail (a @ NUL # b) = rev b" "?tail (a' @ NUL # b') = rev b'"
    using assms by (auto simp: takeWhile_append)
  with eq have "b = b'" by simp
  with eq show "a = a' \<and> b = b'" by simp
qed simp

end
