(* ===== verification/Governance.thy ===== *)
theory Governance
  imports Go_Strings
begin

text \<open>
  The durable governance boundary of the control plane:
  \<open>internal/persistence/store.go\<close> (the interface) and
  \<open>internal/persistence/memory.go\<close> (the in-memory implementation).

  The interface's method table is a record of functions; the contract its clients
  rely on is the locale \<open>governance\<close>, strengthened to \<open>atomic_governance\<close> for
  implementations whose failing calls change nothing. The in-memory store is shown to
  satisfy the strong contract.
\<close>

section \<open>Errors and the interface\<close>

datatype persistence_error =
    ErrInvalidArgument
  | ErrQuotaExceeded
  | ErrQuotaBelowUsage
  | ErrQuotaNotConfigured
  | ErrQuotaCorrupt
  | ErrAllocationNotFound
  | ErrAllocationState
  | DriverError string \<comment> \<open>an error of the database driver\<close>

text \<open>
  \<open>GovernanceStore\<close>: the implementing object's state is threaded through each method;
  the error result is \<open>None\<close> for \<open>nil\<close>.
\<close>

record 'g GovernanceStore =
  SetQuota :: "'g \<Rightarrow> string \<Rightarrow> string \<Rightarrow> int \<Rightarrow> persistence_error option \<times> 'g"
  ReserveAllocation :: "'g \<Rightarrow> string \<Rightarrow> string \<Rightarrow> string \<Rightarrow> string \<Rightarrow> time \<Rightarrow> persistence_error option \<times> 'g"
  ReleaseAllocation :: "'g \<Rightarrow> string \<Rightarrow> string \<Rightarrow> string \<Rightarrow> time \<Rightarrow> persistence_error option \<times> 'g"
  InsertIdempotencyPending ::
    "'g \<Rightarrow> string \<Rightarrow> string \<Rightarrow> string \<Rightarrow> string \<Rightarrow> time \<Rightarrow> persistence_error option \<times> 'g"

section \<open>The in-memory store\<close>

record quotaRow =
  concurrentLimit :: int
  currentCount :: int

record allocationRow =
  alloc_sandboxID :: string
  alloc_status :: string

record idempotencyRow =
  idem_ownerID :: string
  idem_requestHash :: string
  idem_status :: string
  idem_resourceID :: string

record MemoryGovernanceStore =
  m_quotas :: "string \<rightharpoonup> quotaRow"
  m_allocations :: "string \<rightharpoonup> allocationRow"
  m_idempotency :: "string \<rightharpoonup> idempotencyRow"

definition NewMemoryGovernanceStore :: MemoryGovernanceStore where
  "NewMemoryGovernanceStore =
     \<lparr>m_quotas = Map.empty, m_allocations = Map.empty, m_idempotency = Map.empty\<rparr>"

text \<open>
  \<open>SetQuota\<close> inserts a zero row for an unknown owner before it compares the limit.
\<close>

definition mem_SetQuota ::
  "MemoryGovernanceStore \<Rightarrow> string \<Rightarrow> string \<Rightarrow> int \<Rightarrow> persistence_error option \<times> MemoryGovernanceStore" where
  "mem_SetQuota m tenantID ownerID limit =
     (if tenantID = [] \<or> ownerID = [] \<or> limit < 0 then (Some ErrInvalidArgument, m)
      else
        let key = tenantID @ NUL # ownerID;
            (row, m) = (case m_quotas m key of
                          Some row \<Rightarrow> (row, m)
                        | None \<Rightarrow>
                            let row = \<lparr>concurrentLimit = 0, currentCount = 0\<rparr>
                            in (row, m\<lparr>m_quotas := (m_quotas m)(key \<mapsto> row)\<rparr>))
        in if limit < currentCount row then (Some ErrQuotaBelowUsage, m)
           else (None, m\<lparr>m_quotas := (m_quotas m)(key \<mapsto> row\<lparr>concurrentLimit := limit\<rparr>)\<rparr>))"

definition mem_GetQuota :: "MemoryGovernanceStore \<Rightarrow> string \<Rightarrow> string \<Rightarrow> int \<times> int \<times> bool" where
  "mem_GetQuota m tenantID ownerID =
     (case m_quotas m (tenantID @ NUL # ownerID) of
        None \<Rightarrow> (0, 0, False)
      | Some row \<Rightarrow> (concurrentLimit row, currentCount row, True))"

definition mem_ReserveAllocation ::
  "MemoryGovernanceStore \<Rightarrow> string \<Rightarrow> string \<Rightarrow> string \<Rightarrow> string \<Rightarrow> time
     \<Rightarrow> persistence_error option \<times> MemoryGovernanceStore" where
  "mem_ReserveAllocation m tenantID ownerID allocationID sandboxID now =
     (if tenantID = [] \<or> ownerID = [] \<or> allocationID = [] \<or> sandboxID = []
      then (Some ErrInvalidArgument, m)
      else
        let key = tenantID @ NUL # ownerID in
        case m_quotas m key of
          None \<Rightarrow> (Some ErrQuotaNotConfigured, m)
        | Some row \<Rightarrow>
            if concurrentLimit row \<le> currentCount row then (Some ErrQuotaExceeded, m)
            else (None, m\<lparr>m_quotas := (m_quotas m)(key \<mapsto> row\<lparr>currentCount := currentCount row + 1\<rparr>),
                          m_allocations := (m_allocations m)(allocationID \<mapsto>
                            \<lparr>alloc_sandboxID = sandboxID, alloc_status = ''RESERVED''\<rparr>)\<rparr>))"

definition mem_ReleaseAllocation ::
  "MemoryGovernanceStore \<Rightarrow> string \<Rightarrow> string \<Rightarrow> string \<Rightarrow> time
     \<Rightarrow> persistence_error option \<times> MemoryGovernanceStore" where
  "mem_ReleaseAllocation m tenantID ownerID allocationID now =
     (if tenantID = [] \<or> ownerID = [] \<or> allocationID = [] then (Some ErrInvalidArgument, m)
      else
        case m_allocations m allocationID of
          None \<Rightarrow> (Some ErrAllocationNotFound, m)
        | Some alloc \<Rightarrow>
            if alloc_status alloc = ''RELEASED'' then (None, m)
            else
              let key = tenantID @ NUL # ownerID in
              case m_quotas m key of
                None \<Rightarrow> (Some ErrQuotaCorrupt, m)
              | Some row \<Rightarrow>
                  if currentCount row \<le> 0 then (Some ErrQuotaCorrupt, m)
                  else (None, m\<lparr>m_allocations := (m_allocations m)(allocationID \<mapsto> alloc\<lparr>alloc_status := ''RELEASED''\<rparr>),
                                m_quotas := (m_quotas m)(key \<mapsto> row\<lparr>currentCount := currentCount row - 1\<rparr>)\<rparr>))"

definition mem_InsertIdempotencyPending ::
  "MemoryGovernanceStore \<Rightarrow> string \<Rightarrow> string \<Rightarrow> string \<Rightarrow> string \<Rightarrow> time
     \<Rightarrow> persistence_error option \<times> MemoryGovernanceStore" where
  "mem_InsertIdempotencyPending m tenantID ownerID key requestHash expiresAt =
     (if tenantID = [] \<or> ownerID = [] \<or> key = [] \<or> requestHash = [] then (Some ErrInvalidArgument, m)
      else
        let fk = tenantID @ NUL # key in
        if m_idempotency m fk \<noteq> None then (None, m)
        else (None, m\<lparr>m_idempotency := (m_idempotency m)(fk \<mapsto>
               \<lparr>idem_ownerID = ownerID, idem_requestHash = requestHash,
                idem_status = ''PENDING'', idem_resourceID = []\<rparr>)\<rparr>))"

definition memory_governance :: "MemoryGovernanceStore GovernanceStore" where
  "memory_governance =
     \<lparr>SetQuota = mem_SetQuota, ReserveAllocation = mem_ReserveAllocation,
      ReleaseAllocation = mem_ReleaseAllocation,
      InsertIdempotencyPending = mem_InsertIdempotencyPending\<rparr>"

lemmas mem_defs = mem_SetQuota_def mem_ReserveAllocation_def mem_ReleaseAllocation_def
  mem_InsertIdempotencyPending_def

section \<open>The contract\<close>

text \<open>
  \<open>bucket t w\<close> is the quota row of owner \<open>w\<close> in tenant \<open>t\<close>; \<open>quota g k\<close> its limit
  and its count in use; \<open>ledger g a\<close> the status of allocation \<open>a\<close>. The laws say what
  a call that returns \<open>nil\<close> did. A failing call keeps the invariant.
\<close>

locale governance =
  fixes G :: "'g GovernanceStore"
    and bucket :: "string \<Rightarrow> string \<Rightarrow> 'k"
    and quota :: "'g \<Rightarrow> 'k \<Rightarrow> (int \<times> int) option"
    and ledger :: "'g \<Rightarrow> string \<Rightarrow> string option"
    and ginv :: "'g \<Rightarrow> bool"
  assumes within_limit: "ginv g \<Longrightarrow> quota g k = Some (l, c) \<Longrightarrow> 0 \<le> c \<and> c \<le> l"
    and ledger_status: "ginv g \<Longrightarrow> ledger g a = Some st \<Longrightarrow> st = ''RESERVED'' \<or> st = ''RELEASED''"
    and set_ginv: "ginv g \<Longrightarrow> ginv (snd (SetQuota G g t w l))"
    and reserve_ginv: "ginv g \<Longrightarrow> ginv (snd (ReserveAllocation G g t w a sb now))"
    and release_ginv: "ginv g \<Longrightarrow> ginv (snd (ReleaseAllocation G g t w a now))"
    and set_ok: "ginv g \<Longrightarrow> SetQuota G g t w l = (None, g') \<Longrightarrow>
      (\<exists>c. c = (case quota g (bucket t w) of None \<Rightarrow> 0 | Some (_, c) \<Rightarrow> c) \<and> c \<le> l \<and>
           quota g' = (quota g)(bucket t w \<mapsto> (l, c)) \<and> ledger g' = ledger g)"
    and reserve_ok: "ginv g \<Longrightarrow> ReserveAllocation G g t w a sb now = (None, g') \<Longrightarrow>
      (\<exists>l c. quota g (bucket t w) = Some (l, c) \<and> c < l \<and>
             quota g' = (quota g)(bucket t w \<mapsto> (l, c + 1)) \<and>
             ledger g' = (ledger g)(a \<mapsto> ''RESERVED''))"
    and release_ok: "ginv g \<Longrightarrow> ReleaseAllocation G g t w a now = (None, g') \<Longrightarrow>
      (ledger g a = Some ''RELEASED'' \<and> quota g' = quota g \<and> ledger g' = ledger g) \<or>
      (\<exists>l c. ledger g a = Some ''RESERVED'' \<and> quota g (bucket t w) = Some (l, c) \<and> 0 < c \<and>
             quota g' = (quota g)(bucket t w \<mapsto> (l, c - 1)) \<and>
             ledger g' = (ledger g)(a \<mapsto> ''RELEASED''))"

locale atomic_governance = governance +
  assumes set_err: "ginv g \<Longrightarrow> SetQuota G g t w l = (Some e, g') \<Longrightarrow> quota g' = quota g \<and> ledger g' = ledger g"
    and reserve_err: "ginv g \<Longrightarrow> ReserveAllocation G g t w a sb now = (Some e, g') \<Longrightarrow>
      quota g' = quota g \<and> ledger g' = ledger g"
    and release_err: "ginv g \<Longrightarrow> ReleaseAllocation G g t w a now = (Some e, g') \<Longrightarrow>
      quota g' = quota g \<and> ledger g' = ledger g"

section \<open>What every implementation of the contract gives\<close>

text \<open>The calls a client can make, as values, and runs of them.\<close>

datatype gov_call =
    CallSetQuota string string int
  | CallReserve string string string string time
  | CallRelease string string string time

fun gov_apply :: "'g GovernanceStore \<Rightarrow> gov_call \<Rightarrow> 'g \<Rightarrow> persistence_error option \<times> 'g" where
  "gov_apply G (CallSetQuota t w l) g = SetQuota G g t w l"
| "gov_apply G (CallReserve t w a sb now) g = ReserveAllocation G g t w a sb now"
| "gov_apply G (CallRelease t w a now) g = ReleaseAllocation G g t w a now"

fun gov_run :: "'g GovernanceStore \<Rightarrow> gov_call list \<Rightarrow> 'g \<Rightarrow> 'g" where
  "gov_run G [] g = g"
| "gov_run G (c # cs) g = gov_run G cs (snd (gov_apply G c g))"

context governance
begin

lemma apply_ginv: "ginv g \<Longrightarrow> ginv (snd (gov_apply G c g))"
  by (cases c) (simp_all add: set_ginv reserve_ginv release_ginv)

lemma run_ginv: "ginv g \<Longrightarrow> ginv (gov_run G cs g)"
  by (induction cs arbitrary: g) (simp_all add: apply_ginv)

lemma run_within_limit:
  assumes "ginv g" and "quota (gov_run G cs g) k = Some (l, c)"
  shows "0 \<le> c \<and> c \<le> l"
  using run_ginv [OF assms(1)] assms(2) by (rule within_limit)

text \<open>A second release of the same allocation changes nothing.\<close>

lemma release_twice:
  assumes "ginv g" and "ReleaseAllocation G g t w a now = (None, g1)"
    and "ReleaseAllocation G g1 t' w' a now' = (None, g2)"
  shows "quota g2 = quota g1 \<and> ledger g2 = ledger g1"
proof -
  have g1: "ginv g1" using release_ginv [OF assms(1), of t w a now] assms(2) by simp
  have "ledger g1 a = Some ''RELEASED''"
    using release_ok [OF assms(1,2)] by auto
  then show ?thesis using release_ok [OF g1 assms(3)] by auto
qed

text \<open>Releasing what was just reserved restores the owner's count.\<close>

lemma reserve_release:
  assumes "ginv g" and "ReserveAllocation G g t w a sb now = (None, g1)"
    and "ReleaseAllocation G g1 t w a now' = (None, g2)"
  shows "quota g2 = quota g \<and> ledger g2 a = Some ''RELEASED''"
proof -
  have g1: "ginv g1" using reserve_ginv [OF assms(1), of t w a sb now] assms(2) by simp
  from reserve_ok [OF assms(1,2)] obtain l c
    where q: "quota g (bucket t w) = Some (l, c)"
      and q1: "quota g1 = (quota g)(bucket t w \<mapsto> (l, c + 1))"
      and l1: "ledger g1 a = Some ''RESERVED''" by auto
  from release_ok [OF g1 assms(3)] l1 q1 have
    "quota g2 = (quota g1)(bucket t w \<mapsto> (l, c))" "ledger g2 a = Some ''RELEASED''" by auto
  with q q1 show ?thesis by (simp add: fun_upd_idem)
qed

end

section \<open>The in-memory store satisfies the contract\<close>

definition mem_quota :: "MemoryGovernanceStore \<Rightarrow> string \<Rightarrow> (int \<times> int) option" where
  "mem_quota m k = map_option (\<lambda>r. (concurrentLimit r, currentCount r)) (m_quotas m k)"

definition mem_ledger :: "MemoryGovernanceStore \<Rightarrow> string \<Rightarrow> string option" where
  "mem_ledger m a = map_option alloc_status (m_allocations m a)"

definition nul_key :: "string \<Rightarrow> string \<Rightarrow> string" where
  "nul_key t w = t @ NUL # w"

definition mem_inv :: "MemoryGovernanceStore \<Rightarrow> bool" where
  "mem_inv m \<longleftrightarrow>
     (\<forall>k r. m_quotas m k = Some r \<longrightarrow> 0 \<le> currentCount r \<and> currentCount r \<le> concurrentLimit r) \<and>
     (\<forall>a r. m_allocations m a = Some r \<longrightarrow> alloc_status r = ''RESERVED'' \<or> alloc_status r = ''RELEASED'')"

lemmas mem_abs_defs = mem_quota_def mem_ledger_def nul_key_def

lemma mem_inv_New [preserves]: "mem_inv NewMemoryGovernanceStore"
  by (simp add: mem_inv_def NewMemoryGovernanceStore_def)

lemma mem_inv_SetQuota [preserves]: "mem_inv m \<Longrightarrow> mem_inv (snd (mem_SetQuota m t w l))"
  by (auto simp: mem_inv_def mem_SetQuota_def Let_def split: option.splits)

lemma mem_inv_Reserve [preserves]: "mem_inv m \<Longrightarrow> mem_inv (snd (mem_ReserveAllocation m t w a sb now))"
  by (auto simp: mem_inv_def mem_ReserveAllocation_def Let_def split: option.splits)

lemma mem_inv_Release [preserves]: "mem_inv m \<Longrightarrow> mem_inv (snd (mem_ReleaseAllocation m t w a now))"
  by (auto simp: mem_inv_def mem_ReleaseAllocation_def Let_def split: option.splits)
    force+

lemma mem_inv_status: "mem_inv m \<Longrightarrow> m_allocations m a = Some r \<Longrightarrow> alloc_status r \<noteq> ''RELEASED'' \<Longrightarrow> alloc_status r = ''RESERVED''"
  by (auto simp: mem_inv_def)

lemma mem_set_ok:
  assumes "mem_SetQuota m t w l = (None, m')"
  shows "\<exists>c. c = (case mem_quota m (nul_key t w) of None \<Rightarrow> 0 | Some (_, c) \<Rightarrow> c) \<and> c \<le> l \<and>
           mem_quota m' = (mem_quota m)(nul_key t w \<mapsto> (l, c)) \<and> mem_ledger m' = mem_ledger m"
  using assms
  by (cases "m_quotas m (nul_key t w)")
    (auto simp: mem_SetQuota_def Let_def mem_abs_defs fun_eq_iff split: if_splits)

lemma mem_reserve_ok:
  assumes "mem_ReserveAllocation m t w a sb now = (None, m')"
  shows "\<exists>l c. mem_quota m (nul_key t w) = Some (l, c) \<and> c < l \<and>
           mem_quota m' = (mem_quota m)(nul_key t w \<mapsto> (l, c + 1)) \<and>
           mem_ledger m' = (mem_ledger m)(a \<mapsto> ''RESERVED'')"
  using assms
  by (cases "m_quotas m (nul_key t w)")
    (auto simp: mem_ReserveAllocation_def Let_def mem_abs_defs fun_eq_iff split: if_splits)

lemma mem_release_ok:
  assumes "mem_inv m" and "mem_ReleaseAllocation m t w a now = (None, m')"
  shows "(mem_ledger m a = Some ''RELEASED'' \<and> mem_quota m' = mem_quota m \<and> mem_ledger m' = mem_ledger m) \<or>
      (\<exists>l c. mem_ledger m a = Some ''RESERVED'' \<and> mem_quota m (nul_key t w) = Some (l, c) \<and> 0 < c \<and>
             mem_quota m' = (mem_quota m)(nul_key t w \<mapsto> (l, c - 1)) \<and>
             mem_ledger m' = (mem_ledger m)(a \<mapsto> ''RELEASED''))"
proof -
  from assms(2) obtain al where al: "m_allocations m a = Some al"
    by (auto simp: mem_ReleaseAllocation_def split: if_splits option.splits)
  show ?thesis
  proof (cases "alloc_status al = ''RELEASED''")
    case True
    with al assms(2) show ?thesis
      by (auto simp: mem_ReleaseAllocation_def mem_abs_defs split: if_splits)
  next
    case False
    with al assms have "mem_ledger m a = Some ''RESERVED''"
      by (auto simp: mem_ledger_def dest: mem_inv_status)
    with False al assms(2) show ?thesis
      by (cases "m_quotas m (nul_key t w)")
        (auto simp: mem_ReleaseAllocation_def Let_def mem_abs_defs fun_eq_iff split: if_splits)
  qed
qed

lemma mem_set_err:
  "mem_inv m \<Longrightarrow> mem_SetQuota m t w l = (Some e, m') \<Longrightarrow> m' = m"
  by (cases "m_quotas m (t @ NUL # w)") (auto simp: mem_SetQuota_def Let_def split: if_splits)

lemma mem_reserve_err: "mem_ReserveAllocation m t w a sb now = (Some e, m') \<Longrightarrow> m' = m"
  by (auto simp: mem_ReserveAllocation_def Let_def split: if_splits option.splits)

lemma mem_release_err: "mem_ReleaseAllocation m t w a now = (Some e, m') \<Longrightarrow> m' = m"
  by (auto simp: mem_ReleaseAllocation_def Let_def split: if_splits option.splits)

lemma memory_governance_sel [simp]:
  "SetQuota memory_governance = mem_SetQuota"
  "ReserveAllocation memory_governance = mem_ReserveAllocation"
  "ReleaseAllocation memory_governance = mem_ReleaseAllocation"
  "InsertIdempotencyPending memory_governance = mem_InsertIdempotencyPending"
  by (simp_all add: memory_governance_def)

interpretation mg: atomic_governance memory_governance nul_key mem_quota mem_ledger mem_inv
proof (unfold_locales, unfold memory_governance_sel)
  show "0 \<le> c \<and> c \<le> l" if "mem_inv g" "mem_quota g k = Some (l, c)" for g k l c
    using that by (auto simp: mem_inv_def mem_quota_def)
  show "st = ''RESERVED'' \<or> st = ''RELEASED''" if "mem_inv g" "mem_ledger g a = Some st" for g a st
    using that by (auto simp: mem_inv_def mem_ledger_def)
  show "mem_inv (snd (mem_SetQuota g t w l))" if "mem_inv g" for g t w l
    using that by (rule mem_inv_SetQuota)
  show "mem_inv (snd (mem_ReserveAllocation g t w a sb now))" if "mem_inv g" for g t w a sb now
    using that by (rule mem_inv_Reserve)
  show "mem_inv (snd (mem_ReleaseAllocation g t w a now))" if "mem_inv g" for g t w a now
    using that by (rule mem_inv_Release)
qed (erule mem_set_ok mem_reserve_ok
   | erule (1) mem_release_ok
   | (drule (1) mem_set_err, simp)
   | (drule mem_reserve_err, simp)
   | (drule mem_release_err, simp))+

end
