(* ===== verification/Go_Crypto.thy ===== *)
theory Go_Crypto
  imports Go_Strings "HOL-Library.Word"
begin

unbundle bit_operations_syntax

text \<open>
  The functions of Go's \<open>crypto/sha256\<close>, \<open>crypto/hmac\<close>, \<open>crypto/subtle\<close>,
  \<open>encoding/hex\<close> and \<open>encoding/base64\<close> that kubebox calls: SHA-256 as in
  FIPS 180-4, HMAC as in RFC 2104, lower-case hexadecimal, and the unpadded URL
  alphabet of base64 with the decoder's leniency (it skips CR and LF and ignores the
  unused low bits of the last character).
\<close>

section \<open>SHA-256\<close>

type_synonym w32 = "32 word"

text \<open>
  The constants of the standard are bits of roots of the first primes: \<open>root_bits e n b x\<close>
  extends \<open>x\<close> bit by bit to the largest number below \<open>x + 2 ^ b\<close> whose \<open>e\<close>-th power
  is at most \<open>n\<close>, and \<open>root_frac e p\<close> keeps the first 32 bits after the point of
  the \<open>e\<close>-th root of \<open>p\<close> (all the roots are below 8).
\<close>

fun root_bits :: "nat \<Rightarrow> int \<Rightarrow> nat \<Rightarrow> int \<Rightarrow> int" where
  "root_bits e n 0 x = x"
| "root_bits e n (Suc b) x = (let y = x + 2 ^ b in root_bits e n b (if y ^ e \<le> n then y else x))"

definition root_frac :: "nat \<Rightarrow> int \<Rightarrow> w32" where
  "root_frac e p = word_of_int (root_bits e (p * 2 ^ (32 * e)) 35 0)"

definition sha_primes :: "int list" where
  "sha_primes = filter (\<lambda>p. list_all (\<lambda>d. p mod d \<noteq> 0) [2..min 17 (p - 1)]) [2..311]"

definition sha_k :: "w32 list" where
  "sha_k = map (root_frac 3) sha_primes"

definition sha_h0 :: "w32 list" where
  "sha_h0 = map (root_frac 2) (take 8 sha_primes)"

definition sha_s0 :: "w32 \<Rightarrow> w32" where
  "sha_s0 x = word_rotr 7 x XOR word_rotr 18 x XOR drop_bit 3 x"

definition sha_s1 :: "w32 \<Rightarrow> w32" where
  "sha_s1 x = word_rotr 17 x XOR word_rotr 19 x XOR drop_bit 10 x"

definition sha_S0 :: "w32 \<Rightarrow> w32" where
  "sha_S0 x = word_rotr 2 x XOR word_rotr 13 x XOR word_rotr 22 x"

definition sha_S1 :: "w32 \<Rightarrow> w32" where
  "sha_S1 x = word_rotr 6 x XOR word_rotr 11 x XOR word_rotr 25 x"

definition sha_ch :: "w32 \<Rightarrow> w32 \<Rightarrow> w32 \<Rightarrow> w32" where
  "sha_ch x y z = (x AND y) XOR (NOT x AND z)"

definition sha_maj :: "w32 \<Rightarrow> w32 \<Rightarrow> w32 \<Rightarrow> w32" where
  "sha_maj x y z = (x AND y) XOR (x AND z) XOR (y AND z)"

text \<open>The message schedule, kept newest first while it grows to 64 words.\<close>

fun sha_expand :: "nat \<Rightarrow> w32 list \<Rightarrow> w32 list" where
  "sha_expand 0 ws = rev ws"
| "sha_expand (Suc n) ws =
     sha_expand n ((sha_s1 (ws ! 1) + ws ! 6 + sha_s0 (ws ! 14) + ws ! 15) # ws)"

definition sha_round :: "w32 list \<Rightarrow> w32 \<times> w32 \<Rightarrow> w32 list" where
  "sha_round st kw =
     (case st of
        [a, b, c, d, e, f, g, h] \<Rightarrow>
          (let t1 = h + sha_S1 e + sha_ch e f g + fst kw + snd kw;
               t2 = sha_S0 a + sha_maj a b c
           in [t1 + t2, a, b, c, d + t1, e, f, g])
      | _ \<Rightarrow> st)"

definition sha_block :: "w32 list \<Rightarrow> w32 list \<Rightarrow> w32 list" where
  "sha_block h m = map2 (+) h (foldl sha_round h (zip sha_k (sha_expand 48 (rev m))))"

fun words_of :: "string \<Rightarrow> w32 list" where
  "words_of (a # b # c # d # s) =
     (word_of_int (((of_char a * 256 + of_char b) * 256 + of_char c) * 256 + of_char d)) # words_of s"
| "words_of _ = []"

fun chunks :: "nat \<Rightarrow> 'a list \<Rightarrow> 'a list list" where
  "chunks n xs = (if n = 0 \<or> length xs < n then [] else take n xs # chunks n (drop n xs))"

declare chunks.simps [simp del]

definition be_bytes :: "nat \<Rightarrow> int \<Rightarrow> string" where
  "be_bytes k n = map (\<lambda>i. char_of (n div 256 ^ (k - 1 - i))) [0..<k]"

definition sha_pad :: "string \<Rightarrow> string" where
  "sha_pad s = s @ [CHR 0x80] @ replicate ((119 - length s mod 64) mod 64) (CHR 0x00)
                 @ be_bytes 8 (8 * int (length s))"

definition Sum256 :: "string \<Rightarrow> string" where
  "Sum256 s = concat (map (\<lambda>w. be_bytes 4 (uint w))
                (foldl sha_block sha_h0 (chunks 16 (words_of (sha_pad s)))))"

lemma length_be_bytes [simp]: "length (be_bytes k n) = k"
  by (simp add: be_bytes_def)

lemma length_sha_round [simp]: "length (sha_round st kw) = length st"
  by (auto simp: sha_round_def Let_def split: list.splits)

lemma length_fold_rounds: "length (foldl sha_round st kws) = length st"
  by (induction kws arbitrary: st) simp_all

lemma length_sha_block [simp]: "length (sha_block h m) = length h"
  by (simp add: sha_block_def length_fold_rounds)

lemma length_fold_blocks: "length (foldl sha_block h ms) = length h"
  by (induction ms arbitrary: h) simp_all

lemma length_sha_primes: "length sha_primes = 64"
  by code_simp

lemma length_Sum256: "length (Sum256 s) = 32"
proof -
  let ?d = "foldl sha_block sha_h0 (chunks 16 (words_of (sha_pad s)))"
  have "length ?d = 8" by (simp add: length_fold_blocks sha_h0_def length_sha_primes)
  moreover have "length (concat (map (\<lambda>w. be_bytes 4 (uint w)) ws)) = 4 * length ws" for ws :: "w32 list"
    by (induction ws) simp_all
  ultimately show ?thesis by (simp add: Sum256_def)
qed

section \<open>HMAC\<close>

definition xor_char :: "int \<Rightarrow> char \<Rightarrow> char" where
  "xor_char k c = char_of (k XOR of_char c)"

definition hmac_key :: "string \<Rightarrow> string" where
  "hmac_key secret =
     (let k = (if 64 < length secret then Sum256 secret else secret)
      in k @ replicate (64 - length k) (CHR 0x00))"

definition hmac_sha256 :: "string \<Rightarrow> string \<Rightarrow> string" where
  "hmac_sha256 secret msg =
     (let k = hmac_key secret
      in Sum256 (map (xor_char 0x5c) k @ Sum256 (map (xor_char 0x36) k @ msg)))"

lemma length_hmac: "length (hmac_sha256 secret msg) = 32"
  by (simp add: hmac_sha256_def Let_def length_Sum256)

text \<open>
  \<open>hmac.Equal\<close> and \<open>subtle.ConstantTimeCompare\<close> differ from \<open>=\<close> in their running
  time only: they return 0 on unequal lengths and 1 exactly on equal contents.
\<close>

definition ConstantTimeCompare :: "string \<Rightarrow> string \<Rightarrow> int" where
  "ConstantTimeCompare x y =
     (if length x \<noteq> length y then 0
      else if list_all (\<lambda>(a, b). a = b) (zip x y) then 1 else 0)"

lemma ConstantTimeCompare_iff: "ConstantTimeCompare x y = 1 \<longleftrightarrow> x = y"
proof (cases "length x = length y")
  case True
  then have "list_all (\<lambda>(a, b). a = b) (zip x y) \<longleftrightarrow> x = y"
    by (induction x y rule: list_induct2) auto
  with True show ?thesis by (simp add: ConstantTimeCompare_def)
qed (auto simp: ConstantTimeCompare_def)

section \<open>Hexadecimal\<close>

definition hex_alphabet :: string where "hex_alphabet = ''0123456789abcdef''"

definition hex_digit :: "nat \<Rightarrow> char" where "hex_digit d = hex_alphabet ! (d mod 16)"

fun EncodeToHex :: "string \<Rightarrow> string" where
  "EncodeToHex [] = []"
| "EncodeToHex (c # s) = hex_digit (of_char c div 16) # hex_digit (of_char c mod 16) # EncodeToHex s"

lemma length_EncodeToHex [simp]: "length (EncodeToHex s) = 2 * length s"
  by (induction s) simp_all

lemma hex_digit_in: "hex_digit d \<in> set hex_alphabet"
proof -
  have "d mod 16 < length hex_alphabet" by (simp add: hex_alphabet_def)
  then show ?thesis unfolding hex_digit_def by (rule nth_mem)
qed

lemma set_EncodeToHex: "set (EncodeToHex s) \<subseteq> set hex_alphabet"
  by (induction s) (auto simp: hex_digit_in)

text \<open>The FIPS 180-4 test vector for \<open>abc\<close>.\<close>

lemma Sum256_abc:
  "EncodeToHex (Sum256 ''abc'') = ''ba7816bf8f01cfea414140de5dae2223b00361a396177a9cb410ff61f20015ad''"
  by code_simp

section \<open>Base64 (RawURLEncoding)\<close>

definition b64_alphabet :: string where
  "b64_alphabet = ''ABCDEFGHIJKLMNOPQRSTUVWXYZabcdefghijklmnopqrstuvwxyz0123456789-_''"

fun b64_sextets :: "nat list \<Rightarrow> nat list" where
  "b64_sextets [] = []"
| "b64_sextets [a] = [a div 4, (a mod 4) * 16]"
| "b64_sextets [a, b] = [a div 4, (a mod 4) * 16 + b div 16, (b mod 16) * 4]"
| "b64_sextets (a # b # c # s) =
     (a div 4) # ((a mod 4) * 16 + b div 16) # ((b mod 16) * 4 + c div 64) # (c mod 64) # b64_sextets s"

fun b64_octets :: "nat list \<Rightarrow> nat list option" where
  "b64_octets [] = Some []"
| "b64_octets [p] = None"
| "b64_octets [p, q] = Some [p * 4 + q div 16]"
| "b64_octets [p, q, r] = Some [p * 4 + q div 16, (q mod 16) * 16 + r div 4]"
| "b64_octets (p # q # r # t # s) =
     map_option (\<lambda>os. (p * 4 + q div 16) # ((q mod 16) * 16 + r div 4) # ((r mod 4) * 64 + t) # os)
       (b64_octets s)"

definition b64_index :: "char \<Rightarrow> nat option" where
  "b64_index c = map_of (zip b64_alphabet [0..<64]) c"

fun b64_indices :: "string \<Rightarrow> nat list option" where
  "b64_indices [] = Some []"
| "b64_indices (c # s) =
     (case b64_index c of
        None \<Rightarrow> None
      | Some d \<Rightarrow> map_option (\<lambda>ds. d # ds) (b64_indices s))"

definition b64_EncodeToString :: "string \<Rightarrow> string" where
  "b64_EncodeToString s = map (\<lambda>d. b64_alphabet ! d) (b64_sextets (map of_char s))"

text \<open>\<open>None\<close> is the decoder's \<open>CorruptInputError\<close>.\<close>

definition b64_DecodeString :: "string \<Rightarrow> string option" where
  "b64_DecodeString s =
     (case b64_indices (filter (\<lambda>c. c \<noteq> CHR 0x0D \<and> c \<noteq> CHR 0x0A) s) of
        None \<Rightarrow> None
      | Some ds \<Rightarrow> map_option (map char_of) (b64_octets ds))"

lemma length_b64_alphabet: "length b64_alphabet = 64"
  by (simp add: b64_alphabet_def)

lemma b64_index_alphabet: "d < 64 \<Longrightarrow> b64_index (b64_alphabet ! d) = Some d"
proof -
  assume "d < 64"
  then have "d \<in> set [0..<64]" by simp
  moreover have "list_all (\<lambda>d. b64_index (b64_alphabet ! d) = Some d) [0..<64]" by code_simp
  ultimately show ?thesis by (simp only: list_all_iff)
qed

lemma b64_alphabet_plain: "d < 64 \<Longrightarrow> b64_alphabet ! d \<notin> {CHR ''.'', CHR 0x0D, CHR 0x0A}"
proof -
  assume "d < 64"
  then have "b64_alphabet ! d \<in> set b64_alphabet" by (simp add: length_b64_alphabet)
  moreover have "CHR ''.'' \<notin> set b64_alphabet" "CHR 0x0D \<notin> set b64_alphabet" "CHR 0x0A \<notin> set b64_alphabet"
    by (simp_all add: b64_alphabet_def)
  ultimately show ?thesis by auto
qed

lemma b64_sextets_small: "\<forall>x \<in> set s. x < 256 \<Longrightarrow> \<forall>d \<in> set (b64_sextets s). d < 64"
  by (induction s rule: b64_sextets.induct) auto

lemma b64_octets_sextets: "\<forall>x \<in> set s. x < 256 \<Longrightarrow> b64_octets (b64_sextets s) = Some s"
  by (induction s rule: b64_sextets.induct) auto

lemma b64_indices_map: "\<forall>d \<in> set ds. d < 64 \<Longrightarrow> b64_indices (map (\<lambda>d. b64_alphabet ! d) ds) = Some ds"
  by (induction ds) (simp_all add: b64_index_alphabet)

lemma b64_in_alphabet: "c \<in> set (b64_EncodeToString s) \<Longrightarrow> c \<in> set b64_alphabet"
proof -
  assume "c \<in> set (b64_EncodeToString s)"
  moreover have "\<forall>d \<in> set (b64_sextets (map of_char s)). d < 64" by (rule b64_sextets_small) simp
  ultimately show ?thesis by (auto simp: b64_EncodeToString_def length_b64_alphabet)
qed

lemma b64_EncodeToString_plain:
  assumes "c \<in> set (b64_EncodeToString s)"
  shows "c \<notin> {CHR ''.'', CHR 0x0D, CHR 0x0A}"
proof -
  have "\<forall>x \<in> set (map of_char s). x < (256 :: nat)" by simp
  from assms b64_sextets_small [OF this] obtain d where "d < 64" "c = b64_alphabet ! d"
    by (auto simp: b64_EncodeToString_def)
  then show ?thesis using b64_alphabet_plain by simp
qed

theorem b64_roundtrip: "b64_DecodeString (b64_EncodeToString s) = Some s"
proof -
  let ?ds = "b64_sextets (map of_char s)"
  have small: "\<forall>x \<in> set (map of_char s). x < (256 :: nat)" by simp
  have "filter (\<lambda>c. c \<noteq> CHR 0x0D \<and> c \<noteq> CHR 0x0A) (b64_EncodeToString s) = b64_EncodeToString s"
    using b64_EncodeToString_plain by (intro filter_True) blast
  moreover have "b64_indices (b64_EncodeToString s) = Some ?ds"
    unfolding b64_EncodeToString_def using b64_sextets_small [OF small] by (rule b64_indices_map)
  moreover have "b64_octets ?ds = Some (map of_char s)" using small by (rule b64_octets_sextets)
  ultimately show ?thesis by (simp add: b64_DecodeString_def comp_def)
qed

end
