(* ===== verification/Go_Json.thy ===== *)
theory Go_Json
  imports Go_Strings "HOL-Library.Finite_Map" "HOL-Library.Char_ord" "HOL-Library.List_Lexorder"
begin

text \<open>
  The part of Go's \<open>encoding/json\<close> that kubebox writes with: \<open>json.Marshal\<close> of
  strings, integers, string slices, string maps and structs of these. The decoder is
  in the theory \<open>Go_Json_Decode\<close>.
\<close>

section \<open>Strings\<close>

text \<open>
  The length of the well-formed UTF-8 sequence at the head of a byte string, \<open>0\<close> for
  an ill-formed one (\<open>utf8.DecodeRuneInString\<close> giving \<open>RuneError\<close> with size 1).
\<close>

definition cont :: "nat \<Rightarrow> nat \<Rightarrow> char \<Rightarrow> bool" where
  "cont lo hi c \<longleftrightarrow> lo \<le> of_char c \<and> of_char c \<le> hi"

fun conts :: "nat \<Rightarrow> string \<Rightarrow> bool" where
  "conts 0 s = True"
| "conts (Suc n) [] = False"
| "conts (Suc n) (c # s) = (cont 0x80 0xBF c \<and> conts n s)"

definition utf8_lead :: "nat \<Rightarrow> (nat \<times> nat \<times> nat) option" where
  \<comment> \<open>size, then the range of the second byte\<close>
  "utf8_lead b =
     (if 0xC2 \<le> b \<and> b \<le> 0xDF then Some (2, 0x80, 0xBF)
      else if b = 0xE0 then Some (3, 0xA0, 0xBF)
      else if b = 0xED then Some (3, 0x80, 0x9F)
      else if 0xE1 \<le> b \<and> b \<le> 0xEF then Some (3, 0x80, 0xBF)
      else if b = 0xF0 then Some (4, 0x90, 0xBF)
      else if 0xF1 \<le> b \<and> b \<le> 0xF3 then Some (4, 0x80, 0xBF)
      else if b = 0xF4 then Some (4, 0x80, 0x8F)
      else None)"

definition utf8_size :: "string \<Rightarrow> nat" where
  "utf8_size s =
     (case s of
        [] \<Rightarrow> 0
      | c # r \<Rightarrow>
          if of_char c < (0x80 :: nat) then 1
          else (case utf8_lead (of_char c) of
                  None \<Rightarrow> 0
                | Some (n, lo, hi) \<Rightarrow>
                    (case r of
                       [] \<Rightarrow> 0
                     | d # r' \<Rightarrow> if cont lo hi d \<and> conts (n - 2) r' then n else 0)))"

definition hex2 :: "nat \<Rightarrow> string" where
  "hex2 b = [''0123456789abcdef'' ! (b div 16), ''0123456789abcdef'' ! (b mod 16)]"

text \<open>One ASCII byte, with the HTML-safe escaping that \<open>json.Marshal\<close> uses.\<close>

definition json_ascii :: "char \<Rightarrow> string" where
  "json_ascii c =
     (let b = of_char c :: nat in
      if c = CHR 0x5C \<or> c = CHR 0x22 then [CHR 0x5C, c]
      else if b = 8 then [CHR 0x5C, CHR ''b'']
      else if b = 12 then [CHR 0x5C, CHR ''f'']
      else if b = 10 then [CHR 0x5C, CHR ''n'']
      else if b = 13 then [CHR 0x5C, CHR ''r'']
      else if b = 9 then [CHR 0x5C, CHR ''t'']
      else if b < 0x20 \<or> c = CHR ''<'' \<or> c = CHR ''>'' \<or> c = CHR ''&''
        then CHR 0x5C # CHR ''u'' # CHR ''0'' # CHR ''0'' # hex2 b
      else [c])"

function json_escape :: "string \<Rightarrow> string" where
  "json_escape [] = []"
| "json_escape (c # s) =
     (if of_char c < (0x80 :: nat) then json_ascii c @ json_escape s
      else let n = utf8_size (c # s) in
        if n = 0 then CHR 0x5C # ''ufffd'' @ json_escape s
        else if take n (c # s) = [CHR 0xE2, CHR 0x80, CHR 0xA8] then CHR 0x5C # ''u2028'' @ json_escape (drop (n - 1) s)
        else if take n (c # s) = [CHR 0xE2, CHR 0x80, CHR 0xA9] then CHR 0x5C # ''u2029'' @ json_escape (drop (n - 1) s)
        else take n (c # s) @ json_escape (drop (n - 1) s))"
  by pat_completeness auto
termination
  by (relation "measure length") auto

definition json_string :: "string \<Rightarrow> string" where
  "json_string s = [CHR 0x22] @ json_escape s @ [CHR 0x22]"

section \<open>Numbers, arrays, maps, objects\<close>

definition json_int :: "int \<Rightarrow> string" where
  "json_int n = (if n < 0 then CHR ''-'' # itoa (nat (- n)) else itoa (nat n))"

definition json_strings :: "string list \<Rightarrow> string" where
  "json_strings xs = [CHR ''[''] @ Join (map json_string xs) '','' @ [CHR '']'']"

definition json_object :: "(string \<times> string) list \<Rightarrow> string" where
  \<comment> \<open>the fields with their values already encoded, in order\<close>
  "json_object fs = [CHR ''{''] @ Join (map (\<lambda>(k, v). json_string k @ '':'' @ v) fs) '','' @ [CHR ''}'']"

text \<open>A \<open>map[string]string\<close>; the encoder sorts the keys.\<close>

definition json_map :: "(string, string) fmap \<Rightarrow> string" where
  "json_map m =
     json_object (map (\<lambda>k. (k, json_string (case fmlookup m k of None \<Rightarrow> [] | Some v \<Rightarrow> v)))
       (sorted_list_of_fset (fmdom m)))"

text \<open>Copying a map entry by entry gives the map.\<close>

lemma fmap_copy:
  "fold (\<lambda>k out. case fmlookup m k of None \<Rightarrow> out | Some v \<Rightarrow> fmupd k v out) (sorted_list_of_fset (fmdom m)) fmempty = m"
proof -
  have "fmlookup (fold (\<lambda>k out. case fmlookup m k of None \<Rightarrow> out | Some v \<Rightarrow> fmupd k v out) ks out) x =
      (if x \<in> set ks \<and> fmlookup m x \<noteq> None then fmlookup m x else fmlookup out x)" for ks out x
    by (induction ks arbitrary: out) (auto split: option.splits)
  then show ?thesis by (intro fmap_ext) (auto simp: fmlookup_dom_iff)
qed

lemma json_int_inject: "json_int m = json_int n \<longleftrightarrow> m = n"
proof -
  have nm: "CHR ''-'' \<notin> set (itoa k)" for k
    using itoa_digits [of "CHR ''-''" k] by auto
  have "CHR ''-'' # s \<noteq> itoa k" for s k
    using nm [of k] by (metis list.set_intros(1))
  then show ?thesis
    by (auto simp: json_int_def itoa_inject nat_eq_iff split: if_splits dest: sym)
qed

lemma json_string_plain_example: "json_string ''a<b'' = [CHR 0x22] @ ''a'' @ [CHR 0x5C] @ ''u003cb'' @ [CHR 0x22]"
  by code_simp

end
