(* ===== verification/Sandbox_Store.thy ===== *)
theory Sandbox_Store
  imports Governance Go_Crypto Go_Json
begin

text \<open>
  The control plane's sandbox store, \<open>internal/sandbox/service.go\<close>. Every method
  holds the store's mutex from its first access of the maps to its return, so a
  method is one atomic step on the record \<open>Store\<close>. The maps hold pointers that
  never leave the store (results are clones), so they are maps to values here.

  A store with \<open>gov = None\<close> is the in-memory store of \<open>NewStore\<close>; with
  \<open>gov = Some g\<close> the quota and allocation writes go to the governance boundary in
  state \<open>g\<close>, whose method table is the argument \<open>G\<close>.
\<close>

section \<open>Data\<close>

datatype Phase = PhaseProvisioning | PhaseReady | PhaseDraining | PhaseDeleted | PhaseFailed

datatype AllocationStatus = AllocationReserved | AllocationReleased

datatype IdempotencyStatus = IdempotencyPending | IdempotencySucceeded | IdempotencyFailed

record Quota =
  q_TenantID :: string
  q_OwnerID :: string
  q_ConcurrentLimit :: int
  q_CurrentCount :: int

type_synonym go_map = "(string, string) fmap option" \<comment> \<open>\<open>None\<close> is the nil map\<close>

record CreateRequest =
  r_TenantID :: string
  r_Template :: string
  r_RuntimeClass :: string
  r_TTLSeconds :: int
  r_Resources :: go_map

record Sandbox =
  sb_ID :: string
  sb_TenantID :: string
  sb_OwnerID :: string
  sb_Template :: string
  sb_RuntimeClass :: string
  sb_Resources :: go_map
  sb_Phase :: Phase
  sb_AllocationID :: string
  sb_IdempotencyKey :: string
  sb_ExpiresAt :: time
  sb_CreatedAt :: time
  sb_UpdatedAt :: time

record IdempotencyRecord =
  i_TenantID :: string
  i_OwnerID :: string
  i_Key :: string
  i_RequestHash :: string
  i_Status :: IdempotencyStatus
  i_ResourceID :: string
  i_LeaseVersion :: nat
  i_ExpiresAt :: time

record Allocation =
  a_ID :: string
  a_TenantID :: string
  a_OwnerID :: string
  a_SandboxID :: string
  a_Status :: AllocationStatus

record 'g Store =
  sequence :: "64 word"
  sandboxes :: "string \<rightharpoonup> Sandbox"
  allocations :: "string \<rightharpoonup> Allocation"
  idempotency :: "string \<rightharpoonup> IdempotencyRecord"
  quotas :: "string \<rightharpoonup> Quota"
  gov :: "'g option"

datatype sandbox_error =
    ErrInvalidRequest
  | ErrQuotaNotConfigured
  | ErrQuotaExceeded
  | ErrQuotaBelowUsage
  | ErrQuotaCorrupt
  | ErrAllocationNotFound
  | ErrNotFound
  | ErrResourceGone
  | ErrInvalidTransition
  | ErrIdempotencyConflict
  | ErrIdempotencyPending
  | ErrIdempotencyFailed
  | GovernanceError persistence_error \<comment> \<open>an error of the boundary passed on as it is\<close>

section \<open>Helpers\<close>

definition mapGovError :: "persistence_error \<Rightarrow> sandbox_error" where
  "mapGovError err =
     (case err of
        persistence_error.ErrQuotaExceeded \<Rightarrow> ErrQuotaExceeded
      | persistence_error.ErrQuotaNotConfigured \<Rightarrow> ErrQuotaNotConfigured
      | persistence_error.ErrQuotaBelowUsage \<Rightarrow> ErrQuotaBelowUsage
      | persistence_error.ErrQuotaCorrupt \<Rightarrow> ErrQuotaCorrupt
      | persistence_error.ErrAllocationNotFound \<Rightarrow> ErrAllocationNotFound
      | persistence_error.ErrAllocationState \<Rightarrow> ErrAllocationNotFound
      | _ \<Rightarrow> GovernanceError err)"

definition quotaKey :: "string \<Rightarrow> string \<Rightarrow> string" where
  "quotaKey tenantID ownerID = tenantID @ NUL # ownerID"

text \<open>\<open>cloneMap\<close> copies entry by entry; the order of the iteration does not matter.\<close>

definition cloneMap :: "go_map \<Rightarrow> go_map" where
  "cloneMap m =
     (case m of
        None \<Rightarrow> None
      | Some m \<Rightarrow>
          Some (fold (\<lambda>k out. case fmlookup m k of None \<Rightarrow> out | Some v \<Rightarrow> fmupd k v out)
                  (sorted_list_of_fset (fmdom m)) fmempty))"

definition cloneSandbox :: "Sandbox \<Rightarrow> Sandbox" where
  "cloneSandbox sb = sb\<lparr>sb_Resources := cloneMap (sb_Resources sb)\<rparr>"

text \<open>
  \<open>json.Marshal\<close> of a \<open>CreateRequest\<close> by its field tags: the last three fields are
  \<open>omitempty\<close>.
\<close>

definition marshalRequest :: "CreateRequest \<Rightarrow> string" where
  "marshalRequest req =
     json_object
       ([(''tenantId'', json_string (r_TenantID req)), (''template'', json_string (r_Template req))]
        @ (if r_RuntimeClass req = [] then [] else [(''runtimeClass'', json_string (r_RuntimeClass req))])
        @ (if r_TTLSeconds req = 0 then [] else [(''ttlSeconds'', json_int (r_TTLSeconds req))])
        @ (case r_Resources req of
             None \<Rightarrow> []
           | Some m \<Rightarrow> if fmdom m = {||} then [] else [(''resources'', json_map m)]))"

definition requestHash :: "CreateRequest \<Rightarrow> string" where
  "requestHash req = EncodeToHex (Sum256 (marshalRequest req))"

section \<open>Constructors\<close>

definition NewStore :: "'g Store" where
  "NewStore =
     \<lparr>sequence = 0, sandboxes = Map.empty, allocations = Map.empty,
      idempotency = Map.empty, quotas = Map.empty, gov = None\<rparr>"

text \<open>\<open>NewStoreWithGovernance(nil)\<close> is the error; the argument is \<open>None\<close> then.\<close>

definition NewStoreWithGovernance :: "'g option \<Rightarrow> 'g Store option" where
  "NewStoreWithGovernance g =
     (case g of
        None \<Rightarrow> None
      | Some g \<Rightarrow>
          Some \<lparr>sequence = 0, sandboxes = Map.empty, allocations = Map.empty,
                idempotency = Map.empty, quotas = Map.empty, gov = Some g\<rparr>)"

section \<open>Quotas\<close>

definition Store_SetQuota ::
  "'g GovernanceStore \<Rightarrow> 'g Store \<Rightarrow> string \<Rightarrow> string \<Rightarrow> int \<Rightarrow> sandbox_error option \<times> 'g Store" where
  "Store_SetQuota G s tenantID ownerID limit =
     (if tenantID = [] \<or> ownerID = [] \<or> limit < 0 then (Some ErrInvalidRequest, s)
      else
        let key = quotaKey tenantID ownerID;
            (q, s) = (case quotas s key of
                        Some q \<Rightarrow> (q, s)
                      | None \<Rightarrow>
                          let q = \<lparr>q_TenantID = tenantID, q_OwnerID = ownerID,
                                   q_ConcurrentLimit = 0, q_CurrentCount = 0\<rparr>
                          in (q, s\<lparr>quotas := (quotas s)(key \<mapsto> q)\<rparr>))
        in case gov s of
             None \<Rightarrow>
               if limit < q_CurrentCount q then (Some ErrQuotaBelowUsage, s)
               else (None, s\<lparr>quotas := (quotas s)(key \<mapsto> q\<lparr>q_ConcurrentLimit := limit\<rparr>)\<rparr>)
           | Some g \<Rightarrow>
               (case SetQuota G g tenantID ownerID limit of
                  (Some err, g') \<Rightarrow> (Some (mapGovError err), s\<lparr>gov := Some g'\<rparr>)
                | (None, g') \<Rightarrow>
                    (None, s\<lparr>gov := Some g', quotas := (quotas s)(key \<mapsto> q\<lparr>q_ConcurrentLimit := limit\<rparr>)\<rparr>)))"

definition Store_GetQuota :: "'g Store \<Rightarrow> string \<Rightarrow> string \<Rightarrow> Quota option" where
  "Store_GetQuota s tenantID ownerID = quotas s (quotaKey tenantID ownerID)"

section \<open>Create\<close>

definition sandboxName :: "64 word \<Rightarrow> string" where
  "sandboxName n = ''sbx-'' @ pad08 (unat n)"

definition allocationName :: "64 word \<Rightarrow> string" where
  "allocationName n = ''alloc-'' @ pad08 (unat n)"

text \<open>The defaults \<open>Create\<close> writes into the request before it is hashed.\<close>

definition withDefaults :: "CreateRequest \<Rightarrow> CreateRequest" where
  "withDefaults req =
     (let req = (if r_TTLSeconds req \<le> 0 then req\<lparr>r_TTLSeconds := 1800\<rparr> else req)
      in if r_RuntimeClass req = [] then req\<lparr>r_RuntimeClass := ''gvisor''\<rparr> else req)"

text \<open>
  The quota slot: through the boundary when there is one, else in the local row. A
  failure of the boundary removes the pending idempotency record; a failure of the
  local row does not.
\<close>

definition reserveSlot ::
  "'g GovernanceStore \<Rightarrow> 'g Store \<Rightarrow> string \<Rightarrow> string \<Rightarrow> string \<Rightarrow> string \<Rightarrow> string \<Rightarrow> time
     \<Rightarrow> sandbox_error option \<times> 'g Store" where
  "reserveSlot G s tenantID ownerID idemKey allocationID sandboxID now =
     (let key = quotaKey tenantID ownerID in
      case gov s of
        Some g \<Rightarrow>
          (case ReserveAllocation G g tenantID ownerID allocationID sandboxID now of
             (Some err, g') \<Rightarrow>
               (Some (mapGovError err), s\<lparr>gov := Some g', idempotency := (idempotency s)(idemKey := None)\<rparr>)
           | (None, g') \<Rightarrow>
               let proj = (case quotas s key of
                             None \<Rightarrow> \<lparr>q_TenantID = tenantID, q_OwnerID = ownerID,
                                      q_ConcurrentLimit = 0, q_CurrentCount = 0\<rparr>
                           | Some proj \<Rightarrow> proj)
               in (None, s\<lparr>gov := Some g',
                           quotas := (quotas s)(key \<mapsto> proj\<lparr>q_CurrentCount := q_CurrentCount proj + 1\<rparr>)\<rparr>))
      | None \<Rightarrow>
          (case quotas s key of
             None \<Rightarrow> (Some ErrQuotaNotConfigured, s)
           | Some quota \<Rightarrow>
               if q_ConcurrentLimit quota \<le> q_CurrentCount quota then (Some ErrQuotaExceeded, s)
               else (None, s\<lparr>quotas := (quotas s)(key \<mapsto>
                              quota\<lparr>q_CurrentCount := q_CurrentCount quota + 1\<rparr>)\<rparr>)))"

definition Create ::
  "'g GovernanceStore \<Rightarrow> 'g Store \<Rightarrow> string \<Rightarrow> string \<Rightarrow> CreateRequest \<Rightarrow> time
     \<Rightarrow> (sandbox_error, Sandbox) result \<times> 'g Store" where
  "Create G s actorOwnerID idempotencyKey req now =
     (if actorOwnerID = [] \<or> idempotencyKey = [] \<or> r_TenantID req = [] \<or> r_Template req = []
      then (Inl ErrInvalidRequest, s)
      else
        let req = withDefaults req;
            hash = requestHash req;
            idemKey = r_TenantID req @ NUL # idempotencyKey
        in case idempotency s idemKey of
             Some prior \<Rightarrow>
               if i_RequestHash prior \<noteq> hash \<or> i_OwnerID prior \<noteq> actorOwnerID
               then (Inl ErrIdempotencyConflict, s)
               else (case i_Status prior of
                       IdempotencyPending \<Rightarrow> (Inl ErrIdempotencyPending, s)
                     | IdempotencySucceeded \<Rightarrow>
                         (case sandboxes s (i_ResourceID prior) of
                            Some sb \<Rightarrow> (Inr (cloneSandbox sb), s)
                          | None \<Rightarrow> (Inl ErrResourceGone, s))
                     | IdempotencyFailed \<Rightarrow> (Inl ErrIdempotencyFailed, s))
           | None \<Rightarrow>
               let n = sequence s + 1;
                   sandboxID = sandboxName n;
                   allocationID = allocationName n;
                   rec = \<lparr>i_TenantID = r_TenantID req, i_OwnerID = actorOwnerID, i_Key = idempotencyKey,
                          i_RequestHash = hash, i_Status = IdempotencyPending, i_ResourceID = [],
                          i_LeaseVersion = 1,
                          i_ExpiresAt = Add now (seconds (wrap64 (r_TTLSeconds req + 7200)))\<rparr>;
                   s = s\<lparr>sequence := n, idempotency := (idempotency s)(idemKey \<mapsto> rec)\<rparr>
               in case reserveSlot G s (r_TenantID req) actorOwnerID idemKey allocationID sandboxID now of
                    (Some err, s) \<Rightarrow> (Inl err, s)
                  | (None, s) \<Rightarrow>
                      let al = \<lparr>a_ID = allocationID, a_TenantID = r_TenantID req, a_OwnerID = actorOwnerID,
                                a_SandboxID = sandboxID, a_Status = AllocationReserved\<rparr>;
                          sb = \<lparr>sb_ID = sandboxID, sb_TenantID = r_TenantID req, sb_OwnerID = actorOwnerID,
                                sb_Template = r_Template req, sb_RuntimeClass = r_RuntimeClass req,
                                sb_Resources = cloneMap (r_Resources req), sb_Phase = PhaseReady,
                                sb_AllocationID = allocationID, sb_IdempotencyKey = idempotencyKey,
                                sb_ExpiresAt = Add now (seconds (r_TTLSeconds req)),
                                sb_CreatedAt = now, sb_UpdatedAt = now\<rparr>
                      in (Inr (cloneSandbox sb),
                          s\<lparr>allocations := (allocations s)(allocationID \<mapsto> al),
                            sandboxes := (sandboxes s)(sandboxID \<mapsto> sb),
                            idempotency := (idempotency s)(idemKey \<mapsto>
                              rec\<lparr>i_Status := IdempotencySucceeded, i_ResourceID := sandboxID\<rparr>)\<rparr>))"

section \<open>Get, Drain, CompleteDeletion\<close>

definition Store_Get :: "'g Store \<Rightarrow> string \<Rightarrow> (sandbox_error, Sandbox) result" where
  "Store_Get s sid =
     (case sandboxes s sid of
        None \<Rightarrow> Inl ErrNotFound
      | Some sb \<Rightarrow> if sb_Phase sb = PhaseDeleted then Inl ErrNotFound else Inr (cloneSandbox sb))"

definition releaseAllocationLocked ::
  "'g GovernanceStore \<Rightarrow> 'g Store \<Rightarrow> string \<Rightarrow> time \<Rightarrow> sandbox_error option \<times> 'g Store" where
  "releaseAllocationLocked G s allocationID now =
     (case allocations s allocationID of
        None \<Rightarrow> (Some ErrAllocationNotFound, s)
      | Some al \<Rightarrow>
          if a_Status al = AllocationReleased then (None, s)
          else
            let key = quotaKey (a_TenantID al) (a_OwnerID al);
                released = (allocations s)(allocationID \<mapsto> al\<lparr>a_Status := AllocationReleased\<rparr>)
            in case gov s of
                 Some g \<Rightarrow>
                   (case ReleaseAllocation G g (a_TenantID al) (a_OwnerID al) allocationID now of
                      (Some err, g') \<Rightarrow> (Some (mapGovError err), s\<lparr>gov := Some g'\<rparr>)
                    | (None, g') \<Rightarrow>
                        (None, s\<lparr>gov := Some g', allocations := released,
                                 quotas := (case quotas s key of
                                              None \<Rightarrow> quotas s
                                            | Some q \<Rightarrow>
                                                if 0 < q_CurrentCount q
                                                then (quotas s)(key \<mapsto> q\<lparr>q_CurrentCount := q_CurrentCount q - 1\<rparr>)
                                                else quotas s)\<rparr>))
               | None \<Rightarrow>
                   (case quotas s key of
                      None \<Rightarrow> (Some ErrQuotaCorrupt, s)
                    | Some q \<Rightarrow>
                        if q_CurrentCount q \<le> 0 then (Some ErrQuotaCorrupt, s)
                        else (None, s\<lparr>allocations := released,
                                      quotas := (quotas s)(key \<mapsto> q\<lparr>q_CurrentCount := q_CurrentCount q - 1\<rparr>)\<rparr>)))"

definition Drain ::
  "'g GovernanceStore \<Rightarrow> 'g Store \<Rightarrow> string \<Rightarrow> time \<Rightarrow> time \<Rightarrow> (sandbox_error, Sandbox) result \<times> 'g Store" where
  \<comment> \<open>the two times are the two readings of the clock\<close>
  "Drain G s sid now now' =
     (case sandboxes s sid of
        None \<Rightarrow> (Inl ErrNotFound, s)
      | Some sb \<Rightarrow>
          if sb_Phase sb = PhaseDraining then (Inr (cloneSandbox sb), s)
          else if sb_Phase sb \<noteq> PhaseReady \<and> sb_Phase sb \<noteq> PhaseProvisioning
          then (Inl ErrInvalidTransition, s)
          else (case releaseAllocationLocked G s (sb_AllocationID sb) now of
                  (Some err, s) \<Rightarrow> (Inl err, s)
                | (None, s) \<Rightarrow>
                    let sb = sb\<lparr>sb_Phase := PhaseDraining, sb_UpdatedAt := now'\<rparr>
                    in (Inr (cloneSandbox sb), s\<lparr>sandboxes := (sandboxes s)(sid \<mapsto> sb)\<rparr>)))"

definition CompleteDeletion ::
  "'g Store \<Rightarrow> string \<Rightarrow> time \<Rightarrow> (sandbox_error, Sandbox) result \<times> 'g Store" where
  "CompleteDeletion s sid now =
     (case sandboxes s sid of
        None \<Rightarrow> (Inl ErrNotFound, s)
      | Some sb \<Rightarrow>
          if sb_Phase sb \<noteq> PhaseDraining \<and> sb_Phase sb \<noteq> PhaseFailed then (Inl ErrInvalidTransition, s)
          else
            let sb = sb\<lparr>sb_Phase := PhaseDeleted, sb_UpdatedAt := now\<rparr>
            in (Inr (cloneSandbox sb), s\<lparr>sandboxes := (sandboxes s)(sid \<mapsto> sb)\<rparr>))"

end
