(* ===== verification/Sandbox_Invariant.thy ===== *)
theory Sandbox_Invariant
  imports Sandbox_Store
begin

text \<open>
  The invariants of the sandbox store and their preservation by every method:
  identities and cross references of the maps, the agreement of the quota counts with
  the reserved allocations, and, for a store behind a governance boundary, the
  agreement of the boundary's counts and ledger with the store.
\<close>

section \<open>Helpers of the store\<close>

lemma cloneMap_id [simp]: "cloneMap m = m"
  by (cases m) (simp_all add: cloneMap_def fmap_copy)

lemma cloneSandbox_id [simp]: "cloneSandbox sb = sb"
  by (simp add: cloneSandbox_def)

lemma quotaKey_nul_key: "quotaKey = nul_key"
  by (simp add: fun_eq_iff quotaKey_def nul_key_def)

lemma sandboxName_inject [simp]: "sandboxName m = sandboxName n \<longleftrightarrow> m = n"
  by (simp add: sandboxName_def pad08_inject flip: word_unat_eq_iff)

lemma allocationName_inject [simp]: "allocationName m = allocationName n \<longleftrightarrow> m = n"
  by (simp add: allocationName_def pad08_inject flip: word_unat_eq_iff)

lemma withDefaults_TenantID [simp]: "r_TenantID (withDefaults req) = r_TenantID req"
  by (simp add: withDefaults_def Let_def)

lemma withDefaults_Template [simp]: "r_Template (withDefaults req) = r_Template req"
  by (simp add: withDefaults_def Let_def)

lemma seq_less_Suc: "n \<noteq> - 1 \<Longrightarrow> n < n + (1 :: 64 word)"
proof -
  assume "n \<noteq> - 1"
  then have "n + 1 \<noteq> 0" by (metis max_word_wrap)
  then have "unat (n + 1) = Suc (unat n)" by (simp add: unatSuc add.commute)
  then show ?thesis by (simp add: word_less_nat_alt)
qed

section \<open>The branches of Create\<close>

abbreviation idem_key :: "CreateRequest \<Rightarrow> string \<Rightarrow> string" where
  "idem_key req k \<equiv> r_TenantID req @ NUL # k"

definition valid_create :: "string \<Rightarrow> string \<Rightarrow> CreateRequest \<Rightarrow> bool" where
  "valid_create w k req \<longleftrightarrow> w \<noteq> [] \<and> k \<noteq> [] \<and> r_TenantID req \<noteq> [] \<and> r_Template req \<noteq> []"

definition new_record :: "string \<Rightarrow> string \<Rightarrow> CreateRequest \<Rightarrow> time \<Rightarrow> IdempotencyRecord" where
  "new_record w k req now =
     \<lparr>i_TenantID = r_TenantID req, i_OwnerID = w, i_Key = k, i_RequestHash = requestHash (withDefaults req),
      i_Status = IdempotencyPending, i_ResourceID = [], i_LeaseVersion = 1,
      i_ExpiresAt = Add now (seconds (wrap64 (r_TTLSeconds (withDefaults req) + 7200)))\<rparr>"

definition new_alloc :: "64 word \<Rightarrow> string \<Rightarrow> CreateRequest \<Rightarrow> Allocation" where
  "new_alloc n w req =
     \<lparr>a_ID = allocationName n, a_TenantID = r_TenantID req, a_OwnerID = w,
      a_SandboxID = sandboxName n, a_Status = AllocationReserved\<rparr>"

definition new_sandbox :: "64 word \<Rightarrow> string \<Rightarrow> string \<Rightarrow> CreateRequest \<Rightarrow> time \<Rightarrow> Sandbox" where
  "new_sandbox n w k req now =
     \<lparr>sb_ID = sandboxName n, sb_TenantID = r_TenantID req, sb_OwnerID = w,
      sb_Template = r_Template req, sb_RuntimeClass = r_RuntimeClass (withDefaults req),
      sb_Resources = r_Resources (withDefaults req), sb_Phase = PhaseReady,
      sb_AllocationID = allocationName n, sb_IdempotencyKey = k,
      sb_ExpiresAt = Add now (seconds (r_TTLSeconds (withDefaults req))),
      sb_CreatedAt = now, sb_UpdatedAt = now\<rparr>"

definition begin_create :: "'g Store \<Rightarrow> string \<Rightarrow> string \<Rightarrow> CreateRequest \<Rightarrow> time \<Rightarrow> 'g Store" where
  "begin_create s w k req now =
     s\<lparr>sequence := sequence s + 1,
       idempotency := (idempotency s)(idem_key req k \<mapsto> new_record w k req now)\<rparr>"

definition commit_create ::
  "'g Store \<Rightarrow> 64 word \<Rightarrow> string \<Rightarrow> string \<Rightarrow> CreateRequest \<Rightarrow> time \<Rightarrow> 'g Store" where
  "commit_create s n w k req now =
     s\<lparr>allocations := (allocations s)(allocationName n \<mapsto> new_alloc n w req),
       sandboxes := (sandboxes s)(sandboxName n \<mapsto> new_sandbox n w k req now),
       idempotency := (idempotency s)(idem_key req k \<mapsto>
         (new_record w k req now)\<lparr>i_Status := IdempotencySucceeded, i_ResourceID := sandboxName n\<rparr>)\<rparr>"

abbreviation slot where
  "slot G s w k req now \<equiv>
     reserveSlot G (begin_create s w k req now) (r_TenantID req) w (idem_key req k)
       (allocationName (sequence s + 1)) (sandboxName (sequence s + 1)) now"

lemma Create_invalid [branch]: "\<not> valid_create w k req \<Longrightarrow> Create G s w k req now = (Inl ErrInvalidRequest, s)"
  by (auto simp: Create_def valid_create_def)

lemma Create_prior [branch]:
  assumes "valid_create w k req" and "idempotency s (idem_key req k) = Some prior"
  shows "Create G s w k req now =
     (if i_RequestHash prior \<noteq> requestHash (withDefaults req) \<or> i_OwnerID prior \<noteq> w
      then (Inl ErrIdempotencyConflict, s)
      else (case i_Status prior of
              IdempotencyPending \<Rightarrow> (Inl ErrIdempotencyPending, s)
            | IdempotencySucceeded \<Rightarrow>
                (case sandboxes s (i_ResourceID prior) of
                   Some sb \<Rightarrow> (Inr sb, s) | None \<Rightarrow> (Inl ErrResourceGone, s))
            | IdempotencyFailed \<Rightarrow> (Inl ErrIdempotencyFailed, s)))"
  using assms by (simp add: Create_def valid_create_def Let_def cong: IdempotencyStatus.case_cong option.case_cong)

lemma Create_fresh [branch]:
  assumes "valid_create w k req" and "idempotency s (idem_key req k) = None"
  shows "Create G s w k req now =
     (case slot G s w k req now of
        (Some err, s') \<Rightarrow> (Inl err, s')
      | (None, s') \<Rightarrow>
          (Inr (new_sandbox (sequence s + 1) w k req now),
           commit_create s' (sequence s + 1) w k req now))"
  using assms
  by (simp add: Create_def valid_create_def Let_def begin_create_def new_record_def new_alloc_def
      new_sandbox_def commit_create_def cong: prod.case_cong option.case_cong)

lemma Create_prior_same: 
  assumes "idempotency s (idem_key req k) = Some prior"
  shows "snd (Create G s w k req now) = s"
proof (cases "valid_create w k req")
  case True
  with assms show ?thesis
    by (simp add: Create_prior split: IdempotencyStatus.split option.split)
qed (simp add: Create_invalid)

text \<open>What reserving a slot does to the store, on success and on failure.\<close>

lemma reserveSlot_None:
  assumes "reserveSlot G s t w ik a sb now = (None, s')"
  shows "\<exists>g q. s' = s\<lparr>gov := g, quotas := (quotas s)(quotaKey t w \<mapsto> q)\<rparr> \<and>
           q_CurrentCount q = (case quotas s (quotaKey t w) of None \<Rightarrow> 0 | Some q \<Rightarrow> q_CurrentCount q) + 1 \<and>
           q_ConcurrentLimit q = (case quotas s (quotaKey t w) of None \<Rightarrow> 0 | Some q \<Rightarrow> q_ConcurrentLimit q) \<and>
           (gov s = None \<longrightarrow> g = None \<and> quotas s (quotaKey t w) \<noteq> None \<and> q_CurrentCount q \<le> q_ConcurrentLimit q) \<and>
           (\<forall>g0. gov s = Some g0 \<longrightarrow>
              (\<exists>g'. g = Some g' \<and> ReserveAllocation G g0 t w a sb now = (None, g')))"
proof (cases "gov s")
  case None
  with assms obtain q0 where q0: "quotas s (quotaKey t w) = Some q0"
    and lt: "q_CurrentCount q0 < q_ConcurrentLimit q0"
    and s': "s' = s\<lparr>quotas := (quotas s)(quotaKey t w \<mapsto> q0\<lparr>q_CurrentCount := q_CurrentCount q0 + 1\<rparr>)\<rparr>"
    by (auto simp: reserveSlot_def Let_def split: option.splits if_splits)
  show ?thesis
    by (rule exI [of _ None], rule exI [of _ "q0\<lparr>q_CurrentCount := q_CurrentCount q0 + 1\<rparr>"])
      (use None q0 lt in \<open>simp add: s'\<close>)
next
  case (Some g0)
  with assms obtain g' where r: "ReserveAllocation G g0 t w a sb now = (None, g')"
    by (auto simp: reserveSlot_def Let_def split: option.splits prod.splits)
  define proj where "proj = (case quotas s (quotaKey t w) of
      None \<Rightarrow> \<lparr>q_TenantID = t, q_OwnerID = w, q_ConcurrentLimit = 0, q_CurrentCount = 0\<rparr> | Some p \<Rightarrow> p)"
  from Some r assms have s': "s' = s\<lparr>gov := Some g',
      quotas := (quotas s)(quotaKey t w \<mapsto> proj\<lparr>q_CurrentCount := q_CurrentCount proj + 1\<rparr>)\<rparr>"
    by (simp add: reserveSlot_def Let_def proj_def)
  show ?thesis
    by (rule exI [of _ "Some g'"], rule exI [of _ "proj\<lparr>q_CurrentCount := q_CurrentCount proj + 1\<rparr>"])
      (use Some r in \<open>simp add: s' proj_def split: option.split\<close>)
qed

lemma reserveSlot_Some:
  assumes "reserveSlot G s t w ik a sb now = (Some e, s')"
  shows "(gov s = None \<and> s' = s \<and>
            (e = ErrQuotaNotConfigured \<and> quotas s (quotaKey t w) = None \<or>
             (\<exists>q. e = ErrQuotaExceeded \<and> quotas s (quotaKey t w) = Some q \<and> q_ConcurrentLimit q \<le> q_CurrentCount q))) \<or>
         (\<exists>g g' err. gov s = Some g \<and> ReserveAllocation G g t w a sb now = (Some err, g') \<and>
            e = mapGovError err \<and> s' = s\<lparr>gov := Some g', idempotency := (idempotency s)(ik := None)\<rparr>)"
  using assms by (auto simp: reserveSlot_def Let_def split: option.splits if_splits prod.splits)

section \<open>Well-formed stores\<close>

definition alloc_entry_ok :: "'g Store \<Rightarrow> string \<Rightarrow> Allocation \<Rightarrow> bool" where
  "alloc_entry_ok s a al \<longleftrightarrow>
     (\<exists>n sb. 0 < n \<and> n \<le> sequence s \<and> a = allocationName n \<and> a_SandboxID al = sandboxName n \<and>
        sandboxes s (sandboxName n) = Some sb \<and>
        sb_TenantID sb = a_TenantID al \<and> sb_OwnerID sb = a_OwnerID al \<and>
        (a_Status al = AllocationReserved \<longleftrightarrow> sb_Phase sb = PhaseReady))"

definition sandbox_entry_ok :: "'g Store \<Rightarrow> string \<Rightarrow> Sandbox \<Rightarrow> bool" where
  "sandbox_entry_ok s i sb \<longleftrightarrow>
     (\<exists>n. 0 < n \<and> n \<le> sequence s \<and> i = sandboxName n \<and> sb_ID sb = i \<and>
        sb_AllocationID sb = allocationName n \<and> allocations s (allocationName n) \<noteq> None \<and>
        sb_Phase sb \<in> {PhaseReady, PhaseDraining, PhaseDeleted})"

definition idem_entry_ok :: "'g Store \<Rightarrow> string \<Rightarrow> IdempotencyRecord \<Rightarrow> bool" where
  "idem_entry_ok s k r \<longleftrightarrow>
     k = i_TenantID r @ NUL # i_Key r \<and>
     i_Status r \<noteq> IdempotencyFailed \<and>
     (i_Status r = IdempotencyPending \<longrightarrow> gov s = None) \<and>
     (i_Status r = IdempotencySucceeded \<longrightarrow>
        (\<exists>sb. sandboxes s (i_ResourceID r) = Some sb \<and>
           sb_TenantID sb = i_TenantID r \<and> sb_OwnerID sb = i_OwnerID r \<and> sb_IdempotencyKey sb = i_Key r))"

definition store_wf :: "'g Store \<Rightarrow> bool" where
  "store_wf s \<longleftrightarrow>
     finite (dom (allocations s)) \<and>
     (\<forall>a al. allocations s a = Some al \<longrightarrow> alloc_entry_ok s a al) \<and>
     (\<forall>i sb. sandboxes s i = Some sb \<longrightarrow> sandbox_entry_ok s i sb) \<and>
     (\<forall>k r. idempotency s k = Some r \<longrightarrow> idem_entry_ok s k r)"

lemmas entry_defs = alloc_entry_ok_def sandbox_entry_ok_def idem_entry_ok_def

lemma wf_finite: "store_wf s \<Longrightarrow> finite (dom (allocations s))"
  by (simp add: store_wf_def)

lemma wf_alloc: "store_wf s \<Longrightarrow> allocations s a = Some al \<Longrightarrow> alloc_entry_ok s a al"
  by (simp add: store_wf_def)

lemma wf_sandbox: "store_wf s \<Longrightarrow> sandboxes s i = Some sb \<Longrightarrow> sandbox_entry_ok s i sb"
  by (simp add: store_wf_def)

lemma wf_idem: "store_wf s \<Longrightarrow> idempotency s k = Some r \<Longrightarrow> idem_entry_ok s k r"
  by (simp add: store_wf_def)

lemma fresh_names:
  assumes "store_wf s" and "sequence s \<noteq> - 1"
  shows "sandboxes s (sandboxName (sequence s + 1)) = None"
    and "allocations s (allocationName (sequence s + 1)) = None"
proof -
  have lt: "sequence s < sequence s + 1" using assms(2) by (rule seq_less_Suc)
  have no: "n \<noteq> sequence s + 1" if "n \<le> sequence s" for n using that lt by auto
  show "sandboxes s (sandboxName (sequence s + 1)) = None"
  proof (rule ccontr)
    assume "sandboxes s (sandboxName (sequence s + 1)) \<noteq> None"
    then obtain sb where "sandboxes s (sandboxName (sequence s + 1)) = Some sb" by blast
    with wf_sandbox [OF assms(1) this] no show False by (auto simp: sandbox_entry_ok_def)
  qed
  show "allocations s (allocationName (sequence s + 1)) = None"
  proof (rule ccontr)
    assume "allocations s (allocationName (sequence s + 1)) \<noteq> None"
    then obtain al where "allocations s (allocationName (sequence s + 1)) = Some al" by blast
    with wf_alloc [OF assms(1) this] no show False by (auto simp: alloc_entry_ok_def)
  qed
qed

text \<open>A sandbox in a live phase and its allocation.\<close>

lemma wf_sandbox_alloc:
  assumes "store_wf s" and "sandboxes s i = Some sb"
  obtains al where "allocations s (sb_AllocationID sb) = Some al" and "a_SandboxID al = i"
    and "a_TenantID al = sb_TenantID sb" and "a_OwnerID al = sb_OwnerID sb"
    and "a_Status al = AllocationReserved \<longleftrightarrow> sb_Phase sb = PhaseReady"
proof -
  from wf_sandbox [OF assms] obtain n al where n: "i = sandboxName n" "sb_AllocationID sb = allocationName n"
    and al: "allocations s (allocationName n) = Some al" by (auto simp: sandbox_entry_ok_def)
  from wf_alloc [OF assms(1) al] n assms(2) have "a_SandboxID al = i" "a_TenantID al = sb_TenantID sb"
    "a_OwnerID al = sb_OwnerID sb" "a_Status al = AllocationReserved \<longleftrightarrow> sb_Phase sb = PhaseReady"
    by (auto simp: alloc_entry_ok_def)
  with al n that show thesis by auto
qed

lemma wf_alloc_of_name:
  assumes "store_wf s" and "sandboxes s i = Some sb" and "sandboxes s j = Some sb'"
    and "sb_AllocationID sb = sb_AllocationID sb'"
  shows "i = j"
  using wf_sandbox [OF assms(1,2)] wf_sandbox [OF assms(1,3)] assms(4)
  by (auto simp: sandbox_entry_ok_def)

section \<open>Changes of the store that keep it well formed\<close>

lemma wf_NewStore: "store_wf NewStore"
  by (simp add: store_wf_def NewStore_def)

lemma entry_frame [frame]:
  "alloc_entry_ok (s\<lparr>idempotency := x\<rparr>) a al = alloc_entry_ok s a al"
  "alloc_entry_ok (s\<lparr>gov := g\<rparr>) a al = alloc_entry_ok s a al"
  "alloc_entry_ok (s\<lparr>quotas := q\<rparr>) a al = alloc_entry_ok s a al"
  "sandbox_entry_ok (s\<lparr>idempotency := x\<rparr>) i sb = sandbox_entry_ok s i sb"
  "sandbox_entry_ok (s\<lparr>gov := g\<rparr>) i sb = sandbox_entry_ok s i sb"
  "sandbox_entry_ok (s\<lparr>quotas := q\<rparr>) i sb = sandbox_entry_ok s i sb"
  "idem_entry_ok (s\<lparr>idempotency := x\<rparr>) k r = idem_entry_ok s k r"
  "idem_entry_ok (s\<lparr>sequence := n\<rparr>) k r = idem_entry_ok s k r"
  "idem_entry_ok (s\<lparr>quotas := q\<rparr>) k r = idem_entry_ok s k r"
  "g = None \<longleftrightarrow> gov s = None \<Longrightarrow> idem_entry_ok (s\<lparr>gov := g\<rparr>) k r = idem_entry_ok s k r"
  by (simp_all add: entry_defs)

lemma wf_gov:
  assumes "store_wf s" and "g = None \<longleftrightarrow> gov s = None"
  shows "store_wf (s\<lparr>gov := g\<rparr>)"
  using assms by (simp add: store_wf_def frame)

lemma wf_quotas: "store_wf s \<Longrightarrow> store_wf (s\<lparr>quotas := q\<rparr>)"
  by (simp add: store_wf_def frame)

text \<open>A failed creation: the sequence grows, and a pending record may stay (no boundary).\<close>

lemma wf_grow:
  assumes "store_wf s" and "sequence s \<noteq> - 1"
  shows "store_wf (s\<lparr>sequence := sequence s + 1\<rparr>)"
proof -
  have le: "n \<le> sequence s + 1" if "n \<le> sequence s" for n
    using seq_less_Suc [OF assms(2)] that by (meson less_imp_le order_trans)
  have "alloc_entry_ok (s\<lparr>sequence := sequence s + 1\<rparr>) a al" if "alloc_entry_ok s a al" for a al
    using that le by (fastforce simp: alloc_entry_ok_def)
  moreover have "sandbox_entry_ok (s\<lparr>sequence := sequence s + 1\<rparr>) i sb" if "sandbox_entry_ok s i sb" for i sb
    using that le by (fastforce simp: sandbox_entry_ok_def)
  ultimately show ?thesis using assms(1) by (simp add: store_wf_def frame)
qed

lemma wf_pending:
  assumes "store_wf s" and "gov s = None" and "k = i_TenantID r @ NUL # i_Key r"
    and "i_Status r = IdempotencyPending"
  shows "store_wf (s\<lparr>idempotency := (idempotency s)(k \<mapsto> r)\<rparr>)"
proof -
  have "idem_entry_ok s k r" using assms by (simp add: idem_entry_ok_def)
  with assms(1) show ?thesis by (auto simp: store_wf_def frame)
qed

lemma wf_commit:
  assumes wf: "store_wf s" and n: "sequence s = n" "0 < n"
    and free: "sandboxes s (sandboxName n) = None" "allocations s (allocationName n) = None"
  shows "store_wf (commit_create s n w k req now)"
proof -
  let ?s = "commit_create s n w k req now"
  have "finite (dom (allocations ?s))" using wf by (simp add: commit_create_def wf_finite)
  moreover have "alloc_entry_ok ?s a al" if "allocations ?s a = Some al" for a al
  proof (cases "a = allocationName n")
    case True
    with that n show ?thesis
      by (auto simp: commit_create_def alloc_entry_ok_def new_alloc_def new_sandbox_def)
  next
    case False
    with that have "allocations s a = Some al" by (simp add: commit_create_def)
    from wf_alloc [OF wf this] False show ?thesis
      by (auto simp: commit_create_def alloc_entry_ok_def)
  qed
  moreover have "sandbox_entry_ok ?s i sb" if "sandboxes ?s i = Some sb" for i sb
  proof (cases "i = sandboxName n")
    case True
    with that n show ?thesis
      by (auto simp: commit_create_def sandbox_entry_ok_def new_sandbox_def)
  next
    case False
    with that have "sandboxes s i = Some sb" by (simp add: commit_create_def)
    from wf_sandbox [OF wf this] show ?thesis
      by (auto simp: commit_create_def sandbox_entry_ok_def)
  qed
  moreover have "idem_entry_ok ?s j r" if "idempotency ?s j = Some r" for j r
  proof (cases "j = idem_key req k")
    case True
    with that show ?thesis
      by (auto simp: commit_create_def idem_entry_ok_def new_record_def new_sandbox_def)
  next
    case False
    with that have "idempotency s j = Some r" by (simp add: commit_create_def)
    from wf_idem [OF wf this] free(1) show ?thesis
      by (auto simp: commit_create_def idem_entry_ok_def)
  qed
  ultimately show ?thesis by (simp add: store_wf_def)
qed

text \<open>Draining: the allocation is released and the phase leaves \<open>Ready\<close> in one step.\<close>

lemma wf_drain:
  assumes wf: "store_wf s" and sb: "sandboxes s i = Some sb"
    and al: "allocations s (sb_AllocationID sb) = Some al"
  shows "store_wf (s\<lparr>allocations := (allocations s)(sb_AllocationID sb \<mapsto> al\<lparr>a_Status := AllocationReleased\<rparr>),
                     sandboxes := (sandboxes s)(i \<mapsto> sb\<lparr>sb_Phase := PhaseDraining, sb_UpdatedAt := now\<rparr>)\<rparr>)"
    (is "store_wf ?s")
proof -
  from wf_sandbox [OF wf sb] obtain m where m: "0 < m" "m \<le> sequence s" "i = sandboxName m" "sb_ID sb = i"
    "sb_AllocationID sb = allocationName m" by (auto simp: sandbox_entry_ok_def)
  have "finite (dom (allocations ?s))" using wf by (simp add: wf_finite)
  moreover have "alloc_entry_ok ?s a al'" if "allocations ?s a = Some al'" for a al'
  proof (cases "a = allocationName m")
    case True
    with that al m wf_alloc [OF wf al] sb show ?thesis by (auto simp: alloc_entry_ok_def)
  next
    case False
    with that m have "allocations s a = Some al'" by simp
    from wf_alloc [OF wf this] False m show ?thesis by (auto simp: alloc_entry_ok_def)
  qed
  moreover have "sandbox_entry_ok ?s j sb'" if "sandboxes ?s j = Some sb'" for j sb'
  proof (cases "j = i")
    case True
    with that m show ?thesis by (auto simp: sandbox_entry_ok_def)
  next
    case False
    with that have "sandboxes s j = Some sb'" by simp
    from wf_sandbox [OF wf this] show ?thesis by (auto simp: sandbox_entry_ok_def)
  qed
  moreover have "idem_entry_ok ?s k r" if "idempotency ?s k = Some r" for k r
    using wf_idem [OF wf, of k r] that sb
    by (auto simp: idem_entry_ok_def)
  ultimately show ?thesis by (simp add: store_wf_def)
qed

lemma wf_phase_deleted:
  assumes wf: "store_wf s" and sb: "sandboxes s i = Some sb" and ph: "sb_Phase sb \<noteq> PhaseReady"
  shows "store_wf (s\<lparr>sandboxes := (sandboxes s)(i \<mapsto> sb\<lparr>sb_Phase := PhaseDeleted, sb_UpdatedAt := now\<rparr>)\<rparr>)"
    (is "store_wf ?s")
proof -
  have "alloc_entry_ok ?s a al" if "allocations s a = Some al" for a al
    using wf_alloc [OF wf that] sb ph by (auto simp: alloc_entry_ok_def)
  moreover have "sandbox_entry_ok ?s j sb'" if "sandboxes ?s j = Some sb'" for j sb'
    using wf_sandbox [OF wf sb] wf_sandbox [OF wf, of j sb'] that
    by (cases "j = i") (auto simp: sandbox_entry_ok_def)
  moreover have "idem_entry_ok ?s k r" if "idempotency s k = Some r" for k r
    using wf_idem [OF wf that] sb by (auto simp: idem_entry_ok_def)
  ultimately show ?thesis using wf_finite [OF wf] by (simp add: store_wf_def)
qed

section \<open>The effect of each method\<close>

text \<open>The count and the limit of a local quota row, zero where there is no row.\<close>

definition row_count :: "'g Store \<Rightarrow> string \<Rightarrow> int" where
  "row_count s k = (case quotas s k of None \<Rightarrow> 0 | Some q \<Rightarrow> q_CurrentCount q)"

definition row_limit :: "'g Store \<Rightarrow> string \<Rightarrow> int" where
  "row_limit s k = (case quotas s k of None \<Rightarrow> 0 | Some q \<Rightarrow> q_ConcurrentLimit q)"

definition created ::
  "'g Store \<Rightarrow> string \<Rightarrow> string \<Rightarrow> CreateRequest \<Rightarrow> time \<Rightarrow> 'g option \<Rightarrow> Quota \<Rightarrow> 'g Store" where
  "created s w k req now g q =
     commit_create ((begin_create s w k req now)\<lparr>gov := g, quotas := (quotas s)(quotaKey (r_TenantID req) w \<mapsto> q)\<rparr>)
       (sequence s + 1) w k req now"

lemma Create_effect:
  assumes "Create G s w k req now = (res, s')"
  obtains (same) "s' = s"
      and "\<And>sb. res = Inr sb \<Longrightarrow> \<exists>r. idempotency s (idem_key req k) = Some r \<and>
             i_Status r = IdempotencySucceeded \<and> sandboxes s (i_ResourceID r) = Some sb"
  | (refused) "gov s = None" and "s' = begin_create s w k req now"
      and "idempotency s (idem_key req k) = None" and "res = Inl ErrQuotaNotConfigured \<or> res = Inl ErrQuotaExceeded"
  | (failed) g g' err where "gov s = Some g" and "idempotency s (idem_key req k) = None"
      and "ReserveAllocation G g (r_TenantID req) w (allocationName (sequence s + 1))
             (sandboxName (sequence s + 1)) now = (Some err, g')"
      and "res = Inl (mapGovError err)" and "s' = s\<lparr>sequence := sequence s + 1, gov := Some g'\<rparr>"
  | (ok) g q where "valid_create w k req" and "idempotency s (idem_key req k) = None"
      and "res = Inr (new_sandbox (sequence s + 1) w k req now)" and "s' = created s w k req now g q"
      and "q_CurrentCount q = row_count s (quotaKey (r_TenantID req) w) + 1"
      and "q_ConcurrentLimit q = row_limit s (quotaKey (r_TenantID req) w)"
      and "gov s = None \<Longrightarrow> g = None \<and> q_CurrentCount q \<le> q_ConcurrentLimit q"
      and "\<And>g0. gov s = Some g0 \<Longrightarrow> \<exists>g'. g = Some g' \<and>
             ReserveAllocation G g0 (r_TenantID req) w (allocationName (sequence s + 1))
               (sandboxName (sequence s + 1)) now = (None, g')"
proof (cases "valid_create w k req \<and> idempotency s (idem_key req k) = None")
  case False
  then show thesis
  proof (cases "valid_create w k req")
    case True
    with False obtain prior where p: "idempotency s (idem_key req k) = Some prior" by auto
    with assms True show thesis
      by (intro same) (auto simp: Create_prior split: IdempotencyStatus.splits option.splits if_splits)
  qed (use assms in \<open>auto simp: Create_invalid intro: same\<close>)
next
  case True
  let ?b = "begin_create s w k req now"
  obtain oe t where sl: "slot G s w k req now = (oe, t)" by fastforce
  show thesis
  proof (cases oe)
    case (Some e)
    with True sl assms have r: "res = Inl e" "s' = t" by (auto simp: Create_fresh)
    from reserveSlot_Some [OF sl [unfolded Some]] show thesis
    proof (elim disjE exE conjE)
      fix g g' err
      assume g: "gov ?b = Some g" and res: "ReserveAllocation G g (r_TenantID req) w (allocationName (sequence s + 1))
            (sandboxName (sequence s + 1)) now = (Some err, g')"
        and e: "e = mapGovError err"
        and t: "t = ?b\<lparr>gov := Some g', idempotency := (idempotency ?b)(idem_key req k := None)\<rparr>"
      from True have "(idempotency s)(idem_key req k := None) = idempotency s" by (simp add: fun_upd_idem)
      with t r(2) have "s' = s\<lparr>sequence := sequence s + 1, gov := Some g'\<rparr>"
        by (simp add: begin_create_def)
      with g res e r(1) True show thesis by (intro failed [of g err g']) (simp_all add: begin_create_def)
    qed (use True r in \<open>auto simp: begin_create_def intro: refused\<close>)
  next
    case None
    with True sl assms have r: "res = Inr (new_sandbox (sequence s + 1) w k req now)"
      "s' = commit_create t (sequence s + 1) w k req now" by (auto simp: Create_fresh)
    from reserveSlot_None [OF sl [unfolded None]] show thesis
    proof (elim exE conjE)
      fix g q
      assume "t = ?b\<lparr>gov := g, quotas := (quotas ?b)(quotaKey (r_TenantID req) w \<mapsto> q)\<rparr>"
        and "q_CurrentCount q = (case quotas ?b (quotaKey (r_TenantID req) w) of None \<Rightarrow> 0 | Some q \<Rightarrow> q_CurrentCount q) + 1"
        and "q_ConcurrentLimit q = (case quotas ?b (quotaKey (r_TenantID req) w) of None \<Rightarrow> 0 | Some q \<Rightarrow> q_ConcurrentLimit q)"
        and "gov ?b = None \<longrightarrow> g = None \<and> quotas ?b (quotaKey (r_TenantID req) w) \<noteq> None \<and> q_CurrentCount q \<le> q_ConcurrentLimit q"
        and "\<forall>g0. gov ?b = Some g0 \<longrightarrow> (\<exists>g'. g = Some g' \<and>
             ReserveAllocation G g0 (r_TenantID req) w (allocationName (sequence s + 1))
               (sandboxName (sequence s + 1)) now = (None, g'))"
      with True r show thesis
        by (intro ok [of g q]) (simp_all add: created_def begin_create_def row_count_def row_limit_def)
    qed
  qed
qed

lemma created_fields [simp]:
  "sequence (created s w k req now g q) = sequence s + 1"
  "allocations (created s w k req now g q) = (allocations s)(allocationName (sequence s + 1) \<mapsto> new_alloc (sequence s + 1) w req)"
  "sandboxes (created s w k req now g q) = (sandboxes s)(sandboxName (sequence s + 1) \<mapsto> new_sandbox (sequence s + 1) w k req now)"
  "quotas (created s w k req now g q) = (quotas s)(quotaKey (r_TenantID req) w \<mapsto> q)"
  "gov (created s w k req now g q) = g"
  "idempotency (created s w k req now g q) = (idempotency s)(idem_key req k \<mapsto>
     (new_record w k req now)\<lparr>i_Status := IdempotencySucceeded, i_ResourceID := sandboxName (sequence s + 1)\<rparr>)"
  by (simp_all add: created_def commit_create_def begin_create_def)

lemma begin_create_fields [simp]:
  "sequence (begin_create s w k req now) = sequence s + 1"
  "allocations (begin_create s w k req now) = allocations s"
  "sandboxes (begin_create s w k req now) = sandboxes s"
  "quotas (begin_create s w k req now) = quotas s"
  "gov (begin_create s w k req now) = gov s"
  by (simp_all add: begin_create_def)

lemma wf_Create [preserves]:
  assumes wf: "store_wf s" and ne: "sequence s \<noteq> - 1"
  shows "store_wf (snd (Create G s w k req now))"
proof -
  obtain res s' where c: "Create G s w k req now = (res, s')" by fastforce
  let ?r = "new_record w k req now"
  let ?n = "sequence s + 1"
  have grow: "store_wf (s\<lparr>sequence := ?n\<rparr>)" using wf ne by (rule wf_grow)
  from c show ?thesis
  proof (cases rule: Create_effect)
    case same
    with wf c show ?thesis by simp
  next
    case refused
    have "store_wf ((s\<lparr>sequence := ?n\<rparr>)\<lparr>idempotency := (idempotency s)(idem_key req k \<mapsto> ?r)\<rparr>)"
      using wf_pending [OF grow, of "idem_key req k" ?r] refused(1) by (simp add: new_record_def)
    with c refused(2) show ?thesis by (simp add: begin_create_def)
  next
    case (failed g g' err)
    with c wf_gov [OF grow, of "Some g'"] show ?thesis by simp
  next
    case (ok g q)
    let ?t = "(s\<lparr>sequence := ?n\<rparr>)\<lparr>gov := g\<rparr>\<lparr>quotas := (quotas s)(quotaKey (r_TenantID req) w \<mapsto> q)\<rparr>"
    have g: "g = None \<longleftrightarrow> gov s = None" using ok(7,8) by (cases "gov s") auto
    then have t: "store_wf ?t" using grow by (intro wf_quotas wf_gov) simp_all
    have "store_wf (commit_create ?t ?n w k req now)"
      using fresh_names [OF wf ne] seq_less_Suc [OF ne]
      by (intro wf_commit [OF t]) (auto simp: word_gt_0)
    moreover have "commit_create ?t ?n w k req now = created s w k req now g q"
      by (simp add: created_def begin_create_def commit_create_def)
    ultimately show ?thesis using c ok(4) by simp
  qed
qed

text \<open>Releasing an allocation.\<close>

definition released :: "'g Store \<Rightarrow> string \<Rightarrow> Allocation \<Rightarrow> 'g option \<Rightarrow> 'g Store" where
  "released s a al g =
     s\<lparr>gov := g, allocations := (allocations s)(a \<mapsto> al\<lparr>a_Status := AllocationReleased\<rparr>),
       quotas := (let key = quotaKey (a_TenantID al) (a_OwnerID al) in
                  case quotas s key of
                    None \<Rightarrow> quotas s
                  | Some q \<Rightarrow> if 0 < q_CurrentCount q
                              then (quotas s)(key \<mapsto> q\<lparr>q_CurrentCount := q_CurrentCount q - 1\<rparr>) else quotas s)\<rparr>"

lemma release_effect:
  assumes "releaseAllocationLocked G s a now = (res, s')"
  obtains (missing) "allocations s a = None" and "res = Some ErrAllocationNotFound" and "s' = s"
  | (already) al where "allocations s a = Some al" and "a_Status al = AllocationReleased" and "res = None" and "s' = s"
  | (corrupt) al where "allocations s a = Some al" and "a_Status al = AllocationReserved" and "gov s = None"
      and "row_count s (quotaKey (a_TenantID al) (a_OwnerID al)) \<le> 0" and "res = Some ErrQuotaCorrupt" and "s' = s"
  | (failed) al g g' err where "allocations s a = Some al" and "a_Status al = AllocationReserved" and "gov s = Some g"
      and "ReleaseAllocation G g (a_TenantID al) (a_OwnerID al) a now = (Some err, g')"
      and "res = Some (mapGovError err)" and "s' = s\<lparr>gov := Some g'\<rparr>"
  | (ok) al g where "allocations s a = Some al" and "a_Status al = AllocationReserved" and "res = None"
      and "s' = released s a al g" 
      and "gov s = None \<Longrightarrow> g = None \<and> 0 < row_count s (quotaKey (a_TenantID al) (a_OwnerID al))"
      and "\<And>g0. gov s = Some g0 \<Longrightarrow> \<exists>g'. g = Some g' \<and>
             ReleaseAllocation G g0 (a_TenantID al) (a_OwnerID al) a now = (None, g')"
proof (cases "allocations s a")
  case None
  with assms show thesis by (intro missing) (auto simp: releaseAllocationLocked_def)
next
  case (Some al)
  let ?k = "quotaKey (a_TenantID al) (a_OwnerID al)"
  show thesis
  proof (cases "a_Status al")
    case AllocationReleased
    with Some assms show thesis by (intro already [of al]) (auto simp: releaseAllocationLocked_def)
  next
    case AllocationReserved
    show thesis
    proof (cases "gov s")
      case None
      show thesis
      proof (cases "0 < row_count s ?k")
        case True
        then obtain q where q: "quotas s ?k = Some q" "0 < q_CurrentCount q"
          by (auto simp: row_count_def split: option.splits)
        with Some AllocationReserved None assms True show thesis
          by (intro ok [of al None]) (auto simp: releaseAllocationLocked_def released_def Let_def)
      next
        case False
        with Some AllocationReserved None assms show thesis
          by (intro corrupt [of al])
            (auto simp: releaseAllocationLocked_def row_count_def Let_def split: option.splits)
      qed
    next
      case (Some g)
      obtain oe g' where r: "ReleaseAllocation G g (a_TenantID al) (a_OwnerID al) a now = (oe, g')" by fastforce
      show thesis
      proof (cases oe)
        case None
        with \<open>allocations s a = Some al\<close> AllocationReserved Some assms r show thesis
          by (intro ok [of al "Some g'"]) (auto simp: releaseAllocationLocked_def released_def Let_def)
      next
        case (Some e)
        with \<open>allocations s a = Some al\<close> AllocationReserved \<open>gov s = Some g\<close> assms r show thesis
          by (intro failed [of al g e g']) (auto simp: releaseAllocationLocked_def)
      qed
    qed
  qed
qed

lemma released_fields [simp]:
  "sequence (released s a al g) = sequence s"
  "sandboxes (released s a al g) = sandboxes s"
  "idempotency (released s a al g) = idempotency s"
  "gov (released s a al g) = g"
  "allocations (released s a al g) = (allocations s)(a \<mapsto> al\<lparr>a_Status := AllocationReleased\<rparr>)"
  by (simp_all add: released_def)

definition draining :: "Sandbox \<Rightarrow> time \<Rightarrow> Sandbox" where
  "draining sb now = sb\<lparr>sb_Phase := PhaseDraining, sb_UpdatedAt := now\<rparr>"

definition drained ::
  "'g Store \<Rightarrow> string \<Rightarrow> Sandbox \<Rightarrow> Allocation \<Rightarrow> 'g option \<Rightarrow> time \<Rightarrow> 'g Store" where
  "drained s i sb al g now =
     (released s (sb_AllocationID sb) al g)\<lparr>sandboxes := (sandboxes s)(i \<mapsto> draining sb now)\<rparr>"

text \<open>In a well-formed store \<open>Drain\<close> has four outcomes.\<close>

lemma Drain_effect:
  assumes wf: "store_wf s" and dr: "Drain G s i now now' = (res, s')"
  obtains (same) "s' = s" and "sandboxes s i = None \<and> res = Inl ErrNotFound \<or>
            (\<exists>sb. sandboxes s i = Some sb \<and>
               (sb_Phase sb = PhaseDeleted \<and> res = Inl ErrInvalidTransition \<or> sb_Phase sb = PhaseDraining \<and> res = Inr sb))"
  | (corrupt) sb where "sandboxes s i = Some sb" and "sb_Phase sb = PhaseReady" and "gov s = None"
      and "row_count s (quotaKey (sb_TenantID sb) (sb_OwnerID sb)) \<le> 0" and "res = Inl ErrQuotaCorrupt" and "s' = s"
  | (failed) sb g g' err where "sandboxes s i = Some sb" and "sb_Phase sb = PhaseReady" and "gov s = Some g"
      and "ReleaseAllocation G g (sb_TenantID sb) (sb_OwnerID sb) (sb_AllocationID sb) now = (Some err, g')"
      and "res = Inl (mapGovError err)" and "s' = s\<lparr>gov := Some g'\<rparr>"
  | (ok) sb al g where "sandboxes s i = Some sb" and "sb_Phase sb = PhaseReady"
      and "allocations s (sb_AllocationID sb) = Some al" and "a_Status al = AllocationReserved"
      and "a_TenantID al = sb_TenantID sb" and "a_OwnerID al = sb_OwnerID sb"
      and "res = Inr (draining sb now')" and "s' = drained s i sb al g now'"
      and "gov s = None \<Longrightarrow> g = None \<and> 0 < row_count s (quotaKey (sb_TenantID sb) (sb_OwnerID sb))"
      and "\<And>g0. gov s = Some g0 \<Longrightarrow> \<exists>g'. g = Some g' \<and>
             ReleaseAllocation G g0 (sb_TenantID sb) (sb_OwnerID sb) (sb_AllocationID sb) now = (None, g')"
proof (cases "sandboxes s i")
  case None
  with dr show thesis by (intro same) (auto simp: Drain_def)
next
  case (Some sb)
  show thesis
  proof (cases "sb_Phase sb = PhaseReady")
    case False
    with wf_sandbox [OF wf Some] Some dr show thesis
      by (intro same) (auto simp: Drain_def sandbox_entry_ok_def)
  next
    case True
    from wf_sandbox_alloc [OF wf Some] True obtain al
      where al: "allocations s (sb_AllocationID sb) = Some al" and own: "a_TenantID al = sb_TenantID sb"
        "a_OwnerID al = sb_OwnerID sb" and st: "a_Status al = AllocationReserved" by metis
    obtain oe t where rel: "releaseAllocationLocked G s (sb_AllocationID sb) now = (oe, t)" by fastforce
    from rel show thesis
    proof (cases rule: release_effect)
      case (corrupt al')
      with al own st Some True dr rel show thesis by (intro that(2) [of sb]) (simp_all add: Drain_def)
    next
      case (failed al' g g' err)
      with al own st Some True dr rel show thesis by (intro that(3) [of sb g err g']) (simp_all add: Drain_def)
    next
      case (ok al' g)
      with al own st Some True dr rel show thesis
        by (intro that(4) [of sb al g]) (simp_all add: Drain_def drained_def draining_def Let_def)
    qed (use al st in simp_all)
  qed
qed

lemma wf_Drain [preserves]:
  assumes wf: "store_wf s"
  shows "store_wf (snd (Drain G s i now now'))"
proof -
  obtain res s' where d: "Drain G s i now now' = (res, s')" by fastforce
  from wf d show ?thesis
  proof (cases rule: Drain_effect)
    case (failed sb g g' err)
    with d wf_gov [OF wf, of "Some g'"] show ?thesis by simp
  next
    case (ok sb al g)
    let ?t = "s\<lparr>allocations := (allocations s)(sb_AllocationID sb \<mapsto> al\<lparr>a_Status := AllocationReleased\<rparr>),
                sandboxes := (sandboxes s)(i \<mapsto> sb\<lparr>sb_Phase := PhaseDraining, sb_UpdatedAt := now'\<rparr>)\<rparr>"
    have g: "g = None \<longleftrightarrow> gov s = None" using ok(9,10) by (cases "gov s") auto
    have "store_wf ((?t\<lparr>gov := g\<rparr>)\<lparr>quotas := quotas s'\<rparr>)"
      using wf_drain [OF wf ok(1,3)] g by (intro wf_quotas wf_gov) simp_all
    moreover have "(?t\<lparr>gov := g\<rparr>)\<lparr>quotas := quotas s'\<rparr> = s'"
      by (simp add: ok(8) drained_def draining_def released_def)
    ultimately show ?thesis using d by simp
  qed (use wf d in simp_all)
qed

lemma CompleteDeletion_effect:
  assumes "CompleteDeletion s i now = (res, s')"
  obtains (same) e where "s' = s" and "res = Inl e"
  | (ok) sb where "sandboxes s i = Some sb" and "sb_Phase sb = PhaseDraining \<or> sb_Phase sb = PhaseFailed"
      and "res = Inr (sb\<lparr>sb_Phase := PhaseDeleted, sb_UpdatedAt := now\<rparr>)"
      and "s' = s\<lparr>sandboxes := (sandboxes s)(i \<mapsto> sb\<lparr>sb_Phase := PhaseDeleted, sb_UpdatedAt := now\<rparr>)\<rparr>"
  using assms by (auto simp: CompleteDeletion_def Let_def split: option.splits if_splits)

lemma wf_CompleteDeletion [preserves]:
  assumes wf: "store_wf s"
  shows "store_wf (snd (CompleteDeletion s i now))"
proof -
  obtain res s' where d: "CompleteDeletion s i now = (res, s')" by fastforce
  then show ?thesis
  proof (cases rule: CompleteDeletion_effect)
    case (ok sb)
    with d wf_phase_deleted [OF wf ok(1), of now] show ?thesis by auto
  qed (use wf d in simp)
qed

text \<open>\<open>SetQuota\<close> touches the quota rows and the boundary only, and no count.\<close>

lemma SetQuota_effect:
  obtains q g where "snd (Store_SetQuota G s t w l) = s\<lparr>gov := g, quotas := q\<rparr>"
    and "g = None \<longleftrightarrow> gov s = None"
    and "\<forall>k. (case q k of None \<Rightarrow> 0 | Some r \<Rightarrow> q_CurrentCount r) = row_count s k"
    and "\<forall>k r. gov s = None \<longrightarrow> q k = Some r \<longrightarrow> quotas s k = Some r \<or> q_CurrentCount r \<le> q_ConcurrentLimit r"
    and "\<forall>g0. gov s = Some g0 \<longrightarrow> g = Some g0 \<or> g = Some (snd (SetQuota G g0 t w l))"
proof (cases "gov s")
  case None
  then show thesis
    by (intro that [of "quotas (snd (Store_SetQuota G s t w l))" None])
      (auto simp: Store_SetQuota_def Let_def row_count_def split: option.splits if_splits)
next
  case (Some g0)
  obtain oe g' where r: "SetQuota G g0 t w l = (oe, g')" by fastforce
  with Some show thesis
    by (intro that [of "quotas (snd (Store_SetQuota G s t w l))" "gov (snd (Store_SetQuota G s t w l))"])
      (auto simp: Store_SetQuota_def Let_def row_count_def split: option.splits)
qed

lemma wf_SetQuota [preserves]: "store_wf s \<Longrightarrow> store_wf (snd (Store_SetQuota G s t w l))"
  by (rule SetQuota_effect [of G s t w l]) (metis wf_gov wf_quotas)

end
