(* ===== verification/Sandbox_Quota.thy ===== *)
theory Sandbox_Quota
  imports Sandbox_Invariant
begin

text \<open>
  Quota accounting of the sandbox store: the step relation of the store's methods, the
  invariant that the counts are the numbers of reserved allocations, and, for any
  implementation of \<open>atomic_governance\<close>, that the boundary and the store's read
  projection agree.
\<close>

section \<open>Steps\<close>

text \<open>
  One call of a method that can change the store. The sequence number is a \<open>uint64\<close>;
  creation is considered while it has not run out.
\<close>

inductive store_step :: "'g GovernanceStore \<Rightarrow> 'g Store \<Rightarrow> 'g Store \<Rightarrow> bool" for G where
  step_SetQuota: "store_step G s (snd (Store_SetQuota G s t w l))"
| step_Create: "sequence s \<noteq> - 1 \<Longrightarrow> store_step G s (snd (Create G s w k req now))"
| step_Drain: "store_step G s (snd (Drain G s i now now'))"
| step_CompleteDeletion: "store_step G s (snd (CompleteDeletion s i now))"

abbreviation store_steps :: "'g GovernanceStore \<Rightarrow> 'g Store \<Rightarrow> 'g Store \<Rightarrow> bool" where
  "store_steps G \<equiv> (store_step G)\<^sup>*\<^sup>*"

lemma wf_step [preserves]: "store_step G s s' \<Longrightarrow> store_wf s \<Longrightarrow> store_wf s'"
  by (induction rule: store_step.induct)
    (simp_all add: wf_SetQuota wf_Create wf_Drain wf_CompleteDeletion)

lemma wf_steps: "store_steps G s s' \<Longrightarrow> store_wf s \<Longrightarrow> store_wf s'"
  by (induction rule: rtranclp_induct) (auto intro: wf_step)

section \<open>Counting reserved allocations\<close>

definition live_of :: "'g Store \<Rightarrow> (Allocation \<Rightarrow> bool) \<Rightarrow> string set" where
  "live_of s P = {a. \<exists>al. allocations s a = Some al \<and> (a_Status al = AllocationReserved \<and> P al)}"

definition owned_by :: "string \<Rightarrow> Allocation \<Rightarrow> bool" where
  "owned_by key al \<longleftrightarrow> quotaKey (a_TenantID al) (a_OwnerID al) = key"

definition ready_of :: "'g Store \<Rightarrow> (string \<Rightarrow> string \<Rightarrow> bool) \<Rightarrow> string set" where
  "ready_of s P = {i. \<exists>sb. sandboxes s i = Some sb \<and> sb_Phase sb = PhaseReady \<and> P (sb_TenantID sb) (sb_OwnerID sb)}"

lemma live_of_cong: "allocations s' = allocations s \<Longrightarrow> live_of s' P = live_of s P"
  by (simp add: live_of_def)

lemma live_of_finite: "store_wf s \<Longrightarrow> finite (live_of s P)"
  by (rule finite_subset [OF _ wf_finite [of s]]) (auto simp: live_of_def)

text \<open>The reserved allocations are those of the ready sandboxes.\<close>

lemma card_live_ready:
  assumes wf: "store_wf s"
  shows "card (live_of s (\<lambda>al. P (a_TenantID al) (a_OwnerID al))) = card (ready_of s P)"
proof -
  let ?f = "\<lambda>i. sb_AllocationID (the (sandboxes s i))"
  let ?L = "live_of s (\<lambda>al. P (a_TenantID al) (a_OwnerID al))"
  have "inj_on ?f (ready_of s P)"
    by (rule inj_onI) (auto simp: ready_of_def dest: wf_alloc_of_name [OF wf])
  moreover have "?f i \<in> ?L" if "i \<in> ready_of s P" for i
  proof -
    from that obtain sb where sb: "sandboxes s i = Some sb" "sb_Phase sb = PhaseReady"
      "P (sb_TenantID sb) (sb_OwnerID sb)" by (auto simp: ready_of_def)
    with wf_sandbox_alloc [OF wf sb(1)] show ?thesis by (fastforce simp: live_of_def)
  qed
  moreover have "a \<in> ?f ` ready_of s P" if "a \<in> ?L" for a
  proof -
    from that obtain al where al: "allocations s a = Some al" "a_Status al = AllocationReserved"
      "P (a_TenantID al) (a_OwnerID al)" by (auto simp: live_of_def)
    from wf_alloc [OF wf al(1)] al obtain n sb where sb: "a = allocationName n"
      "sandboxes s (sandboxName n) = Some sb" "sb_TenantID sb = a_TenantID al"
      "sb_OwnerID sb = a_OwnerID al" "sb_Phase sb = PhaseReady" by (auto simp: alloc_entry_ok_def)
    with wf_sandbox [OF wf sb(2)] al have "sandboxName n \<in> ready_of s P" "a = ?f (sandboxName n)"
      by (auto simp: ready_of_def sandbox_entry_ok_def)
    then show ?thesis by blast
  qed
  ultimately have "bij_betw ?f (ready_of s P) ?L"
    by (auto simp: bij_betw_def)
  then show ?thesis by (simp add: bij_betw_same_card)
qed

lemma card_live_created:
  assumes "store_wf s" and "sequence s \<noteq> - 1"
  shows "card (live_of (created s w k req now g q) P) =
         card (live_of s P) + (if P (new_alloc (sequence s + 1) w req) then 1 else 0)"
proof -
  let ?n = "sequence s + 1"
  let ?P = "\<lambda>al. a_Status al = AllocationReserved \<and> P al"
  have fr: "allocations s (allocationName ?n) = None" using assms by (rule fresh_names(2))
  have st: "a_Status (new_alloc ?n w req) = AllocationReserved" by (simp add: new_alloc_def)
  show ?thesis
  proof (cases "P (new_alloc ?n w req)")
    case True
    with card_map_upd_new [OF wf_finite [OF assms(1)], of "allocationName ?n" ?P "new_alloc ?n w req"] fr st
    show ?thesis by (simp add: live_of_def)
  next
    case False
    with card_map_upd_same [of ?P "new_alloc ?n w req" "allocations s" "allocationName ?n"] fr
    show ?thesis by (simp add: live_of_def)
  qed
qed

lemma card_live_drained:
  assumes wf: "store_wf s" and al: "allocations s (sb_AllocationID sb) = Some al"
    and st: "a_Status al = AllocationReserved"
  shows "int (card (live_of (drained s i sb al g now) P)) = int (card (live_of s P)) - (if P al then 1 else 0)"
proof -
  let ?P = "\<lambda>al. a_Status al = AllocationReserved \<and> P al"
  have e: "allocations (drained s i sb al g now) = (allocations s)(sb_AllocationID sb \<mapsto> al\<lparr>a_Status := AllocationReleased\<rparr>)"
    by (simp add: drained_def)
  show ?thesis
  proof (cases "P al")
    case True
    with card_map_upd_drop [OF wf_finite [OF wf] al, of ?P "al\<lparr>a_Status := AllocationReleased\<rparr>"] st
    show ?thesis by (simp add: live_of_def e)
  next
    case False
    with card_map_upd_same [of ?P "al\<lparr>a_Status := AllocationReleased\<rparr>" "allocations s" "sb_AllocationID sb"] al
    show ?thesis by (simp add: live_of_def e)
  qed
qed

section \<open>The counts of the store\<close>

definition counts_ok :: "'g Store \<Rightarrow> bool" where
  "counts_ok s \<longleftrightarrow> (\<forall>k. int (card (live_of s (owned_by k))) = row_count s k)"

definition limits_ok :: "'g Store \<Rightarrow> bool" where
  "limits_ok s \<longleftrightarrow> (gov s = None \<longrightarrow>
     (\<forall>k q. quotas s k = Some q \<longrightarrow> q_CurrentCount q \<le> q_ConcurrentLimit q))"

definition store_inv :: "'g Store \<Rightarrow> bool" where
  "store_inv s \<longleftrightarrow> store_wf s \<and> counts_ok s \<and> limits_ok s"

lemma store_inv_NewStore: "store_inv NewStore"
  unfolding store_inv_def
  by (intro conjI wf_NewStore)
    (simp_all add: counts_ok_def limits_ok_def live_of_def row_count_def NewStore_def)

lemma store_inv_NewStoreWithGovernance: "NewStoreWithGovernance (Some g) = Some s \<Longrightarrow> store_inv s"
  by (auto simp: NewStoreWithGovernance_def store_inv_def store_wf_def counts_ok_def limits_ok_def
      live_of_def row_count_def)

lemma row_count_created:
  "row_count (created s w k req now g q) key =
     (if key = quotaKey (r_TenantID req) w then q_CurrentCount q else row_count s key)"
  by (simp add: row_count_def)

lemma row_count_nonneg: "counts_ok s \<Longrightarrow> 0 \<le> row_count s k"
  by (metis counts_ok_def of_nat_0_le_iff)

lemma row_count_drained:
  assumes "0 < row_count s (quotaKey (a_TenantID al) (a_OwnerID al))"
  shows "row_count (drained s i sb al g now) key =
           row_count s key - (if key = quotaKey (a_TenantID al) (a_OwnerID al) then 1 else 0)"
  using assms by (auto simp: row_count_def drained_def released_def Let_def split: option.splits)

lemma live_owner_count:
  assumes "store_inv s" and "allocations s a = Some al" and "a_Status al = AllocationReserved"
  shows "0 < row_count s (quotaKey (a_TenantID al) (a_OwnerID al))"
proof -
  let ?L = "live_of s (owned_by (quotaKey (a_TenantID al) (a_OwnerID al)))"
  have "a \<in> ?L" using assms(2,3) by (simp add: live_of_def owned_by_def)
  moreover have "finite ?L" using assms(1) by (simp add: store_inv_def live_of_finite)
  ultimately have "0 < card ?L" by (auto simp: card_gt_0_iff)
  with assms(1) show ?thesis by (metis counts_ok_def of_nat_0_less_iff store_inv_def)
qed

lemma counts_Create:
  assumes inv: "store_inv s" and ne: "sequence s \<noteq> - 1"
  shows "counts_ok (snd (Create G s w k req now)) \<and> limits_ok (snd (Create G s w k req now))"
proof -
  obtain res s' where c: "Create G s w k req now = (res, s')" by fastforce
  from inv have wf: "store_wf s" and cs: "counts_ok s" and ls: "limits_ok s" by (simp_all add: store_inv_def)
  from c show ?thesis
  proof (cases rule: Create_effect)
    case same
    with c cs ls show ?thesis by simp
  next
    case refused
    with c cs ls show ?thesis
      by (simp add: counts_ok_def limits_ok_def row_count_def live_of_def)
  next
    case (failed g g' err)
    with c cs show ?thesis by (simp add: counts_ok_def limits_ok_def row_count_def live_of_def)
  next
    case (ok g q)
    have "counts_ok s'"
      using cs ok(5)
      by (simp add: ok(4) counts_ok_def card_live_created [OF wf ne] row_count_created owned_by_def new_alloc_def)
    moreover have "limits_ok s'"
      using ls ok(7) by (cases "gov s") (use ok(8) in \<open>auto simp: limits_ok_def ok(4)\<close>)
    ultimately show ?thesis using c by simp
  qed
qed

lemma counts_Drain:
  assumes inv: "store_inv s"
  shows "counts_ok (snd (Drain G s i now now')) \<and> limits_ok (snd (Drain G s i now now'))"
proof -
  obtain res s' where d: "Drain G s i now now' = (res, s')" by fastforce
  from inv have wf: "store_wf s" and cs: "counts_ok s" and ls: "limits_ok s" by (simp_all add: store_inv_def)
  from wf d show ?thesis
  proof (cases rule: Drain_effect)
    case (failed sb g g' err)
    with d cs show ?thesis by (simp add: counts_ok_def limits_ok_def row_count_def live_of_def)
  next
    case (ok sb al g)
    have pos: "0 < row_count s (quotaKey (a_TenantID al) (a_OwnerID al))"
      using inv ok(3,4) by (rule live_owner_count)
    have "counts_ok s'"
      using cs
      by (simp add: ok(8) counts_ok_def card_live_drained [OF wf ok(3,4)] row_count_drained [OF pos])
        (auto simp: owned_by_def)
    moreover have "limits_ok s'"
      using ls ok(9,10)
      by (cases "gov s")
        (fastforce simp: limits_ok_def ok(8) drained_def released_def Let_def split: option.splits if_splits)+
    ultimately show ?thesis using d by simp
  qed (use d cs ls in simp_all)
qed

lemma store_inv_step [preserves]: "store_step G s s' \<Longrightarrow> store_inv s \<Longrightarrow> store_inv s'"
proof (induction rule: store_step.induct)
  case (step_SetQuota s t w l)
  then have wf: "store_wf (snd (Store_SetQuota G s t w l))" and cs: "counts_ok s" and ls: "limits_ok s"
    by (simp_all add: store_inv_def wf_SetQuota)
  obtain q g where e: "snd (Store_SetQuota G s t w l) = s\<lparr>gov := g, quotas := q\<rparr>" "g = None \<longleftrightarrow> gov s = None"
    and c: "\<forall>k. (case q k of None \<Rightarrow> 0 | Some r \<Rightarrow> q_CurrentCount r) = row_count s k"
    and l: "\<forall>k r. gov s = None \<longrightarrow> q k = Some r \<longrightarrow> quotas s k = Some r \<or> q_CurrentCount r \<le> q_ConcurrentLimit r"
    and "\<forall>g0. gov s = Some g0 \<longrightarrow> g = Some g0 \<or> g = Some (snd (SetQuota G g0 t w l))"
    by (rule SetQuota_effect [of G s t w l])
  have "counts_ok (s\<lparr>gov := g, quotas := q\<rparr>)"
    using cs c by (simp add: counts_ok_def live_of_def row_count_def)
  moreover have "limits_ok (s\<lparr>gov := g, quotas := q\<rparr>)"
    using ls l e(2) by (fastforce simp: limits_ok_def)
  ultimately show ?case using wf e(1) by (simp add: store_inv_def)
next
  case (step_Create s w k req now)
  then show ?case using counts_Create [of s G w k req now] by (simp add: store_inv_def wf_Create)
next
  case (step_Drain s i now now')
  then show ?case using counts_Drain [of s G i now now'] by (simp add: store_inv_def wf_Drain)
next
  case (step_CompleteDeletion s i now)
  obtain res s' where d: "CompleteDeletion s i now = (res, s')" by fastforce
  then have "allocations s' = allocations s \<and> quotas s' = quotas s \<and> gov s' = gov s"
    by (cases rule: CompleteDeletion_effect) simp_all
  with step_CompleteDeletion d wf_CompleteDeletion [of s i now] show ?case
    by (simp add: store_inv_def counts_ok_def limits_ok_def row_count_def live_of_def)
qed

lemma store_inv_steps: "store_steps G s s' \<Longrightarrow> store_inv s \<Longrightarrow> store_inv s'"
  by (induction rule: rtranclp_induct) (auto intro: store_inv_step)

lemma gov_step: "store_step G s s' \<Longrightarrow> gov s' = None \<longleftrightarrow> gov s = None"
proof (induction rule: store_step.induct)
  case (step_SetQuota s t w l)
  show ?case by (rule SetQuota_effect [of G s t w l]) simp
next
  case (step_Create s w k req now)
  obtain res s' where c: "Create G s w k req now = (res, s')" by fastforce
  then have "gov s' = None \<longleftrightarrow> gov s = None"
    by (cases rule: Create_effect) (cases "gov s"; force)+
  with c show ?case by simp
next
  case (step_Drain s i now now')
  then show ?case
    by (auto simp: Drain_def releaseAllocationLocked_def Let_def split: option.splits prod.splits)
next
  case (step_CompleteDeletion s i now)
  then show ?case by (auto simp: CompleteDeletion_def Let_def split: option.splits)
qed

lemma gov_steps: "store_steps G s s' \<Longrightarrow> gov s' = None \<longleftrightarrow> gov s = None"
  by (induction rule: rtranclp_induct) (auto dest: gov_step)

end
