(* ===== verification/Sandbox_Governed.thy ===== *)
theory Sandbox_Governed
  imports Sandbox_Quota
begin

text \<open>
  The sandbox store behind a governance boundary. For every implementation of
  \<open>atomic_governance\<close> that starts empty, the boundary's ledger and counts follow the
  store's allocations through any run of the store's methods; with the in-memory
  boundary this gives the agreement of the store's read projection with the boundary.
\<close>

definition status_text :: "AllocationStatus \<Rightarrow> string" where
  "status_text st = (case st of AllocationReserved \<Rightarrow> ''RESERVED'' | AllocationReleased \<Rightarrow> ''RELEASED'')"

definition governed ::
  "(string \<Rightarrow> string \<Rightarrow> 'k) \<Rightarrow> ('g \<Rightarrow> 'k \<Rightarrow> (int \<times> int) option) \<Rightarrow> ('g \<Rightarrow> string \<Rightarrow> string option)
     \<Rightarrow> 'g Store \<Rightarrow> 'g \<Rightarrow> bool" where
  "governed bucket quota ledger s g \<longleftrightarrow>
     gov s = Some g \<and>
     (\<forall>a al. allocations s a = Some al \<longrightarrow> ledger g a = Some (status_text (a_Status al))) \<and>
     (\<forall>k. int (card (live_of s (\<lambda>al. bucket (a_TenantID al) (a_OwnerID al) = k))) =
          (case quota g k of None \<Rightarrow> 0 | Some (l, c) \<Rightarrow> c))"

lemma governed_same_allocs:
  assumes "governed bucket quota ledger s g" and "allocations s' = allocations s" and "gov s' = Some g'"
    and "ledger g' = ledger g"
    and "\<And>k. (case quota g' k of None \<Rightarrow> 0 | Some (l, c) \<Rightarrow> c) = (case quota g k of None \<Rightarrow> 0 | Some (l, c) \<Rightarrow> c)"
  shows "governed bucket quota ledger s' g'"
  using assms by (simp add: governed_def live_of_def)

context atomic_governance
begin

lemma governed_SetQuota:
  assumes gv: "governed bucket quota ledger s g" and gi: "ginv g"
  shows "\<exists>g'. ginv g' \<and> governed bucket quota ledger (snd (Store_SetQuota G s t w l)) g'"
proof -
  obtain q g1 where e: "snd (Store_SetQuota G s t w l) = s\<lparr>gov := g1, quotas := q\<rparr>"
    and "g1 = None \<longleftrightarrow> gov s = None"
    and "\<forall>k. (case q k of None \<Rightarrow> 0 | Some r \<Rightarrow> q_CurrentCount r) = row_count s k"
    and "\<forall>k r. gov s = None \<longrightarrow> q k = Some r \<longrightarrow> quotas s k = Some r \<or> q_CurrentCount r \<le> q_ConcurrentLimit r"
    and g1: "\<forall>g0. gov s = Some g0 \<longrightarrow> g1 = Some g0 \<or> g1 = Some (snd (SetQuota G g0 t w l))"
    by (rule SetQuota_effect [of G s t w l])
  obtain oe g2 where r: "SetQuota G g t w l = (oe, g2)" by fastforce
  have g2: "ginv g2" using set_ginv [OF gi, of t w l] r by simp
  have same: "ledger g2 = ledger g \<and>
      (\<forall>k. (case quota g2 k of None \<Rightarrow> 0 | Some (l, c) \<Rightarrow> c) = (case quota g k of None \<Rightarrow> 0 | Some (l, c) \<Rightarrow> c))"
  proof (cases oe)
    case None
    with set_ok [OF gi] r show ?thesis by fastforce
  next
    case (Some err)
    with set_err [OF gi] r show ?thesis by metis
  qed
  from gv g1 r have "g1 = Some g \<or> g1 = Some g2" by (auto simp: governed_def)
  then show ?thesis
  proof
    assume "g1 = Some g"
    with gv gi e show ?thesis
      by (intro exI [of _ g] conjI governed_same_allocs [OF gv]) simp_all
  next
    assume "g1 = Some g2"
    with gv g2 e same show ?thesis
      by (intro exI [of _ g2] conjI governed_same_allocs [OF gv]) simp_all
  qed
qed

lemma governed_Create:
  assumes wf: "store_wf s" and ne: "sequence s \<noteq> - 1"
    and gv: "governed bucket quota ledger s g" and gi: "ginv g"
  shows "\<exists>g'. ginv g' \<and> governed bucket quota ledger (snd (Create G s w k req now)) g'"
proof -
  let ?a = "allocationName (sequence s + 1)" and ?b = "sandboxName (sequence s + 1)"
  obtain res s' where c: "Create G s w k req now = (res, s')" by fastforce
  from gv have gs: "gov s = Some g" by (simp add: governed_def)
  obtain oe g2 where r: "ReserveAllocation G g (r_TenantID req) w ?a ?b now = (oe, g2)" by fastforce
  have g2: "ginv g2" using reserve_ginv [OF gi, of "r_TenantID req" w ?a ?b now] r by simp
  from c have "\<exists>g'. ginv g' \<and> governed bucket quota ledger s' g'"
  proof (cases rule: Create_effect)
    case same
    with gv gi show ?thesis by blast
  next
    case refused
    with gs show ?thesis by simp
  next
    case (failed g0 g' err)
    with gs r have "oe = Some err" "g' = g2" by simp_all
    with r have "quota g2 = quota g \<and> ledger g2 = ledger g" using reserve_err [OF gi] by metis
    with g2 failed(5) \<open>g' = g2\<close> show ?thesis
      by (intro exI [of _ g2] conjI governed_same_allocs [OF gv]) simp_all
  next
    case (ok g1 q)
    from ok(8) [OF gs] r have oe: "oe = None" and g1: "g1 = Some g2" by auto
    from reserve_ok [OF gi, of "r_TenantID req" w ?a ?b now g2] r oe obtain l c
      where q0: "quota g (bucket (r_TenantID req) w) = Some (l, c)"
        and q2: "quota g2 = (quota g)(bucket (r_TenantID req) w \<mapsto> (l, c + 1))"
        and l2: "ledger g2 = (ledger g)(?a \<mapsto> ''RESERVED'')" by auto
    have "governed bucket quota ledger s' g2"
      using gv q0
      by (auto simp: governed_def ok(4) g1 l2 q2 card_live_created [OF wf ne] new_alloc_def status_text_def)
    with g2 show ?thesis by blast
  qed
  with c show ?thesis by simp
qed

lemma governed_Drain:
  assumes wf: "store_wf s" and gv: "governed bucket quota ledger s g" and gi: "ginv g"
  shows "\<exists>g'. ginv g' \<and> governed bucket quota ledger (snd (Drain G s i now now')) g'"
proof -
  obtain res s' where d: "Drain G s i now now' = (res, s')" by fastforce
  from gv have gs: "gov s = Some g" by (simp add: governed_def)
  from wf d have "\<exists>g'. ginv g' \<and> governed bucket quota ledger s' g'"
  proof (cases rule: Drain_effect)
    case (failed sb g0 g' err)
    with gs have rel: "ReleaseAllocation G g (sb_TenantID sb) (sb_OwnerID sb) (sb_AllocationID sb) now = (Some err, g')"
      by simp
    have "ginv g'" using release_ginv [OF gi] rel by (metis snd_conv)
    with release_err [OF gi rel] failed(6) show ?thesis
      by (intro exI [of _ g'] conjI governed_same_allocs [OF gv]) auto
  next
    case (ok sb al g1)
    from ok(10) [OF gs] obtain g2 where g1: "g1 = Some g2"
      and rel: "ReleaseAllocation G g (sb_TenantID sb) (sb_OwnerID sb) (sb_AllocationID sb) now = (None, g2)" by blast
    have g2: "ginv g2" using release_ginv [OF gi] rel by (metis snd_conv)
    have res: "ledger g (sb_AllocationID sb) = Some ''RESERVED''"
      using gv ok(3,4) by (simp add: governed_def status_text_def)
    with release_ok [OF gi rel] obtain l c
      where q0: "quota g (bucket (sb_TenantID sb) (sb_OwnerID sb)) = Some (l, c)"
        and q2: "quota g2 = (quota g)(bucket (sb_TenantID sb) (sb_OwnerID sb) \<mapsto> (l, c - 1))"
        and l2: "ledger g2 = (ledger g)(sb_AllocationID sb \<mapsto> ''RELEASED'')" by auto
    have al: "allocations s' = (allocations s)(sb_AllocationID sb \<mapsto> al\<lparr>a_Status := AllocationReleased\<rparr>)"
      "gov s' = Some g2" by (simp_all add: ok(8) g1 drained_def)
    have cards: "int (card (live_of s' P)) = int (card (live_of s P)) - (if P al then 1 else 0)" for P
      unfolding ok(8) by (rule card_live_drained [OF wf ok(3,4)])
    have "governed bucket quota ledger s' g2"
      using gv q0 by (auto simp: governed_def al l2 q2 cards ok(5,6) status_text_def)
    with g2 show ?thesis by blast
  qed (use gv gi gs in auto)
  with d show ?thesis by simp
qed

lemma governed_step:
  "store_step G s s' \<Longrightarrow> store_wf s \<Longrightarrow> ginv g \<Longrightarrow> governed bucket quota ledger s g \<Longrightarrow>
   \<exists>g'. ginv g' \<and> governed bucket quota ledger s' g'"
proof (induction rule: store_step.induct)
  case (step_CompleteDeletion s i now)
  obtain res s' where d: "CompleteDeletion s i now = (res, s')" by fastforce
  then have "allocations s' = allocations s \<and> gov s' = gov s"
    by (cases rule: CompleteDeletion_effect) simp_all
  with step_CompleteDeletion d show ?case by (auto simp: governed_def live_of_def)
qed (simp_all add: governed_SetQuota governed_Create governed_Drain)

lemma governed_steps:
  assumes "store_steps G s s'" and "store_wf s" and "ginv g" and "governed bucket quota ledger s g"
  shows "\<exists>g'. ginv g' \<and> governed bucket quota ledger s' g'"
  using assms
proof (induction rule: rtranclp_induct)
  case base
  then show ?case by blast
next
  case (step y z)
  then obtain g' where "ginv g'" "governed bucket quota ledger y g'" by blast
  with step.hyps(1,2) step.prems(1) show ?case by (blast intro: governed_step wf_steps)
qed

text \<open>A fresh store over a boundary with no row in use.\<close>

lemma governed_start:
  assumes "NewStoreWithGovernance (Some g) = Some s" and "\<And>k l c. quota g k = Some (l, c) \<Longrightarrow> c = 0"
  shows "governed bucket quota ledger s g"
proof -
  from assms(1) have "allocations s = Map.empty" "gov s = Some g"
    by (auto simp: NewStoreWithGovernance_def)
  with assms(2) show ?thesis by (auto simp: governed_def live_of_def split: option.splits)
qed

text \<open>The boundary's count is the number of the store's ready sandboxes, and within the limit.\<close>

lemma boundary_counts_ready:
  assumes "NewStoreWithGovernance (Some g) = Some s" and "\<And>k l c. quota g k = Some (l, c) \<Longrightarrow> c = 0"
    and "ginv g" and "store_steps G s s'" and "gov s' = Some g'" and "quota g' k = Some (l, c)"
  shows "c = int (card (ready_of s' (\<lambda>t w. bucket t w = k))) \<and> c \<le> l"
proof -
  have wf: "store_wf s" using store_inv_NewStoreWithGovernance [OF assms(1)] by (simp add: store_inv_def)
  have "governed bucket quota ledger s g" using assms(1,2) by (rule governed_start)
  from governed_steps [OF assms(4) wf assms(3) this] obtain g'' where "ginv g''" "governed bucket quota ledger s' g''" by blast
  with assms(5) have gv: "governed bucket quota ledger s' g'" and gi: "ginv g'" by (auto simp: governed_def)
  have "int (card (live_of s' (\<lambda>al. bucket (a_TenantID al) (a_OwnerID al) = k))) = c"
    using gv assms(6) by (simp add: governed_def)
  moreover have "card (live_of s' (\<lambda>al. bucket (a_TenantID al) (a_OwnerID al) = k)) =
      card (ready_of s' (\<lambda>t w. bucket t w = k))"
    using wf_steps [OF assms(4) wf] by (rule card_live_ready)
  ultimately show ?thesis using within_limit [OF gi assms(6)] by simp
qed

end

end
