(* ===== verification/Sandbox_Properties.thy ===== *)
theory Sandbox_Properties
  imports Sandbox_Governed
begin

text \<open>
  The properties of the sandbox store: quota safety, agreement with the governance
  boundary, idempotent creation across any interleaving, the life cycle of a sandbox,
  draining, and what happens on the error paths.
\<close>

section \<open>Reachable stores\<close>

definition store_start :: "'g Store \<Rightarrow> bool" where
  "store_start s \<longleftrightarrow> s = NewStore \<or> (\<exists>g. NewStoreWithGovernance (Some g) = Some s)"

definition reachable_store :: "'g GovernanceStore \<Rightarrow> 'g Store \<Rightarrow> bool" where
  "reachable_store G s \<longleftrightarrow> (\<exists>s0. store_start s0 \<and> store_steps G s0 s)"

lemma reachable_inv: "reachable_store G s \<Longrightarrow> store_inv s"
  by (auto simp: reachable_store_def store_start_def
      intro: store_inv_steps store_inv_NewStore store_inv_NewStoreWithGovernance)

lemma reachable_wf: "reachable_store G s \<Longrightarrow> store_wf s"
  using reachable_inv by (auto simp: store_inv_def)

lemma reachable_steps: "reachable_store G s \<Longrightarrow> store_steps G s s' \<Longrightarrow> reachable_store G s'"
  by (auto simp: reachable_store_def intro: rtranclp_trans)

section \<open>What steps keep\<close>

text \<open>A sandbox record is never removed; its phase moves along \<open>Ready\<close>, \<open>Draining\<close>, \<open>Deleted\<close>.\<close>

definition same_identity :: "Sandbox \<Rightarrow> Sandbox \<Rightarrow> bool" where
  "same_identity sb sb' \<longleftrightarrow>
     sb\<lparr>sb_Phase := PhaseReady, sb_UpdatedAt := zero_time\<rparr> =
     sb'\<lparr>sb_Phase := PhaseReady, sb_UpdatedAt := zero_time\<rparr>"

definition phase_next :: "Phase \<Rightarrow> Phase \<Rightarrow> bool" where
  "phase_next p p' \<longleftrightarrow>
     p' = p \<or> (p = PhaseReady \<and> p' = PhaseDraining) \<or> (p = PhaseDraining \<and> p' = PhaseDeleted)"

lemma same_identity_refl [simp]: "same_identity sb sb"
  by (simp add: same_identity_def)

lemma same_identity_trans: "same_identity a b \<Longrightarrow> same_identity b c \<Longrightarrow> same_identity a c"
  by (simp add: same_identity_def)

lemma same_identity_fields:
  assumes "same_identity a b"
  shows "sb_ID b = sb_ID a" "sb_TenantID b = sb_TenantID a" "sb_OwnerID b = sb_OwnerID a"
    "sb_AllocationID b = sb_AllocationID a" "sb_CreatedAt b = sb_CreatedAt a" "sb_ExpiresAt b = sb_ExpiresAt a"
  using assms [unfolded same_identity_def, THEN arg_cong, of sb_ID]
    assms [unfolded same_identity_def, THEN arg_cong, of sb_TenantID]
    assms [unfolded same_identity_def, THEN arg_cong, of sb_OwnerID]
    assms [unfolded same_identity_def, THEN arg_cong, of sb_AllocationID]
    assms [unfolded same_identity_def, THEN arg_cong, of sb_CreatedAt]
    assms [unfolded same_identity_def, THEN arg_cong, of sb_ExpiresAt]
  by simp_all

lemma step_sandbox:
  assumes "store_step G s s'" and wf: "store_wf s" and sb: "sandboxes s i = Some sb"
  shows "\<exists>sb'. sandboxes s' i = Some sb' \<and> same_identity sb sb' \<and> phase_next (sb_Phase sb) (sb_Phase sb')"
  using assms(1)
proof (cases rule: store_step.cases)
  case (step_SetQuota t w l)
  have "sandboxes (snd (Store_SetQuota G s t w l)) = sandboxes s"
    by (auto simp: Store_SetQuota_def Let_def split: option.splits prod.splits)
  with step_SetQuota sb show ?thesis by (simp add: phase_next_def)
next
  case (step_Create w k req now)
  obtain res s1 where c: "Create G s w k req now = (res, s1)" by fastforce
  have "sandboxes s1 i = Some sb"
    using c
  proof (cases rule: Create_effect)
    case (ok g q)
    with sb fresh_names(1) [OF wf step_Create(2)] show ?thesis by auto
  qed (use sb in simp_all)
  with step_Create c show ?thesis by (simp add: phase_next_def)
next
  case (step_Drain j now now')
  obtain res s1 where d: "Drain G s j now now' = (res, s1)" by fastforce
  from wf d have "\<exists>sb'. sandboxes s1 i = Some sb' \<and> same_identity sb sb' \<and> phase_next (sb_Phase sb) (sb_Phase sb')"
  proof (cases rule: Drain_effect)
    case (ok sb1 al g)
    with sb show ?thesis
      by (cases "i = j") (auto simp: drained_def draining_def same_identity_def phase_next_def)
  qed (use sb in \<open>auto simp: phase_next_def\<close>)
  with step_Drain d show ?thesis by simp
next
  case (step_CompleteDeletion j now)
  obtain res s1 where d: "CompleteDeletion s j now = (res, s1)" by fastforce
  then have "\<exists>sb'. sandboxes s1 i = Some sb' \<and> same_identity sb sb' \<and> phase_next (sb_Phase sb) (sb_Phase sb')"
  proof (cases rule: CompleteDeletion_effect)
    case (ok sb1)
    with sb wf_sandbox [OF wf ok(1)] show ?thesis
      by (cases "i = j") (auto simp: same_identity_def phase_next_def sandbox_entry_ok_def)
  qed (use sb in \<open>auto simp: phase_next_def\<close>)
  with step_CompleteDeletion d show ?thesis by simp
qed

lemma steps_sandbox:
  assumes "store_steps G s s'" and "store_wf s" and "sandboxes s i = Some sb"
  shows "\<exists>sb'. sandboxes s' i = Some sb' \<and> same_identity sb sb'"
  using assms
proof (induction rule: rtranclp_induct)
  case base
  then show ?case by simp
next
  case (step y z)
  then obtain sb1 where "sandboxes y i = Some sb1" "same_identity sb sb1" by blast
  with step_sandbox [OF step.hyps(2) wf_steps [OF step.hyps(1) step.prems(1)]] show ?case
    by (blast intro: same_identity_trans)
qed

text \<open>A stored idempotency record is kept as it is by every step.\<close>

lemma release_idempotency [frame]: "idempotency (snd (releaseAllocationLocked G s a now)) = idempotency s"
proof -
  obtain res s' where r: "releaseAllocationLocked G s a now = (res, s')" by fastforce
  then show ?thesis by (cases rule: release_effect) (simp_all add: r)
qed

lemma Drain_idempotency [frame]: "idempotency (snd (Drain G s i now now')) = idempotency s"
proof (cases "sandboxes s i")
  case (Some sb)
  obtain res s' where r: "releaseAllocationLocked G s (sb_AllocationID sb) now = (res, s')" by fastforce
  with release_idempotency [of G s "sb_AllocationID sb" now] Some show ?thesis
    by (simp add: Drain_def Let_def split: option.split)
qed (simp add: Drain_def)

lemma step_idempotency:
  assumes "store_step G s s'" and r: "idempotency s k = Some r"
  shows "idempotency s' k = Some r"
  using assms(1)
proof (cases rule: store_step.cases)
  case (step_SetQuota t w l)
  then show ?thesis using r by (auto simp: Store_SetQuota_def Let_def split: option.splits prod.splits)
next
  case (step_Create w k' req now)
  obtain res s1 where c: "Create G s w k' req now = (res, s1)" by fastforce
  from c have "idempotency s1 k = Some r"
    by (cases rule: Create_effect) (use r in \<open>auto simp: begin_create_def\<close>)
  with step_Create c show ?thesis by simp
next
  case (step_Drain j now now')
  with r show ?thesis by (simp add: Drain_idempotency)
next
  case (step_CompleteDeletion j now)
  then show ?thesis using r by (auto simp: CompleteDeletion_def Let_def split: option.splits)
qed

lemma steps_idempotency: "store_steps G s s' \<Longrightarrow> idempotency s k = Some r \<Longrightarrow> idempotency s' k = Some r"
  by (induction rule: rtranclp_induct) (auto intro: step_idempotency)

text \<open>The record a successful creation leaves, or found.\<close>

lemma Create_Inr_record:
  assumes "Create G s w k req now = (Inr sb, s1)"
  shows "valid_create w k req \<and> (\<exists>r. idempotency s1 (idem_key req k) = Some r \<and> i_Status r = IdempotencySucceeded \<and>
           i_RequestHash r = requestHash (withDefaults req) \<and> i_OwnerID r = w \<and> sandboxes s1 (i_ResourceID r) = Some sb)"
proof -
  have v: "valid_create w k req" using assms Create_invalid [of w k req G s now] by auto
  show ?thesis
  proof (cases "idempotency s (idem_key req k)")
    case (Some r)
    with assms v show ?thesis
      by (auto simp: Create_prior split: if_splits IdempotencyStatus.splits option.splits)
  next
    case None
    from assms show ?thesis
    proof (cases rule: Create_effect)
      case same
      with None show ?thesis by auto
    next
      case (ok g q)
      with v show ?thesis by (auto simp: new_record_def)
    qed auto
  qed
qed


text \<open>A refusal by the local quota row leaves the pending record behind.\<close>

lemma refused_record:
  assumes c: "Create G s w k req now = (Inl e, s1)" and g: "gov s = None"
    and e: "e = ErrQuotaExceeded \<or> e = ErrQuotaNotConfigured"
  shows "valid_create w k req \<and> idempotency s1 (idem_key req k) = Some (new_record w k req now)"
proof -
  have v: "valid_create w k req" using c e Create_invalid [of w k req G s now] by auto
  have n: "idempotency s (idem_key req k) = None"
  proof (cases "idempotency s (idem_key req k)")
    case (Some prior)
    with c e v show ?thesis
      by (auto simp: Create_prior split: if_splits IdempotencyStatus.splits option.splits)
  qed
  obtain oe t where r: "slot G s w k req now = (oe, t)" by fastforce
  with c v n have "oe = Some e" "t = s1" by (auto simp: Create_fresh split: option.splits)
  with r reserveSlot_Some [of G "begin_create s w k req now"] g have "s1 = begin_create s w k req now"
    by (fastforce simp: begin_create_def)
  with v show ?thesis by (simp add: begin_create_def)
qed

text \<open>A repeated creation is decided by the stored record alone.\<close>

lemma Create_repeat:
  assumes "idempotency s (idem_key req k) = Some r" and "valid_create w k req'" and "r_TenantID req' = r_TenantID req"
    and "withDefaults req' = withDefaults req"
    and "i_RequestHash r = requestHash (withDefaults req)" and "i_OwnerID r = w"
  shows "Create G s w k req' now =
     (case i_Status r of
        IdempotencyPending \<Rightarrow> (Inl ErrIdempotencyPending, s)
      | IdempotencySucceeded \<Rightarrow>
          (case sandboxes s (i_ResourceID r) of Some sb \<Rightarrow> (Inr sb, s) | None \<Rightarrow> (Inl ErrResourceGone, s))
      | IdempotencyFailed \<Rightarrow> (Inl ErrIdempotencyFailed, s))"
  using assms by (simp add: Create_prior)

lemma same_defaults:
  assumes "withDefaults req' = withDefaults req"
  shows "r_TenantID req' = r_TenantID req" and "valid_create w k req' = valid_create w k req"
  using assms withDefaults_TenantID [of req] withDefaults_TenantID [of req']
    withDefaults_Template [of req] withDefaults_Template [of req']
  by (simp_all add: valid_create_def)

text \<open>In an in-memory store the ready sandbox can always be drained.\<close>

lemma Drain_ready:
  assumes inv: "store_inv s" and g: "gov s = None" and sb: "sandboxes s i = Some sb" "sb_Phase sb = PhaseReady"
  shows "\<exists>al. Drain G s i now now' = (Inr (draining sb now'), drained s i sb al None now') \<and>
           allocations s (sb_AllocationID sb) = Some al \<and> a_Status al = AllocationReserved \<and>
           a_TenantID al = sb_TenantID sb \<and> a_OwnerID al = sb_OwnerID sb \<and>
           0 < row_count s (quotaKey (sb_TenantID sb) (sb_OwnerID sb))"
proof -
  from inv have wf: "store_wf s" by (simp add: store_inv_def)
  obtain res s' where d: "Drain G s i now now' = (res, s')" by fastforce
  from wf_sandbox_alloc [OF wf sb(1)] sb(2) obtain al0
    where "allocations s (sb_AllocationID sb) = Some al0" "a_Status al0 = AllocationReserved"
      "a_TenantID al0 = sb_TenantID sb" "a_OwnerID al0 = sb_OwnerID sb" by metis
  with live_owner_count [OF inv] have pos: "0 < row_count s (quotaKey (sb_TenantID sb) (sb_OwnerID sb))" by metis
  from wf d show ?thesis
  proof (cases rule: Drain_effect)
    case (ok sb1 al g1)
    with sb g d pos show ?thesis by auto
  qed (use sb g pos in auto)
qed

lemma drained_row:
  assumes "0 < row_count s (quotaKey (a_TenantID al) (a_OwnerID al))"
  shows "quotas (drained s i sb al g now) (quotaKey (a_TenantID al) (a_OwnerID al)) =
     map_option (\<lambda>q. q\<lparr>q_CurrentCount := q_CurrentCount q - 1\<rparr>) (quotas s (quotaKey (a_TenantID al) (a_OwnerID al)))"
  using assms by (auto simp: drained_def released_def row_count_def Let_def split: option.splits)

text \<open>In an in-memory store a fresh request succeeds when the row has room.\<close>

lemma Create_room:
  assumes "gov s = None" and "valid_create w k req" and "idempotency s (idem_key req k) = None"
    and "quotas s (quotaKey (r_TenantID req) w) = Some q" and "q_CurrentCount q < q_ConcurrentLimit q"
  shows "fst (Create G s w k req now) = Inr (new_sandbox (sequence s + 1) w k req now)"
  using assms by (simp add: Create_fresh reserveSlot_def begin_create_def Let_def)


text \<open>The errors an in-memory store can give.\<close>

lemma Create_errors:
  assumes wf: "store_wf s" and g: "gov s = None" and c: "fst (Create G s w k req now) = Inl e"
  shows "e \<in> {ErrInvalidRequest, ErrQuotaNotConfigured, ErrQuotaExceeded, ErrIdempotencyConflict, ErrIdempotencyPending}"
proof (cases "valid_create w k req")
  case False
  with c show ?thesis by (simp add: Create_invalid)
next
  case v: True
  show ?thesis
  proof (cases "idempotency s (idem_key req k)")
    case None
    obtain oe t where r: "slot G s w k req now = (oe, t)" by fastforce
    with c v None have "oe = Some e" by (auto simp: Create_fresh split: option.splits)
    with r reserveSlot_Some [of G "begin_create s w k req now"] g show ?thesis
      by (fastforce simp: begin_create_def)
  next
    case (Some prior)
    with c v wf_idem [OF wf Some] show ?thesis
      by (auto simp: Create_prior idem_entry_ok_def split: if_splits IdempotencyStatus.splits option.splits)
  qed
qed

lemma Drain_errors:
  assumes inv: "store_inv s" and g: "gov s = None" and c: "fst (Drain G s i now now') = Inl e"
  shows "e = ErrNotFound \<and> sandboxes s i = None \<or>
         e = ErrInvalidTransition \<and> (\<exists>sb. sandboxes s i = Some sb \<and> sb_Phase sb = PhaseDeleted)"
proof -
  from inv have wf: "store_wf s" by (simp add: store_inv_def)
  obtain res s' where d: "Drain G s i now now' = (res, s')" by fastforce
  from wf d show ?thesis
  proof (cases rule: Drain_effect)
    case same
    with c d show ?thesis by auto
  next
    case (corrupt sb)
    with Drain_ready [OF inv g corrupt(1,2), of G now now'] show ?thesis by simp
  qed (use c d g in auto)
qed

end
