(* ===== verification/Go_Path.thy ===== *)
theory Go_Path
  imports Go_Strings "HOL-Library.Sublist"
begin

text \<open>
  Go's \<open>path/filepath\<close> on Unix (and \<open>path\<close>): the lexical functions \<open>Clean\<close>, \<open>Join\<close>,
  \<open>Dir\<close>, \<open>Base\<close>, \<open>IsAbs\<close> and \<open>Rel\<close>. A rooted clean path is \<open>abs_path cs\<close> for a list
  of proper components; the lemmas reduce the functions to lists of components.
\<close>

section \<open>Definitions\<close>

definition IsAbs :: "string \<Rightarrow> bool" where
  "IsAbs s = HasPrefix s ''/''"

text \<open>One component of a path on the stack of the components kept so far.\<close>

definition clean_step :: "bool \<Rightarrow> string list \<Rightarrow> string \<Rightarrow> string list" where
  "clean_step rooted st c =
     (if c = [] \<or> c = ''.'' then st
      else if c = ''..'' then
        (case st of
           [] \<Rightarrow> if rooted then [] else [''..'']
         | t # ts \<Rightarrow> if t = ''..'' then ''..'' # st else ts)
      else c # st)"

definition clean_comps :: "bool \<Rightarrow> string list \<Rightarrow> string list" where
  "clean_comps rooted cs = rev (foldl (clean_step rooted) [] cs)"

definition Clean :: "string \<Rightarrow> string" where
  "Clean s =
     (if s = [] then ''.''
      else let body = Join (clean_comps (IsAbs s) (Split s (CHR ''/''))) ''/''
           in if IsAbs s then CHR ''/'' # body else if body = [] then ''.'' else body)"

text \<open>\<open>Join\<close> of two elements.\<close>

definition JoinPath :: "string \<Rightarrow> string \<Rightarrow> string" where
  "JoinPath a b =
     (if a \<noteq> [] then Clean (a @ ''/'' @ b) else if b \<noteq> [] then Clean b else [])"

definition Dir :: "string \<Rightarrow> string" where
  "Dir s = Clean (rev (dropWhile (\<lambda>c. c \<noteq> CHR ''/'') (rev s)))"

definition Base :: "string \<Rightarrow> string" where
  "Base s =
     (if s = [] then ''.''
      else let t = rev (takeWhile (\<lambda>c. c \<noteq> CHR ''/'') (rev (TrimRight s (CHR ''/''))))
           in if t = [] then ''/'' else t)"

definition comps :: "string \<Rightarrow> string list" where
  "comps s = filter (\<lambda>c. c \<noteq> []) (Split s (CHR ''/''))"

fun strip_common :: "string list \<Rightarrow> string list \<Rightarrow> string list \<times> string list" where
  "strip_common (b # bs) (t # ts) = (if b = t then strip_common bs ts else (b # bs, t # ts))"
| "strip_common bs ts = (bs, ts)"

text \<open>\<open>Rel\<close> on the components of the two cleaned paths; \<open>None\<close> is the error.\<close>

definition Rel :: "string \<Rightarrow> string \<Rightarrow> string option" where
  "Rel basepath targpath =
     (let base = Clean basepath; targ = Clean targpath in
      if targ = base then Some ''.''
      else
        let base = (if base = ''.'' then [] else base) in
        if IsAbs base \<noteq> IsAbs targ then None
        else (case strip_common (comps base) (comps targ) of
                (bs, ts) \<Rightarrow>
                  if bs \<noteq> [] \<and> ts \<noteq> [] \<and> hd bs = ''..'' then None
                  else Some (Join (replicate (length bs) ''..'' @ ts) ''/'')))"

section \<open>Components\<close>

definition proper :: "string \<Rightarrow> bool" where
  "proper c \<longleftrightarrow> c \<noteq> [] \<and> c \<noteq> ''.'' \<and> c \<noteq> ''..'' \<and> CHR ''/'' \<notin> set c"

definition abs_path :: "string list \<Rightarrow> string" where
  "abs_path cs = CHR ''/'' # Join cs ''/''"

lemma IsAbs_abs_path [simp]: "IsAbs (abs_path cs)"
  by (simp add: IsAbs_def abs_path_def HasPrefix_def)

lemma clean_step_proper: "list_all proper st \<Longrightarrow> CHR ''/'' \<notin> set c \<Longrightarrow> list_all proper (clean_step True st c)"
  by (auto simp: clean_step_def proper_def split: list.splits)

lemma clean_fold_proper:
  "list_all proper st \<Longrightarrow> \<forall>c \<in> set cs. CHR ''/'' \<notin> set c \<Longrightarrow> list_all proper (foldl (clean_step True) st cs)"
  by (induction cs arbitrary: st) (auto simp: clean_step_proper)

lemma clean_comps_proper:
  assumes "\<forall>c \<in> set cs. CHR ''/'' \<notin> set c"
  shows "list_all proper (clean_comps True cs)"
  using clean_fold_proper [of "[]" cs] assms by (simp add: clean_comps_def)

lemma clean_fold_id: "list_all proper cs \<Longrightarrow> foldl (clean_step r) st cs = rev cs @ st"
  by (induction cs arbitrary: st) (auto simp: clean_step_def proper_def)

lemma clean_comps_id: "list_all proper cs \<Longrightarrow> clean_comps r cs = cs"
  by (simp add: clean_comps_def clean_fold_id)

lemma Split_abs_path:
  assumes "list_all proper cs"
  shows "Split (abs_path cs) (CHR ''/'') = [] # (if cs = [] then [[]] else cs)"
proof (cases "cs = []")
  case False
  have "\<forall>c \<in> set cs. CHR ''/'' \<notin> set c" using assms by (auto simp: list_all_iff proper_def)
  with False Split_Join [of cs "CHR ''/''"] show ?thesis by (simp add: abs_path_def)
qed (simp add: abs_path_def)

lemma Clean_abs_path: "list_all proper cs \<Longrightarrow> Clean (abs_path cs) = abs_path cs"
  using clean_comps_id [of cs True]
  by (auto simp: Clean_def Let_def Split_abs_path clean_comps_def clean_step_def)
    (simp_all add: abs_path_def)

lemma comps_abs_path [simp]: "list_all proper cs \<Longrightarrow> comps (abs_path cs) = cs"
  by (auto simp: comps_def Split_abs_path proper_def list_all_iff)

lemma abs_path_inject:
  "list_all proper cs \<Longrightarrow> list_all proper ds \<Longrightarrow> abs_path cs = abs_path ds \<longleftrightarrow> cs = ds"
  using comps_abs_path by metis

text \<open>A clean rooted path is \<open>abs_path\<close> of proper components.\<close>

lemma Clean_rooted:
  assumes "IsAbs s"
  shows "Clean s = abs_path (clean_comps True (Split s (CHR ''/'')))"
    and "list_all proper (clean_comps True (Split s (CHR ''/'')))"
proof -
  show "Clean s = abs_path (clean_comps True (Split s (CHR ''/'')))"
    using assms by (auto simp: Clean_def abs_path_def Let_def IsAbs_def HasPrefix_def)
  show "list_all proper (clean_comps True (Split s (CHR ''/'')))"
    by (rule clean_comps_proper) (auto dest: Split_parts_no_sep)
qed

lemma Clean_rootedE:
  assumes "IsAbs s"
  obtains cs where "Clean s = abs_path cs" and "list_all proper cs"
  using Clean_rooted [OF assms] that by blast

lemma Clean_idem: "IsAbs s \<Longrightarrow> Clean (Clean s) = Clean s"
  by (metis Clean_abs_path Clean_rootedE)

lemma clean_step_stack:
  assumes "list_all proper st" and "CHR ''/'' \<notin> set c"
  shows "clean_step True st c =
     (if c = [] \<or> c = ''.'' then st else if c = ''..'' then tl st else c # st)"
  using assms by (auto simp: clean_step_def proper_def split: list.splits)

section \<open>Dir, Base, Join\<close>

lemma Join_snoc: "cs \<noteq> [] \<Longrightarrow> Join (cs @ [c]) sep = Join cs sep @ sep @ c"
  by (induction cs sep rule: Join.induct) auto

lemma abs_path_snoc: "abs_path (cs @ [c]) = (if cs = [] then ''/'' else abs_path cs @ ''/'') @ c"
  by (simp add: abs_path_def Join_snoc)

lemma Dir_abs_path:
  assumes "list_all proper (cs @ [c])"
  shows "Dir (abs_path (cs @ [c])) = abs_path cs"
proof -
  have c: "CHR ''/'' \<notin> set c" and cs: "list_all proper cs" using assms by (simp_all add: proper_def)
  have drop: "rev (dropWhile (\<lambda>c. c \<noteq> CHR ''/'') (rev (p @ CHR ''/'' # c))) = p @ ''/''" for p
    using c by (simp add: dropWhile_append)
  show ?thesis
  proof (cases "cs = []")
    case True
    with drop [of "[]"] show ?thesis by (simp add: Dir_def abs_path_def Clean_def IsAbs_def HasPrefix_def Let_def clean_comps_def clean_step_def)
  next
    case False
    with drop [of "abs_path cs"] have "Dir (abs_path (cs @ [c])) = Clean (abs_path cs @ ''/'')"
      by (simp add: Dir_def abs_path_snoc)
    moreover have "Split (abs_path cs @ ''/'') (CHR ''/'') = [] # cs @ [[]]"
      using Split_Join [of "cs @ [[]]" "CHR ''/''"] cs False
      by (auto simp: abs_path_def Join_snoc list_all_iff proper_def)
    moreover have "IsAbs (abs_path cs @ ''/'')" by (simp add: IsAbs_def HasPrefix_def abs_path_def)
    ultimately show ?thesis
      using clean_fold_id [OF cs, of True "[]"]
      by (simp add: Clean_rooted clean_comps_def clean_step_def)
  qed
qed

lemma Dir_root: "Dir ''/'' = ''/''"
  by (simp add: Dir_def Clean_def IsAbs_def HasPrefix_def clean_comps_def clean_step_def Let_def)

lemma Base_abs_path:
  assumes "list_all proper (cs @ [c])"
  shows "Base (abs_path (cs @ [c])) = c"
proof -
  have c: "CHR ''/'' \<notin> set c" "c \<noteq> []" using assms by (simp_all add: proper_def)
  have "abs_path (cs @ [c]) = (if cs = [] then [] else abs_path cs) @ CHR ''/'' # c"
    by (simp add: abs_path_snoc)
  then obtain p where p: "abs_path (cs @ [c]) = p @ CHR ''/'' # c" ..
  have "TrimRight (p @ CHR ''/'' # c) (CHR ''/'') = p @ CHR ''/'' # c"
    using c by (cases c rule: rev_cases) (auto simp: TrimRight_snoc [of "p @ CHR ''/'' # ys" for ys, simplified])
  with c show ?thesis unfolding p by (simp add: Base_def Let_def takeWhile_append)
qed

lemma Split_append_sep_any: "Split (a @ sep # b) sep = Split a sep @ Split b sep"
  by (induction a) (auto split: list.split)

lemma JoinPath_abs:
  assumes "list_all proper cs"
  shows "JoinPath (abs_path cs) s = abs_path (rev (foldl (clean_step True) (rev cs) (Split s (CHR ''/''))))"
    and "list_all proper (rev (foldl (clean_step True) (rev cs) (Split s (CHR ''/''))))"
proof -
  have "Clean (abs_path cs @ ''/'' @ s) = abs_path (clean_comps True (Split (abs_path cs @ ''/'' @ s) (CHR ''/'')))"
    by (intro Clean_rooted) (simp add: IsAbs_def HasPrefix_def abs_path_def)
  moreover have "foldl (clean_step True) [] ([] # (if cs = [] then [[]] else cs)) = rev cs"
    using clean_fold_id [OF assms, of True "[]"] by (auto simp: clean_step_def)
  ultimately show "JoinPath (abs_path cs) s = abs_path (rev (foldl (clean_step True) (rev cs) (Split s (CHR ''/''))))"
    using Split_abs_path [OF assms] Split_append_sep_any [of "abs_path cs" "CHR ''/''" s]
    by (simp add: JoinPath_def abs_path_def clean_comps_def)
  show "list_all proper (rev (foldl (clean_step True) (rev cs) (Split s (CHR ''/''))))"
    using assms clean_fold_proper [of "rev cs" "Split s (CHR ''/'')"] by (auto dest: Split_parts_no_sep)
qed

lemma JoinPath_one:
  assumes "list_all proper cs" and "proper c"
  shows "JoinPath (abs_path cs) c = abs_path (cs @ [c])"
  using JoinPath_abs(1) [OF assms(1), of c] assms(2)
  by (simp add: proper_def Split_no_sep clean_step_def)

section \<open>Rel\<close>

lemma strip_common_prefix: "fst (strip_common bs ts) = [] \<longleftrightarrow> prefix bs ts"
  by (induction bs ts rule: strip_common.induct) auto

lemma strip_common_parts: "\<exists>p. bs = p @ fst (strip_common bs ts) \<and> ts = p @ snd (strip_common bs ts)"
proof (induction bs ts rule: strip_common.induct)
  case (1 b bs t ts)
  then show ?case by (cases "b = t") (auto, metis append_Cons)
qed auto


text \<open>Between rooted paths \<open>Rel\<close> always succeeds and goes up only when it has to.\<close>

lemma Rel_abs:
  assumes "list_all proper bs" and "list_all proper ts" and "bs \<noteq> ts"
  shows "Rel (abs_path bs) (abs_path ts) =
     (case strip_common bs ts of (b, t) \<Rightarrow> Some (Join (replicate (length b) ''..'' @ t) ''/''))"
proof -
  have hd: "hd (fst (strip_common bs ts)) \<noteq> ''..''" if "fst (strip_common bs ts) \<noteq> []"
  proof -
    from that have "hd (fst (strip_common bs ts)) \<in> set bs"
      using strip_common_parts [of bs ts] by (metis in_set_conv_decomp hd_Cons_tl)
    with assms(1) show ?thesis by (auto simp: list_all_iff proper_def)
  qed
  have "abs_path bs \<noteq> ''.''" by (simp add: abs_path_def)
  with assms hd show ?thesis
    by (auto simp: Rel_def Let_def Clean_abs_path abs_path_inject split: prod.split)
qed

lemma replicate_dots_prefix:
  assumes "n \<noteq> 0"
  shows "Join (replicate n ''..'' @ t) ''/'' = ''..'' \<or> HasPrefix (Join (replicate n ''..'' @ t) ''/'') ''../''"
proof -
  obtain m where "n = Suc m" using assms by (cases n) auto
  then show ?thesis by (cases "replicate m ''..'' @ t") (auto simp: HasPrefix_def)
qed

end
