(* ===== verification/Go_Http.thy ===== *)
theory Go_Http
  imports Go_Json Go_Path
begin

text \<open>
  The part of Go's \<open>net/http\<close> and \<open>net/http/httputil\<close> that kubebox uses: headers under
  canonical keys, requests and responses as the handlers see them, the dispatch of
  \<open>ServeMux\<close>, bounded reading of a body, and what \<open>ReverseProxy\<close> does to the headers of
  the request it forwards.
\<close>

section \<open>Headers\<close>

type_synonym Header = "string \<rightharpoonup> string list"

definition ascii_upper :: "char \<Rightarrow> char" where
  "ascii_upper c = (let b = of_char c :: nat in if 97 \<le> b \<and> b \<le> 122 then char_of (b - 32) else c)"

definition ascii_lower :: "char \<Rightarrow> char" where
  "ascii_lower c = (let b = of_char c :: nat in if 65 \<le> b \<and> b \<le> 90 then char_of (b + 32) else c)"

text \<open>\<open>CanonicalHeaderKey\<close> of a valid header name.\<close>

fun canonical_from :: "bool \<Rightarrow> string \<Rightarrow> string" where
  "canonical_from up [] = []"
| "canonical_from up (c # s) =
     (if up then ascii_upper c else ascii_lower c) # canonical_from (c = CHR ''-'') s"

definition CanonicalHeaderKey :: "string \<Rightarrow> string" where
  "CanonicalHeaderKey k = canonical_from True k"

definition Header_Values :: "Header \<Rightarrow> string \<Rightarrow> string list" where
  "Header_Values h k = (case h (CanonicalHeaderKey k) of None \<Rightarrow> [] | Some vs \<Rightarrow> vs)"

definition Header_Get :: "Header \<Rightarrow> string \<Rightarrow> string" where
  "Header_Get h k = (case Header_Values h k of [] \<Rightarrow> [] | v # _ \<Rightarrow> v)"

definition Header_Set :: "Header \<Rightarrow> string \<Rightarrow> string \<Rightarrow> Header" where
  "Header_Set h k v = h(CanonicalHeaderKey k \<mapsto> [v])"

definition Header_Del :: "Header \<Rightarrow> string \<Rightarrow> Header" where
  "Header_Del h k = h(CanonicalHeaderKey k := None)"

lemmas header_defs = Header_Values_def Header_Get_def Header_Set_def Header_Del_def

lemma Header_Get_Set: "Header_Get (Header_Set h k v) k' = (if CanonicalHeaderKey k' = CanonicalHeaderKey k then v else Header_Get h k')"
  by (simp add: header_defs)

lemma Header_Values_Set:
  "Header_Values (Header_Set h k v) k' = (if CanonicalHeaderKey k' = CanonicalHeaderKey k then [v] else Header_Values h k')"
  by (simp add: header_defs)

lemma Header_Values_Del:
  "Header_Values (Header_Del h k) k' = (if CanonicalHeaderKey k' = CanonicalHeaderKey k then [] else Header_Values h k')"
  by (simp add: header_defs)

section \<open>Requests and responses\<close>

record URL =
  u_Scheme :: string
  u_User :: "string option"
  u_Host :: string
  u_Path :: string
  u_RawQuery :: string
  u_Fragment :: string

record Request =
  rq_Method :: string
  rq_Path :: string \<comment> \<open>\<open>URL.Path\<close>, decoded\<close>
  rq_EscapedPath :: string
  rq_RawQuery :: string
  rq_Query :: "string \<rightharpoonup> string list" \<comment> \<open>\<open>URL.Query()\<close>\<close>
  rq_Header :: Header
  rq_Body :: string \<comment> \<open>the bytes that can be read\<close>
  rq_BodyErr :: bool \<comment> \<open>reading fails after them instead of ending\<close>
  rq_ClientIP :: "string option" \<comment> \<open>the host of \<open>RemoteAddr\<close>\<close>

record Response =
  rs_Status :: int
  rs_ContentType :: string
  rs_Body :: string

definition StatusOK :: int where "StatusOK = 200"
definition StatusCreated :: int where "StatusCreated = 201"
definition StatusAccepted :: int where "StatusAccepted = 202"
definition StatusBadRequest :: int where "StatusBadRequest = 400"
definition StatusUnauthorized :: int where "StatusUnauthorized = 401"
definition StatusForbidden :: int where "StatusForbidden = 403"
definition StatusNotFound :: int where "StatusNotFound = 404"
definition StatusMethodNotAllowed :: int where "StatusMethodNotAllowed = 405"
definition StatusConflict :: int where "StatusConflict = 409"
definition StatusTooManyRequests :: int where "StatusTooManyRequests = 429"
definition StatusInternalServerError :: int where "StatusInternalServerError = 500"
definition StatusBadGateway :: int where "StatusBadGateway = 502"
definition StatusServiceUnavailable :: int where "StatusServiceUnavailable = 503"

lemmas status_defs = StatusOK_def StatusCreated_def StatusAccepted_def StatusBadRequest_def
  StatusUnauthorized_def StatusForbidden_def StatusNotFound_def StatusMethodNotAllowed_def
  StatusConflict_def StatusTooManyRequests_def StatusInternalServerError_def StatusBadGateway_def
  StatusServiceUnavailable_def

text \<open>
  The \<open>writeJSON\<close> every package has: the status, the content type, and the value with
  the newline the encoder appends. The value is given encoded.
\<close>

definition writeJSON :: "int \<Rightarrow> string \<Rightarrow> Response" where
  "writeJSON status value =
     \<lparr>rs_Status = status, rs_ContentType = ''application/json'', rs_Body = value @ [CHR 0x0A]\<rparr>"

definition json_field :: "string \<Rightarrow> string \<Rightarrow> string" where
  \<comment> \<open>a map with one entry\<close>
  "json_field k v = json_object [(k, json_string v)]"

definition jsonError :: "int \<Rightarrow> string \<Rightarrow> Response" where
  "jsonError status message = writeJSON status (json_field ''error'' message)"

lemma writeJSON_Status [simp]: "rs_Status (writeJSON st v) = st"
  by (simp add: writeJSON_def)

lemma jsonError_Status [simp]: "rs_Status (jsonError st m) = st"
  by (simp add: jsonError_def)

text \<open>\<open>io.ReadAll(io.LimitReader(r.Body, n))\<close>; \<open>None\<close> is a read error.\<close>

definition readLimited :: "nat \<Rightarrow> Request \<Rightarrow> string option" where
  "readLimited n r =
     (if rq_BodyErr r \<and> length (rq_Body r) < n then None else Some (take n (rq_Body r)))"

definition Query_Get :: "Request \<Rightarrow> string \<Rightarrow> string" where
  "Query_Get r k = (case rq_Query r k of Some (v # _) \<Rightarrow> v | _ \<Rightarrow> [])"

section \<open>ServeMux\<close>

definition cleanPath :: "string \<Rightarrow> string" where
  "cleanPath p =
     (if p = [] then ''/''
      else
        let p = (if hd p = CHR ''/'' then p else CHR ''/'' # p);
            np = Clean p
        in if last p = CHR ''/'' \<and> np \<noteq> ''/'' then np @ ''/'' else np)"

datatype mux_result = Dispatch string | MuxRedirect string | MuxNotFound

text \<open>\<open>url.PathUnescape\<close>, \<open>None\<close> for a broken escape; the multiplexer keeps such a segment as it is.\<close>

definition unhex :: "char \<Rightarrow> nat option" where
  "unhex c =
     (let b = of_char c :: nat in
      if 48 \<le> b \<and> b \<le> 57 then Some (b - 48)
      else if 97 \<le> b \<and> b \<le> 102 then Some (b - 87)
      else if 65 \<le> b \<and> b \<le> 70 then Some (b - 55)
      else None)"

fun PathUnescape :: "string \<Rightarrow> string option" where
  "PathUnescape [] = Some []"
| "PathUnescape (c # s) =
     (if c \<noteq> CHR ''%'' then map_option ((#) c) (PathUnescape s)
      else (case s of
              a # b # t \<Rightarrow>
                (case (unhex a, unhex b) of
                   (Some x, Some y) \<Rightarrow> map_option ((#) (char_of (16 * x + y))) (PathUnescape t)
                 | _ \<Rightarrow> None)
            | _ \<Rightarrow> None))"

definition pathUnescape :: "string \<Rightarrow> string" where
  "pathUnescape s = (case PathUnescape s of None \<Rightarrow> s | Some t \<Rightarrow> t)"

text \<open>
  The segments of a path, each unescaped on its own; a slash at the end is a segment. In a
  pattern it stands for any rest of the path. The most specific pattern wins, which here is
  the longest. A path that is not clean is redirected.
\<close>

function mux_segments :: "string \<Rightarrow> string list" where
  "mux_segments path =
     (if path = [] then []
      else if path = ''/'' then [''/'']
      else pathUnescape (takeWhile (\<lambda>c. c \<noteq> CHR ''/'') (tl path)) # mux_segments (dropWhile (\<lambda>c. c \<noteq> CHR ''/'') (tl path)))"
  by pat_completeness auto
termination
proof (relation "measure length")
  fix path :: string
  assume "path \<noteq> []"
  then show "(dropWhile (\<lambda>c. c \<noteq> CHR ''/'') (tl path), path) \<in> measure length"
    using length_dropWhile_le [of "\<lambda>c. c \<noteq> CHR ''/''" "tl path"] by (cases path) auto
qed simp

declare mux_segments.simps [simp del]

definition mux_matches :: "string \<Rightarrow> string \<Rightarrow> bool" where
  "mux_matches pat path \<longleftrightarrow>
     (let ps = mux_segments pat; xs = mux_segments path in
      if last pat = CHR ''/'' then length ps \<le> length xs \<and> take (length ps - 1) xs = butlast ps
      else xs = ps)"

definition mux_match :: "string list \<Rightarrow> string \<Rightarrow> string option" where
  "mux_match pats path =
     (let ms = filter (\<lambda>p. mux_matches p path) pats in
      fold (\<lambda>p best. case best of None \<Rightarrow> Some p | Some b \<Rightarrow> if length b < length p then Some p else best) ms None)"

definition ServeMux :: "string list \<Rightarrow> Request \<Rightarrow> mux_result" where
  "ServeMux pats r =
     (let path = (if rq_Method r = ''CONNECT'' then rq_EscapedPath r else cleanPath (rq_EscapedPath r)) in
      if path \<noteq> rq_EscapedPath r then MuxRedirect path
      else (case mux_match pats path of None \<Rightarrow> MuxNotFound | Some p \<Rightarrow> Dispatch p))"

text \<open>What a multiplexer answers.\<close>

datatype served = Served Response | MovedPermanently string | PageNotFound

lemma mux_match_pattern:
  assumes "mux_match pats path = Some p"
  shows "p \<in> set pats"
proof -
  have "fold (\<lambda>p best. case best of None \<Rightarrow> Some p | Some b \<Rightarrow> if length b < length p then Some p else best) ms best = Some p \<Longrightarrow>
      p \<in> set ms \<or> best = Some p" for ms best
    by (induction ms arbitrary: best) (fastforce split: option.splits if_splits)+
  from this [of _ None] assms show ?thesis by (fastforce simp: mux_match_def Let_def)
qed

lemma ServeMux_pattern: "ServeMux pats r = Dispatch p \<Longrightarrow> p \<in> set pats"
  by (auto simp: ServeMux_def Let_def split: if_splits option.splits dest: mux_match_pattern)

text \<open>Segments without escapes are taken as they are.\<close>

lemma pathUnescape_plain: "CHR ''%'' \<notin> set s \<Longrightarrow> pathUnescape s = s"
proof -
  have "CHR ''%'' \<notin> set s \<Longrightarrow> PathUnescape s = Some s" by (induction s rule: PathUnescape.induct) auto
  then show "CHR ''%'' \<notin> set s \<Longrightarrow> pathUnescape s = s" by (simp add: pathUnescape_def)
qed

lemma mux_segments_Nil [simp]: "mux_segments [] = []"
  by (simp add: mux_segments.simps)

lemma mux_segments_segment:
  assumes "CHR ''/'' \<notin> set seg" and "CHR ''%'' \<notin> set seg" and "seg \<noteq> []" and "rest = [] \<or> hd rest = CHR ''/''"
  shows "mux_segments (CHR ''/'' # seg @ rest) = seg # mux_segments rest"
proof -
  have "takeWhile (\<lambda>c. c \<noteq> CHR ''/'') (seg @ rest) = seg" "dropWhile (\<lambda>c. c \<noteq> CHR ''/'') (seg @ rest) = rest"
    using assms(1,4) by (cases rest; auto simp: takeWhile_append dropWhile_append takeWhile_eq_all_conv)+
  then show ?thesis
    using assms(2,3) by (simp add: mux_segments.simps [of "CHR ''/'' # seg @ rest"] pathUnescape_plain)
qed

lemma mux_segments_plain:
  "\<forall>c \<in> set cs. c \<noteq> [] \<and> CHR ''/'' \<notin> set c \<and> CHR ''%'' \<notin> set c \<Longrightarrow> mux_segments (concat (map ((#) (CHR ''/'')) cs)) = cs"
proof (induction cs)
  case (Cons c cs)
  have "concat (map ((#) (CHR ''/'')) cs) = [] \<or> hd (concat (map ((#) (CHR ''/'')) cs)) = CHR ''/''" by (cases cs) simp_all
  with Cons mux_segments_segment [of c "concat (map ((#) (CHR ''/'')) cs)"] show ?case by simp
qed simp

section \<open>ReverseProxy\<close>

definition TrimString :: "string \<Rightarrow> string" where
  \<comment> \<open>\<open>textproto.TrimString\<close>: space, tab, CR and LF\<close>
  "TrimString s =
     (let sp = (\<lambda>c. c = CHR '' '' \<or> c = CHR 0x09 \<or> c = CHR 0x0A \<or> c = CHR 0x0D)
      in rev (dropWhile sp (rev (dropWhile sp s))))"

definition connectionTokens :: "Header \<Rightarrow> string list" where
  "connectionTokens h =
     filter (\<lambda>t. t \<noteq> []) (map TrimString (concat (map (\<lambda>v. Split v (CHR '','')) (Header_Values h ''Connection''))))"

definition hopHeaders :: "string list" where
  "hopHeaders = [''Connection'', ''Proxy-Connection'', ''Keep-Alive'', ''Proxy-Authenticate'',
     ''Proxy-Authorization'', ''Te'', ''Trailer'', ''Transfer-Encoding'', ''Upgrade'']"

definition removeHopByHopHeaders :: "Header \<Rightarrow> Header" where
  "removeHopByHopHeaders h = fold (\<lambda>k h. Header_Del h k) (connectionTokens h @ hopHeaders) h"

definition hasToken :: "string list \<Rightarrow> string \<Rightarrow> bool" where
  "hasToken vs tok \<longleftrightarrow>
     list_ex (\<lambda>t. map ascii_lower (TrimString t) = map ascii_lower tok) (concat (map (\<lambda>v. Split v (CHR '','')) vs))"

definition upgradeType :: "Header \<Rightarrow> string" where
  "upgradeType h =
     (if hasToken (Header_Values h ''Connection'') ''Upgrade'' then Header_Get h ''Upgrade'' else [])"

text \<open>The headers of the forwarded request, from those the director left.\<close>

definition forwardHeaders :: "Header \<Rightarrow> string option \<Rightarrow> Header" where
  "forwardHeaders h clientIP =
     (let upg = upgradeType h;
          te = hasToken (Header_Values h ''Te'') ''trailers'';
          h = removeHopByHopHeaders h;
          h = (if te then Header_Set h ''Te'' ''trailers'' else h);
          h = (if upg \<noteq> [] then Header_Set (Header_Set h ''Connection'' ''Upgrade'') ''Upgrade'' upg else h);
          h = (case clientIP of
                 None \<Rightarrow> h
               | Some ip \<Rightarrow>
                   let prior = Header_Values h ''X-Forwarded-For'' in
                   Header_Set h ''X-Forwarded-For'' (if prior = [] then ip else Join prior '', '' @ '', '' @ ip))
      in if h ''User-Agent'' = None then Header_Set h ''User-Agent'' [] else h)"

lemma canonical_consts:
  "CanonicalHeaderKey ''Authorization'' = ''Authorization''"
  "CanonicalHeaderKey ''X-Kubebox-Sandbox-ID'' = ''X-Kubebox-Sandbox-Id''"
  "CanonicalHeaderKey ''X-Kubebox-Scope'' = ''X-Kubebox-Scope''"
  "CanonicalHeaderKey ''X-Kubebox-Admin-Token'' = ''X-Kubebox-Admin-Token''"
  "CanonicalHeaderKey ''X-Forwarded-For'' = ''X-Forwarded-For''"
  "CanonicalHeaderKey ''Connection'' = ''Connection''"
  "CanonicalHeaderKey ''Upgrade'' = ''Upgrade''"
  "CanonicalHeaderKey ''Te'' = ''Te''"
  "CanonicalHeaderKey ''User-Agent'' = ''User-Agent''"
  "CanonicalHeaderKey ''Idempotency-Key'' = ''Idempotency-Key''"
  "CanonicalHeaderKey ''X-Owner-ID'' = ''X-Owner-Id''"
  "map CanonicalHeaderKey hopHeaders = hopHeaders"
  by code_simp+

text \<open>Removing hop-by-hop headers removes exactly the listed keys.\<close>

lemma fold_Header_Del: "fold (\<lambda>k h. Header_Del h k) ks h x = (if x \<in> CanonicalHeaderKey ` set ks then None else h x)"
  by (induction ks arbitrary: h) (auto simp: Header_Del_def)

definition dropped :: "Header \<Rightarrow> string \<Rightarrow> bool" where
  "dropped h k \<longleftrightarrow> k \<in> CanonicalHeaderKey ` set (connectionTokens h) \<or> k \<in> set hopHeaders"

lemma removeHopByHopHeaders_eq: "removeHopByHopHeaders h k = (if dropped h k then None else h k)"
proof -
  have "CanonicalHeaderKey ` set hopHeaders = set hopHeaders"
    using canonical_consts(12) by (metis set_map)
  then show ?thesis by (auto simp: removeHopByHopHeaders_def fold_Header_Del dropped_def)
qed

text \<open>Any other header is passed on unless the client's \<open>Connection\<close> header names it.\<close>

lemma forwardHeaders_other:
  assumes "k \<notin> {''Te'', ''Connection'', ''Upgrade'', ''X-Forwarded-For'', ''User-Agent''}"
  shows "forwardHeaders h ip k = (if dropped h k then None else h k)"
  using assms
  by (auto simp: forwardHeaders_def Let_def header_defs canonical_consts removeHopByHopHeaders_eq split: option.splits)

end
