(* ===== verification/Go_Json_Decode.thy ===== *)
theory Go_Json_Decode
  imports Go_Json Kubebox_Prelude
begin

text \<open>
  The decoder of Go's \<open>encoding/json\<close>: \<open>json.Unmarshal\<close> and the first value of a
  \<open>json.Decoder\<close>, for structs of strings, integers, string slices and string maps.
  The text is parsed to a \<open>json\<close> value with the scanner's grammar and its nesting
  limit; a struct is then filled member by member. The last section shows that the
  decoder reads back what the encoder of \<open>Go_Json\<close> writes.
\<close>

datatype json =
    JNull
  | JBool bool
  | JNum string \<comment> \<open>the literal\<close>
  | JStr string
  | JArr "json list"
  | JObj "(string \<times> json) list"

section \<open>Strings\<close>

abbreviation quote :: char where "quote \<equiv> CHR 0x22"

abbreviation backslash :: char where "backslash \<equiv> CHR 0x5C"

definition utf8_encode :: "nat \<Rightarrow> string" where
  "utf8_encode r =
     (if r < 0x80 then [char_of r]
      else if r < 0x800 then [char_of (0xC0 + r div 64), char_of (0x80 + r mod 64)]
      else if r < 0x10000 then [char_of (0xE0 + r div 4096), char_of (0x80 + r div 64 mod 64), char_of (0x80 + r mod 64)]
      else [char_of (0xF0 + r div 262144), char_of (0x80 + r div 4096 mod 64), char_of (0x80 + r div 64 mod 64),
            char_of (0x80 + r mod 64)])"

definition replacement :: nat where "replacement = 0xFFFD"

definition hex_value :: "char \<Rightarrow> nat option" where
  "hex_value c =
     (let b = of_char c :: nat in
      if 48 \<le> b \<and> b \<le> 57 then Some (b - 48)
      else if 97 \<le> b \<and> b \<le> 102 then Some (b - 87)
      else if 65 \<le> b \<and> b \<le> 70 then Some (b - 55)
      else None)"

definition u4 :: "string \<Rightarrow> (nat \<times> string) option" where
  "u4 s =
     (case s of
        a # b # c # d # r \<Rightarrow>
          (case (hex_value a, hex_value b, hex_value c, hex_value d) of
             (Some a, Some b, Some c, Some d) \<Rightarrow> Some (((a * 16 + b) * 16 + c) * 16 + d, r)
           | _ \<Rightarrow> None)
      | _ \<Rightarrow> None)"

text \<open>
  A \<open>backslash-u\<close> escape: a high surrogate followed by an escaped low surrogate is one
  rune; any other surrogate is the replacement character.
\<close>

definition u_escape :: "string \<Rightarrow> (string \<times> string) option" where
  "u_escape s =
     (case u4 s of
        None \<Rightarrow> None
      | Some (v, r) \<Rightarrow>
          if v < 0xD800 \<or> 0xDFFF < v then Some (utf8_encode v, r)
          else (case r of
                  b # u # r' \<Rightarrow>
                    if b = backslash \<and> u = CHR ''u'' then
                      (case u4 r' of
                         Some (v', r'') \<Rightarrow>
                           if v < 0xDC00 \<and> 0xDC00 \<le> v' \<and> v' \<le> 0xDFFF
                           then Some (utf8_encode (0x10000 + (v - 0xD800) * 1024 + (v' - 0xDC00)), r'')
                           else Some (utf8_encode replacement, r)
                       | None \<Rightarrow> Some (utf8_encode replacement, r))
                    else Some (utf8_encode replacement, r)
                | _ \<Rightarrow> Some (utf8_encode replacement, r)))"

definition json_escaped :: "string \<Rightarrow> (string \<times> string) option" where
  \<comment> \<open>what follows the backslash\<close>
  "json_escaped s =
     (case s of
        [] \<Rightarrow> None
      | e # r \<Rightarrow>
          if e = quote \<or> e = backslash \<or> e = CHR ''/'' then Some ([e], r)
          else if e = CHR ''b'' then Some ([CHR 0x08], r)
          else if e = CHR ''f'' then Some ([CHR 0x0C], r)
          else if e = CHR ''n'' then Some ([CHR 0x0A], r)
          else if e = CHR ''r'' then Some ([CHR 0x0D], r)
          else if e = CHR ''t'' then Some ([CHR 0x09], r)
          else if e = CHR ''u'' then u_escape r
          else None)"

lemma u4_shorter: "u4 s = Some (v, r) \<Longrightarrow> length r < length s"
  by (auto simp: u4_def split: list.splits option.splits)

lemma u_escape_shorter: "u_escape s = Some (b, r) \<Longrightarrow> length r < length s"
  by (auto simp: u_escape_def dest!: u4_shorter split: option.splits prod.splits if_splits list.splits)

lemma json_escaped_shorter: "json_escaped s = Some (b, r) \<Longrightarrow> length r < length s"
  by (auto simp: json_escaped_def dest: u_escape_shorter split: list.splits if_splits)

abbreviation emit :: "string \<Rightarrow> (string \<times> string) option \<Rightarrow> (string \<times> string) option" where
  "emit b \<equiv> map_option (\<lambda>(t, r). (b @ t, r))"

text \<open>The characters of a string up to its closing quote, decoded, and the rest.\<close>

function json_chars :: "string \<Rightarrow> (string \<times> string) option" where
  "json_chars [] = None"
| "json_chars (c # s) =
     (if c = quote then Some ([], s)
      else if c = backslash then
        (case json_escaped s of None \<Rightarrow> None | Some (b, r) \<Rightarrow> emit b (json_chars r))
      else if of_char c < (0x20 :: nat) then None
      else if of_char c < (0x80 :: nat) then emit [c] (json_chars s)
      else let n = utf8_size (c # s) in
        if n = 0 then emit (utf8_encode replacement) (json_chars s)
        else emit (take n (c # s)) (json_chars (drop (n - 1) s)))"
  by pat_completeness auto
termination
  by (relation "measure length") (auto dest: json_escaped_shorter)

lemma json_chars_shorter: "json_chars s = Some (t, r) \<Longrightarrow> length r < length s"
proof (induction s arbitrary: t rule: json_chars.induct)
  case (2 c s)
  show ?case
  proof (cases "c = backslash")
    case True
    with 2 show ?thesis
      by (auto split: option.splits dest!: json_escaped_shorter) fastforce
  next
    case False
    then show ?thesis
      using 2 by (auto simp: Let_def split: if_splits dest: less_le_trans) fastforce+
  qed
qed simp

section \<open>Numbers\<close>

definition digitp :: "char \<Rightarrow> bool" where
  "digitp c \<longleftrightarrow> 48 \<le> (of_char c :: nat) \<and> (of_char c :: nat) \<le> 57"

definition json_digits :: "string \<Rightarrow> (string \<times> string) option" where
  \<comment> \<open>at least one digit\<close>
  "json_digits s = (let d = takeWhile digitp s in if d = [] then None else Some (d, drop (length d) s))"

definition json_natural :: "string \<Rightarrow> (string \<times> string) option" where
  \<comment> \<open>a zero, or digits with no leading zero\<close>
  "json_natural s =
     (case s of
        [] \<Rightarrow> None
      | c # r \<Rightarrow> if c = CHR ''0'' then Some ([c], r) else json_digits s)"

definition json_fraction :: "string \<Rightarrow> (string \<times> string) option" where
  "json_fraction s =
     (case s of
        c # r \<Rightarrow> if c = CHR ''.'' then emit [c] (json_digits r) else Some ([], s)
      | [] \<Rightarrow> Some ([], s))"

definition json_exponent :: "string \<Rightarrow> (string \<times> string) option" where
  "json_exponent s =
     (case s of
        c # r \<Rightarrow>
          if c = CHR ''e'' \<or> c = CHR ''E'' then
            (case r of
               g # r' \<Rightarrow> if g = CHR ''+'' \<or> g = CHR ''-'' then emit [c, g] (json_digits r') else emit [c] (json_digits r)
             | [] \<Rightarrow> None)
          else Some ([], s)
      | [] \<Rightarrow> Some ([], s))"

definition json_sign :: "string \<Rightarrow> string \<times> string" where
  "json_sign s = (case s of c # r \<Rightarrow> if c = CHR ''-'' then ([c], r) else ([], s) | [] \<Rightarrow> ([], s))"

definition json_number :: "string \<Rightarrow> (string \<times> string) option" where
  "json_number s =
     (let (sign, s) = json_sign s in
      case json_natural s of
        None \<Rightarrow> None
      | Some (i, s) \<Rightarrow>
          (case json_fraction s of
             None \<Rightarrow> None
           | Some (f, s) \<Rightarrow>
               (case json_exponent s of
                  None \<Rightarrow> None
                | Some (e, s) \<Rightarrow> Some (sign @ i @ f @ e, s))))"

section \<open>Values\<close>

definition spacep :: "char \<Rightarrow> bool" where
  "spacep c \<longleftrightarrow> c = CHR '' '' \<or> c = CHR 0x09 \<or> c = CHR 0x0D \<or> c = CHR 0x0A"

abbreviation skip_ws :: "string \<Rightarrow> string" where
  "skip_ws \<equiv> dropWhile spacep"

definition expect :: "string \<Rightarrow> 'a \<Rightarrow> string \<Rightarrow> ('a \<times> string) option" where
  "expect w v s = (if HasPrefix s w then Some (v, TrimPrefix s w) else None)"

definition max_depth :: int where "max_depth = 10000"

text \<open>
  \<open>json_value\<close> takes the nesting depth and fuel. Every two calls consume a character, so
  twice the length of the text is fuel enough: the lemma \<open>json_value_fuel\<close> below shows that
  more fuel never changes the result.
\<close>

fun json_value :: "nat \<Rightarrow> int \<Rightarrow> string \<Rightarrow> (json \<times> string) option"
  and json_elements :: "nat \<Rightarrow> int \<Rightarrow> string \<Rightarrow> (json list \<times> string) option"
  and json_members :: "nat \<Rightarrow> int \<Rightarrow> string \<Rightarrow> ((string \<times> json) list \<times> string) option" where
  "json_value 0 d s = None"
| "json_value (Suc n) d s =
     (case skip_ws s of
        [] \<Rightarrow> None
      | c # r \<Rightarrow>
          if c = CHR ''{'' then
            if max_depth \<le> d then None
            else if HasPrefix (skip_ws r) ''}'' then Some (JObj [], tl (skip_ws r))
            else map_option (\<lambda>(ms, r). (JObj ms, r)) (json_members n (d + 1) r)
          else if c = CHR ''['' then
            if max_depth \<le> d then None
            else if HasPrefix (skip_ws r) '']'' then Some (JArr [], tl (skip_ws r))
            else map_option (\<lambda>(xs, r). (JArr xs, r)) (json_elements n (d + 1) r)
          else if c = quote then map_option (\<lambda>(t, r). (JStr t, r)) (json_chars r)
          else if c = CHR ''t'' then expect ''true'' (JBool True) (c # r)
          else if c = CHR ''f'' then expect ''false'' (JBool False) (c # r)
          else if c = CHR ''n'' then expect ''null'' JNull (c # r)
          else map_option (\<lambda>(l, r). (JNum l, r)) (json_number (c # r)))"
| "json_elements 0 d s = None"
| "json_elements (Suc n) d s =
     (case json_value n d s of
        None \<Rightarrow> None
      | Some (v, r) \<Rightarrow>
          (case skip_ws r of
             [] \<Rightarrow> None
           | c # r \<Rightarrow>
               if c = CHR '','' then map_option (\<lambda>(vs, r). (v # vs, r)) (json_elements n d r)
               else if c = CHR '']'' then Some ([v], r)
               else None))"
| "json_members 0 d s = None"
| "json_members (Suc n) d s =
     (case skip_ws s of
        [] \<Rightarrow> None
      | q # r \<Rightarrow>
          if q \<noteq> quote then None
          else (case json_chars r of
                  None \<Rightarrow> None
                | Some (k, r) \<Rightarrow>
                    (case skip_ws r of
                       [] \<Rightarrow> None
                     | c # r \<Rightarrow>
                         if c \<noteq> CHR '':'' then None
                         else (case json_value n d r of
                                 None \<Rightarrow> None
                               | Some (v, r) \<Rightarrow>
                                   (case skip_ws r of
                                      [] \<Rightarrow> None
                                    | c # r \<Rightarrow>
                                        if c = CHR '','' then map_option (\<lambda>(ms, r). ((k, v) # ms, r)) (json_members n d r)
                                        else if c = CHR ''}'' then Some ([(k, v)], r)
                                        else None)))))"

definition json_first :: "string \<Rightarrow> json option" where
  \<comment> \<open>the first value of a stream, \<open>json.Decoder\<close>\<close>
  "json_first s = map_option fst (json_value (2 * length s + 2) 0 s)"

definition json_parse :: "string \<Rightarrow> json option" where
  \<comment> \<open>a whole text, \<open>json.Unmarshal\<close>\<close>
  "json_parse s =
     (case json_value (2 * length s + 2) 0 s of
        Some (v, r) \<Rightarrow> if skip_ws r = [] then Some v else None
      | None \<Rightarrow> None)"


section \<open>Structs\<close>

text \<open>
  A member sets the field whose name it equals up to \<open>foldName\<close>: ASCII letters by their
  upper case, with the two other runes that fold to an ASCII letter, the long s and the
  Kelvin sign. Unknown members are ignored, a repeated member sets its field again, and
  a value of the wrong type makes the whole decoding fail.
\<close>

definition upper :: "char \<Rightarrow> char" where
  "upper c = (let b = of_char c :: nat in if 97 \<le> b \<and> b \<le> 122 then char_of (b - 32) else c)"

fun fold_name :: "string \<Rightarrow> string" where
  "fold_name [] = []"
| "fold_name (c # r) =
     (if HasPrefix (c # r) [CHR 0xC5, CHR 0xBF] then CHR ''S'' # fold_name (drop 1 r)
      else if HasPrefix (c # r) [CHR 0xE2, CHR 0x84, CHR 0xAA] then CHR ''K'' # fold_name (drop 2 r)
      else upper c # fold_name r)"

declare fold_name.simps [simp del]

type_synonym 'a setter = "json \<Rightarrow> 'a \<Rightarrow> 'a option"

fun set_field :: "(string \<times> 'a setter) list \<Rightarrow> string \<Rightarrow> 'a setter" where
  "set_field [] key v x = Some x"
| "set_field ((name, setter) # fs) key v x =
     (if fold_name key = fold_name name then setter v x else set_field fs key v x)"

fun set_members :: "(string \<times> 'a setter) list \<Rightarrow> (string \<times> json) list \<Rightarrow> 'a \<Rightarrow> 'a option" where
  "set_members fs [] x = Some x"
| "set_members fs ((k, v) # ms) x =
     (case set_field fs k v x of None \<Rightarrow> None | Some y \<Rightarrow> set_members fs ms y)"

definition decode_struct :: "(string \<times> 'a setter) list \<Rightarrow> 'a \<Rightarrow> json \<Rightarrow> 'a option" where
  "decode_struct fs zero v =
     (case v of JObj ms \<Rightarrow> set_members fs ms zero | JNull \<Rightarrow> Some zero | _ \<Rightarrow> None)"

definition Unmarshal :: "(string \<times> 'a setter) list \<Rightarrow> 'a \<Rightarrow> string \<Rightarrow> 'a option" where
  "Unmarshal fs zero s = (case json_parse s of None \<Rightarrow> None | Some v \<Rightarrow> decode_struct fs zero v)"

definition Decode :: "(string \<times> 'a setter) list \<Rightarrow> 'a \<Rightarrow> string \<Rightarrow> 'a option" where
  "Decode fs zero s = (case json_first s of None \<Rightarrow> None | Some v \<Rightarrow> decode_struct fs zero v)"

text \<open>The values of fields; \<open>null\<close> leaves a string or an integer as it is.\<close>

definition decode_string :: "json \<Rightarrow> string \<Rightarrow> string option" where
  "decode_string v old = (case v of JStr t \<Rightarrow> Some t | JNull \<Rightarrow> Some old | _ \<Rightarrow> None)"

definition ParseInt64 :: "string \<Rightarrow> int option" where
  "ParseInt64 l =
     (let (sign, ds) = json_sign l;
          n = (if sign = [] then int (atoi ds) else - int (atoi ds))
      in if ds \<noteq> [] \<and> list_all digitp ds \<and> - (2 ^ 63) \<le> n \<and> n < 2 ^ 63 then Some n else None)"

definition decode_int :: "json \<Rightarrow> int \<Rightarrow> int option" where
  "decode_int v old = (case v of JNum l \<Rightarrow> ParseInt64 l | JNull \<Rightarrow> Some old | _ \<Rightarrow> None)"

text \<open>
  A slice is filled afresh (a \<open>null\<close> element is the empty string). Go reuses the old
  elements when the same member comes twice; that case is read as a fresh slice here.
\<close>

definition decode_strings :: "json \<Rightarrow> string list option" where
  "decode_strings v =
     (case v of JArr xs \<Rightarrow> those (map (\<lambda>x. decode_string x []) xs) | JNull \<Rightarrow> Some [] | _ \<Rightarrow> None)"

text \<open>A map is extended; \<open>null\<close> is the nil map.\<close>

fun put_members :: "(string \<times> json) list \<Rightarrow> (string, string) fmap \<Rightarrow> (string, string) fmap option" where
  "put_members [] m = Some m"
| "put_members ((k, v) # ms) m =
     (case decode_string v [] of None \<Rightarrow> None | Some t \<Rightarrow> put_members ms (fmupd k t m))"

definition decode_map :: "json \<Rightarrow> (string, string) fmap option \<Rightarrow> (string, string) fmap option option" where
  "decode_map v old =
     (case v of
        JObj ms \<Rightarrow> map_option Some (put_members ms (case old of None \<Rightarrow> fmempty | Some m \<Rightarrow> m))
      | JNull \<Rightarrow> Some None
      | _ \<Rightarrow> None)"

section \<open>Reading back what the encoder writes\<close>

function utf8_valid :: "string \<Rightarrow> bool" where
  "utf8_valid [] = True"
| "utf8_valid (c # s) = (let n = utf8_size (c # s) in n \<noteq> 0 \<and> utf8_valid (drop (n - 1) s))"
  by pat_completeness auto
termination
  by (relation "measure length") auto

declare utf8_valid.simps(2) [simp del]

lemma utf8_valid_ascii: "\<forall>c \<in> set s. of_char c < (0x80 :: nat) \<Longrightarrow> utf8_valid s"
  by (induction s) (simp_all add: utf8_valid.simps utf8_size_def Let_def)

lemma hex_value_digit: "d < 16 \<Longrightarrow> hex_value (''0123456789abcdef'' ! d) = Some d"
proof -
  assume "d < 16"
  then have "d \<in> set [0..<16]" by simp
  moreover have "list_all (\<lambda>d. hex_value (''0123456789abcdef'' ! d) = Some d) [0..<16]" by code_simp
  ultimately show ?thesis by (simp only: list_all_iff)
qed

lemma u4_hex2: "b < 256 \<Longrightarrow> u4 (CHR ''0'' # CHR ''0'' # hex2 b @ r) = Some (b, r)"
proof -
  assume b: "b < 256"
  then have "b div 16 < 16" "b mod 16 < 16" by auto
  moreover have "hex_value (CHR ''0'') = Some 0" by code_simp
  ultimately show ?thesis by (simp add: u4_def hex2_def hex_value_digit)
qed

lemma json_chars_u00:
  assumes "of_char c < (0x80 :: nat)"
  shows "json_chars (backslash # CHR ''u'' # CHR ''0'' # CHR ''0'' # hex2 (of_char c) @ t) = emit [c] (json_chars t)"
proof -
  have "u_escape (CHR ''0'' # CHR ''0'' # hex2 (of_char c) @ t) = Some ([c], t)"
    using assms u4_hex2 [of "of_char c" t] by (simp add: u_escape_def utf8_encode_def)
  then show ?thesis by (simp add: json_escaped_def)
qed


lemma json_chars_ascii:
  assumes a: "of_char c < (0x80 :: nat)"
  shows "json_chars (json_ascii c @ t) = emit [c] (json_chars t)"
proof -
  let ?b = "of_char c :: nat"
  have eq: "c = d \<longleftrightarrow> ?b = of_char d" for d by simp
  have ge: "\<not> ?b < 0x20 \<Longrightarrow> c \<notin> {CHR 0x08, CHR 0x09, CHR 0x0A, CHR 0x0C, CHR 0x0D}" by auto
  consider "c = backslash \<or> c = quote" | "c = CHR 0x08" | "c = CHR 0x0C" | "c = CHR 0x0A" | "c = CHR 0x0D" | "c = CHR 0x09"
    | "c \<notin> {CHR 0x08, CHR 0x09, CHR 0x0A, CHR 0x0C, CHR 0x0D}" "c \<noteq> backslash" "c \<noteq> quote"
      "?b < 0x20 \<or> c = CHR ''<'' \<or> c = CHR ''>'' \<or> c = CHR ''&''"
    | "\<not> ?b < 0x20" "c \<noteq> backslash" "c \<noteq> quote" "\<not> (c = CHR ''<'' \<or> c = CHR ''>'' \<or> c = CHR ''&'')"
    using ge by blast
  then show ?thesis
  proof cases
    case 7
    then have "json_ascii c = backslash # CHR ''u'' # CHR ''0'' # CHR ''0'' # hex2 ?b"
      unfolding eq by (auto simp: json_ascii_def Let_def eq)
    then show ?thesis using json_chars_u00 [OF a, of t] by simp
  next
    case 8
    then have "json_ascii c = [c]" by (auto simp: json_ascii_def Let_def)
    with 8 a show ?thesis by simp
  qed (auto simp: json_ascii_def json_escaped_def Let_def)
qed

lemma utf8_size_le: "utf8_size s \<le> length s"
proof -
  have "conts n s \<Longrightarrow> n \<le> length s" for n s
    by (induction n s rule: conts.induct) auto
  then show ?thesis
    by (auto simp: utf8_size_def utf8_lead_def split: list.splits option.splits prod.splits if_splits)
qed

lemma utf8_size_append:
  assumes "utf8_size s = n" and "n \<noteq> 0"
  shows "utf8_size (take n s @ r) = n"
proof -
  have conts: "conts n s \<Longrightarrow> conts n (take n s @ r)" for n s
    by (induction n s rule: conts.induct) auto
  from assms obtain c t where s: "s = c # t" by (cases s) (auto simp: utf8_size_def)
  show ?thesis
  proof (cases "of_char c < (0x80 :: nat)")
    case True
    with assms s show ?thesis by (auto simp: utf8_size_def)
  next
    case False
    with assms s obtain lo hi d t' where l: "utf8_lead (of_char c) = Some (n, lo, hi)" "t = d # t'"
      "cont lo hi d" "conts (n - 2) t'"
      by (auto simp: utf8_size_def split: option.splits list.splits if_splits)
    then have "2 \<le> n" by (auto simp: utf8_lead_def split: if_splits)
    then obtain k where "n = Suc (Suc k)" by (metis add_2_eq_Suc le_Suc_ex)
    with False s l conts [of "n - 2" t'] show ?thesis by (simp add: utf8_size_def)
  qed
qed

lemma json_chars_utf8:
  assumes size: "utf8_size (c # s) = n" and c: "\<not> of_char c < (0x80 :: nat)" and n: "n \<noteq> 0"
  shows "json_chars (take n (c # s) @ t) = emit (take n (c # s)) (json_chars t)"
proof -
  have w: "take n (c # s) = c # take (n - 1) s" using n by (simp add: take_Cons')
  have "n \<le> length (c # s)" using utf8_size_le [of "c # s"] size by simp
  then have "length (take (n - 1) s) = n - 1" by auto
  moreover have "utf8_size (c # take (n - 1) s @ t) = n" using utf8_size_append [OF size n, of t] w by simp
  moreover have "c \<noteq> quote" "c \<noteq> backslash" "\<not> of_char c < (0x20 :: nat)" using c by auto
  ultimately show ?thesis using c n unfolding w by (simp add: Let_def take_Cons')
qed

lemma json_chars_u2028:
  "json_chars (backslash # CHR ''u'' # CHR ''2'' # CHR ''0'' # CHR ''2'' # CHR ''8'' # t) =
     emit [CHR 0xE2, CHR 0x80, CHR 0xA8] (json_chars t)"
  "json_chars (backslash # CHR ''u'' # CHR ''2'' # CHR ''0'' # CHR ''2'' # CHR ''9'' # t) =
     emit [CHR 0xE2, CHR 0x80, CHR 0xA9] (json_chars t)"
proof -
  have "utf8_encode 0x2028 = [CHR 0xE2, CHR 0x80, CHR 0xA8]" "utf8_encode 0x2029 = [CHR 0xE2, CHR 0x80, CHR 0xA9]"
    by (simp_all add: utf8_encode_def char_of_def bit_0)
  then show "json_chars (backslash # CHR ''u'' # CHR ''2'' # CHR ''0'' # CHR ''2'' # CHR ''8'' # t) =
     emit [CHR 0xE2, CHR 0x80, CHR 0xA8] (json_chars t)"
    "json_chars (backslash # CHR ''u'' # CHR ''2'' # CHR ''0'' # CHR ''2'' # CHR ''9'' # t) =
     emit [CHR 0xE2, CHR 0x80, CHR 0xA9] (json_chars t)"
    by (simp_all add: json_escaped_def u_escape_def u4_def hex_value_def Let_def)
qed

lemma json_chars_ufffd:
  "json_chars (backslash # CHR ''u'' # CHR ''f'' # CHR ''f'' # CHR ''f'' # CHR ''d'' # t) =
     emit [CHR 0xEF, CHR 0xBF, CHR 0xBD] (json_chars t)"
proof -
  have "utf8_encode 0xFFFD = [CHR 0xEF, CHR 0xBF, CHR 0xBD]" by (simp add: utf8_encode_def char_of_def bit_0)
  then show ?thesis by (simp add: json_escaped_def u_escape_def u4_def hex_value_def Let_def)
qed

text \<open>What is left of a byte string: each byte that is not part of a character becomes \<open>U+FFFD\<close>.\<close>

function to_valid :: "string \<Rightarrow> string" where
  "to_valid [] = []"
| "to_valid (c # s) =
     (let n = utf8_size (c # s) in
      if n = 0 then [CHR 0xEF, CHR 0xBF, CHR 0xBD] @ to_valid s
      else take n (c # s) @ to_valid (drop (n - 1) s))"
  by pat_completeness auto
termination
  by (relation "measure length") auto

declare to_valid.simps(2) [simp del]

lemma to_valid_id: "utf8_valid s \<Longrightarrow> to_valid s = s"
proof (induction s rule: utf8_valid.induct)
  case (2 c s)
  define n where "n = utf8_size (c # s)"
  with 2 have n: "n \<noteq> 0" and "to_valid (drop (n - 1) s) = drop (n - 1) s"
    by (simp_all add: utf8_valid.simps Let_def)
  then have "to_valid (c # s) = take n (c # s) @ drop n (c # s)" by (simp add: to_valid.simps n_def [symmetric] drop_Cons')
  then show ?case by (simp only: append_take_drop_id)
qed simp

lemma json_chars_escape: "json_chars (json_escape s @ quote # r) = Some (to_valid s, r)"
proof (induction s rule: json_escape.induct)
  case (2 c s)
  show ?case
  proof (cases "of_char c < (0x80 :: nat)")
    case True
    then have "utf8_size (c # s) = 1" by (simp add: utf8_size_def)
    with 2 True show ?thesis by (simp add: json_chars_ascii to_valid.simps)
  next
    case False
    define n where "n = utf8_size (c # s)"
    show ?thesis
    proof (cases "n = 0")
      case True
      with False have "json_escape (c # s) = backslash # ''ufffd'' @ json_escape s" by (simp add: n_def)
      moreover have "json_chars (json_escape s @ quote # r) = Some (to_valid s, r)" using "2.IH"(2) False True by (simp add: n_def)
      ultimately show ?thesis using True by (simp only: append.simps json_chars_ufffd) (simp add: to_valid.simps n_def)
    next
      case n: False
      have IH: "json_chars (json_escape (drop (n - 1) s) @ quote # r) = Some (to_valid (drop (n - 1) s), r)"
        using "2.IH"(3-5) False n by (auto simp: n_def Let_def)
      have plain: "json_chars (take n (c # s) @ t) = emit (take n (c # s)) (json_chars t)" for t
        using False n by (rule json_chars_utf8 [OF n_def [symmetric]])
      obtain e where e: "json_escape (c # s) = e @ json_escape (drop (n - 1) s)"
        and rd: "\<And>t. json_chars (e @ t) = emit (take n (c # s)) (json_chars t)"
      proof (cases "take n (c # s) = [CHR 0xE2, CHR 0x80, CHR 0xA8]")
        case True
        show thesis
          by (rule that [of "backslash # ''u2028''"], use False n True in \<open>simp add: n_def [symmetric] Let_def\<close>)
            (simp only: True append.simps json_chars_u2028)
      next
        case no8: False
        show thesis
        proof (cases "take n (c # s) = [CHR 0xE2, CHR 0x80, CHR 0xA9]")
          case True
          show thesis
            by (rule that [of "backslash # ''u2029''"], use False n True in \<open>simp add: n_def [symmetric] Let_def\<close>)
              (simp only: True append.simps json_chars_u2028)
        next
          case no9: False
          show thesis
            by (rule that [of "take n (c # s)"], use False n no8 no9 in \<open>simp add: n_def [symmetric] Let_def\<close>)
              (rule plain)
        qed
      qed
      have "to_valid (c # s) = take n (c # s) @ to_valid (drop (n - 1) s)" using n by (simp add: to_valid.simps n_def [symmetric])
      then show ?thesis unfolding e by (simp only: append_assoc rd IH option.map prod.case)
    qed
  qed
qed simp

text \<open>
  \<open>encodes D e v\<close>: wherever a value may end, the parser reads \<open>v\<close> from the text \<open>e\<close>;
  \<open>D\<close> bounds the nesting of \<open>e\<close>.
\<close>

definition follow :: "string \<Rightarrow> bool" where
  "follow r \<longleftrightarrow> (case r of [] \<Rightarrow> True | c # _ \<Rightarrow> \<not> digitp c \<and> c \<notin> {CHR ''.'', CHR ''e'', CHR ''E''})"

definition encodes :: "int \<Rightarrow> string \<Rightarrow> json \<Rightarrow> bool" where
  "encodes D e v \<longleftrightarrow> e \<noteq> [] \<and>
     (\<forall>n d r. 2 * length e \<le> n \<longrightarrow> d + D \<le> max_depth \<longrightarrow> follow r \<longrightarrow> json_value n d (e @ r) = Some (v, r))"

lemma encodesD:
  "encodes D e v \<Longrightarrow> 2 * length e \<le> n \<Longrightarrow> d + D \<le> max_depth \<Longrightarrow> follow r \<Longrightarrow> json_value n d (e @ r) = Some (v, r)"
  by (simp add: encodes_def)

lemma spacep_simps [simp]:
  "\<not> spacep quote" "\<not> spacep (CHR ''{'')" "\<not> spacep (CHR ''}'')" "\<not> spacep (CHR ''['')" "\<not> spacep (CHR '']'')"
  "\<not> spacep (CHR '','')" "\<not> spacep (CHR '':'')" "\<not> spacep (CHR ''-'')"
  by (simp_all add: spacep_def)

lemma follow_simps [simp]: "follow []" "follow (CHR '','' # r)" "follow (CHR '']'' # r)" "follow (CHR ''}'' # r)"
  by (simp_all add: follow_def digitp_def)

lemma encodes_string_any: "encodes 0 (json_string s) (JStr (to_valid s))"
  unfolding encodes_def
proof (intro conjI allI impI)
  fix n d r assume "2 * length (json_string s) \<le> n"
  then obtain m where "n = Suc m" by (cases n) (auto simp: json_string_def)
  then show "json_value n d (json_string s @ r) = Some (JStr (to_valid s), r)"
    by (simp add: json_string_def json_chars_escape)
qed (simp add: json_string_def)

lemma encodes_string: "utf8_valid s \<Longrightarrow> encodes 0 (json_string s) (JStr s)"
  using encodes_string_any [of s] by (simp add: to_valid_id)

lemma digitp_digits: "c \<in> set ''0123456789'' \<Longrightarrow> digitp c"
  by (auto simp: digitp_def)

lemma itoa_digitp: "\<forall>c \<in> set (itoa n). digitp c"
  using itoa_digits digitp_digits by blast

lemma takeWhile_follow: "\<forall>c \<in> set ds. digitp c \<Longrightarrow> follow r \<Longrightarrow> takeWhile digitp (ds @ r) = ds"
  by (induction ds) (auto simp: follow_def split: list.splits)

lemma itoa_no_zero: "itoa n = CHR ''0'' # s \<Longrightarrow> n = 0 \<and> s = []"
proof (induction n arbitrary: s rule: itoa.induct)
  case (1 n)
  show ?case
  proof (cases "n < 10")
    case True
    moreover have "digit d = CHR ''0'' \<Longrightarrow> d < 10 \<Longrightarrow> d = 0" for d
      using undigit_digit [of d] undigit_digit [of 0] by (metis undigit_zero)
    ultimately show ?thesis using "1.prems" by (simp add: itoa.simps [of n])
  next
    case False
    then have e: "itoa (n div 10) @ [digit (n mod 10)] = CHR ''0'' # s" using "1.prems" by (simp add: itoa.simps [of n])
    then obtain t where "itoa (n div 10) = CHR ''0'' # t" by (cases "itoa (n div 10)") auto
    with 1 False show ?thesis by auto
  qed
qed

lemma json_natural_itoa: "follow r \<Longrightarrow> json_natural (itoa n @ r) = Some (itoa n, r)"
proof (cases "itoa n")
  case (Cons c s)
  assume f: "follow r"
  show ?thesis
  proof (cases "c = CHR ''0''")
    case True
    with Cons itoa_no_zero [of n s] show ?thesis by (simp add: json_natural_def)
  next
    case False
    have "takeWhile digitp (itoa n @ r) = itoa n" using itoa_digitp f by (rule takeWhile_follow)
    with False Cons show ?thesis by (simp add: json_natural_def json_digits_def Let_def)
  qed
qed simp

lemma json_sign_simps:
  "json_sign (CHR ''-'' # s) = (''-'', s)"
  "json_sign (itoa k @ r) = ([], itoa k @ r)"
proof -
  obtain c t where k: "itoa k = c # t" by (cases "itoa k") auto
  then have "c \<noteq> CHR ''-''" using itoa_digits [of c k] by auto
  with k show "json_sign (itoa k @ r) = ([], itoa k @ r)" by (simp add: json_sign_def)
qed (simp add: json_sign_def)

lemma json_number_int: "follow r \<Longrightarrow> json_number (json_int n @ r) = Some (json_int n, r)"
proof -
  assume f: "follow r"
  have fe: "json_fraction r = Some ([], r)" "json_exponent r = Some ([], r)"
    using f by (auto simp: json_fraction_def json_exponent_def follow_def split: list.splits)
  then show ?thesis
    using f by (simp add: json_number_def json_int_def json_sign_simps json_natural_itoa)
qed

lemma encodes_int: "encodes 0 (json_int n) (JNum (json_int n))"
  unfolding encodes_def
proof (intro conjI allI impI)
  show ne: "json_int n \<noteq> []" by (simp add: json_int_def)
  fix m d r assume m: "2 * length (json_int n) \<le> m" and f: "follow r"
  from ne obtain c t where ct: "json_int n = c # t" by (cases "json_int n") auto
  with m obtain k where k: "m = Suc k" by (cases m) auto
  have "c = CHR ''-'' \<or> digitp c"
    using ct itoa_digitp [of "nat n"] by (cases "n < 0") (auto simp: json_int_def)
  then have "\<not> spacep c" "c \<notin> {CHR ''{'', CHR ''['', quote, CHR ''t'', CHR ''f'', CHR ''n''}"
    by (auto simp: spacep_def digitp_def)
  then show "json_value m d (json_int n @ r) = Some (JNum (json_int n), r)"
    using json_number_int [OF f, of n] by (simp add: k ct)
qed

lemma ParseInt64_json_int: "- (2 ^ 63) \<le> n \<Longrightarrow> n < 2 ^ 63 \<Longrightarrow> ParseInt64 (json_int n) = Some n"
proof -
  assume n: "- (2 ^ 63) \<le> n" "n < 2 ^ 63"
  have "list_all digitp (itoa k)" for k using itoa_digitp [of k] by (simp add: list_all_iff)
  then show ?thesis
    using n json_sign_simps(2) [of "nat n" "[]"]
    by (simp add: ParseInt64_def json_int_def json_sign_simps atoi_itoa) arith
qed


lemma json_elements_Join:
  assumes "list_all2 (encodes D) es vs" and "es \<noteq> []" and "2 * length (Join es '','') + 1 \<le> n" and "d + D \<le> max_depth"
  shows "json_elements n d (Join es '','' @ CHR '']'' # r) = Some (vs, r)"
  using assms
proof (induction es vs arbitrary: n rule: list_all2_induct)
  case (Cons e es v vs)
  then obtain m where n: "n = Suc m" by (cases n) auto
  show ?case
  proof (cases es)
    case Nil
    with Cons n encodesD [OF Cons.hyps(1), of m d "CHR '']'' # r"] show ?thesis by simp
  next
    case (Cons e' es')
    with \<open>list_all2 (encodes D) es vs\<close> n \<open>2 * length (Join (e # es) '','') + 1 \<le> n\<close>
    have "json_elements m d (Join es '','' @ CHR '']'' # r) = Some (vs, r)"
      using Cons.IH [of m] assms(4) by simp
    moreover have "json_value m d (e @ CHR '','' # Join es '','' @ CHR '']'' # r) = Some (v, CHR '','' # Join es '','' @ CHR '']'' # r)"
      using Cons.prems n \<open>encodes D e v\<close> Cons by (intro encodesD) simp_all
    ultimately show ?thesis using Cons n by simp
  qed
qed simp


abbreviation member_text :: "string \<times> string \<Rightarrow> string" where
  "member_text \<equiv> (\<lambda>(k, v). json_string k @ '':'' @ v)"

definition encodes_member :: "int \<Rightarrow> string \<times> string \<Rightarrow> string \<times> json \<Rightarrow> bool" where
  "encodes_member D f m \<longleftrightarrow> fst m = fst f \<and> utf8_valid (fst f) \<and> encodes D (snd f) (snd m)"

lemma json_members_one:
  assumes m: "encodes_member D f (k, v)" and n: "2 * length (member_text f) \<le> n" and d: "d + D \<le> max_depth"
  shows "json_members (Suc n) d (member_text f @ c # r) =
     (if c = CHR '','' then map_option (\<lambda>(ms, r). ((k, v) # ms, r)) (json_members n d r)
      else if c = CHR ''}'' then Some ([(k, v)], r) else json_members (Suc n) d (member_text f @ c # r))"
proof -
  obtain e where f: "f = (k, e)" using m by (cases f) (auto simp: encodes_member_def)
  have e: "encodes D e v" and u: "utf8_valid k" using m f by (auto simp: encodes_member_def)
  have "json_value n d (e @ c # r) = Some (v, c # r)" if "c = CHR '','' \<or> c = CHR ''}''"
    using that n f d by (intro encodesD [OF e]) auto
  then show ?thesis by (auto simp: f json_string_def json_chars_escape to_valid_id [OF u])
qed

lemma json_members_Join:
  assumes "list_all2 (encodes_member D) fs ms" and "fs \<noteq> []"
    and "2 * length (Join (map member_text fs) '','') + 1 \<le> n" and "d + D \<le> max_depth"
  shows "json_members n d (Join (map member_text fs) '','' @ CHR ''}'' # r) = Some (ms, r)"
  using assms
proof (induction fs ms arbitrary: n rule: list_all2_induct)
  case (Cons f fs m ms)
  then obtain n' where n: "n = Suc n'" by (cases n) auto
  obtain k v where m: "m = (k, v)" by fastforce
  note one = json_members_one [OF Cons.hyps(1) [unfolded m] _ assms(4), of n']
  show ?case
  proof (cases fs)
    case Nil
    with Cons n m one show ?thesis by simp
  next
    case (Cons f' fs')
    with \<open>list_all2 (encodes_member D) fs ms\<close> n \<open>2 * length (Join (map member_text (f # fs)) '','') + 1 \<le> n\<close>
    have "json_members n' d (Join (map member_text fs) '','' @ CHR ''}'' # r) = Some (ms, r)"
      using Cons.IH [of n'] assms(4) by simp
    with one [of "CHR '',''" "Join (map member_text fs) '','' @ CHR ''}'' # r"] Cons n m Cons.prems(2) show ?thesis
      by simp
  qed
qed simp

lemma encodes_object:
  assumes "list_all2 (encodes_member D) fs ms" and "0 \<le> D"
  shows "encodes (D + 1) (json_object fs) (JObj ms)"
  unfolding encodes_def
proof (intro conjI allI impI)
  fix n d r assume n: "2 * length (json_object fs) \<le> n" and d: "d + (D + 1) \<le> max_depth"
  then obtain k where k: "n = Suc k" by (cases n) (auto simp: json_object_def)
  show "json_value n d (json_object fs @ r) = Some (JObj ms, r)"
  proof (cases fs)
    case Nil
    with assms d k show ?thesis by (simp add: json_object_def HasPrefix_def)
  next
    case (Cons f fs')
    obtain t where t: "Join (map member_text fs) '','' = quote # t"
      by (cases f; cases fs') (auto simp: Cons json_string_def)
    have "json_members k (d + 1) (Join (map member_text fs) '','' @ CHR ''}'' # r) = Some (ms, r)"
      using assms n d k Cons by (intro json_members_Join [where D = D]) (simp_all add: json_object_def)
    with d assms(2) k t show ?thesis
      by (simp add: json_object_def HasPrefix_def)
  qed
qed (simp add: json_object_def)

lemma encodes_strings:
  assumes "\<forall>x \<in> set xs. utf8_valid x"
  shows "encodes 1 (json_strings xs) (JArr (map JStr xs))"
  unfolding encodes_def
proof (intro conjI allI impI)
  fix n d r assume n: "2 * length (json_strings xs) \<le> n" and d: "d + 1 \<le> max_depth"
  then obtain k where k: "n = Suc k" by (cases n) (auto simp: json_strings_def)
  show "json_value n d (json_strings xs @ r) = Some (JArr (map JStr xs), r)"
  proof (cases xs)
    case Nil
    with d k show ?thesis by (simp add: json_strings_def HasPrefix_def)
  next
    case (Cons x xs')
    obtain t where t: "Join (map json_string xs) '','' = quote # t"
      by (cases xs') (auto simp: Cons json_string_def)
    have "list_all2 (encodes 0) (map json_string xs) (map JStr xs)"
      using assms by (simp add: list_all2_conv_all_nth encodes_string)
    then have "json_elements k (d + 1) (Join (map json_string xs) '','' @ CHR '']'' # r) = Some (map JStr xs, r)"
      using n d k Cons by (intro json_elements_Join [where D = 0]) (simp_all add: json_strings_def)
    with d k t show ?thesis by (simp add: json_strings_def HasPrefix_def)
  qed
qed (simp add: json_strings_def)

lemma json_parse_encoded: "encodes D e v \<Longrightarrow> D \<le> max_depth \<Longrightarrow> json_parse e = Some v"
  using encodesD [of D e v "2 * length e + 2" 0 "[]"] by (simp add: json_parse_def)

lemma encodes_weaken: "encodes D e v \<Longrightarrow> D \<le> D' \<Longrightarrow> encodes D' e v"
  by (auto simp: encodes_def)

lemma Unmarshal_object:
  assumes "list_all2 (encodes_member D) fs ms" and "0 \<le> D" and "D < max_depth"
  shows "Unmarshal fds zero (json_object fs) = set_members fds ms zero"
  using json_parse_encoded [OF encodes_object [OF assms(1,2)]] assms(3)
  by (simp add: Unmarshal_def decode_struct_def)

lemma Unmarshal_flat:
  assumes "list_all2 (encodes_member 0) fs ms"
  shows "Unmarshal fds zero (json_object fs) = set_members fds ms zero"
  by (rule Unmarshal_object [OF assms]) (simp_all add: max_depth_def)

lemma decode_strings_JStr [simp]: "decode_strings (JArr (map JStr xs)) = Some xs"
proof -
  have "those (map (\<lambda>x. decode_string x []) (map JStr xs)) = Some xs"
    by (induction xs) (simp_all add: decode_string_def)
  then show ?thesis by (simp add: decode_strings_def)
qed

section \<open>Enough fuel\<close>

lemma skip_ws_le: "length (skip_ws s) \<le> length s"
  by (rule length_dropWhile_le)

lemma skip_ws_Cons: "skip_ws s = c # r \<Longrightarrow> length r < length s"
  using skip_ws_le [of s] by simp

lemma json_digits_le: "json_digits s = Some (t, r) \<Longrightarrow> length r \<le> length s"
  by (auto simp: json_digits_def Let_def split: if_splits)

lemma json_number_le: "json_number s = Some (t, r) \<Longrightarrow> length r \<le> length s"
  by (auto simp: json_number_def json_sign_def json_natural_def json_fraction_def json_exponent_def
      dest!: json_digits_le split: option.splits list.splits if_splits prod.splits)

lemma expect_le: "expect w v s = Some (x, r) \<Longrightarrow> length r \<le> length s"
  by (auto simp: expect_def TrimPrefix_def split: if_splits)

lemma parse_le:
  "json_value n d s = Some (v, r) \<Longrightarrow> length r \<le> length s"
  "json_elements n d s = Some (vs, r) \<Longrightarrow> length r \<le> length s"
  "json_members n d s = Some (ms, r) \<Longrightarrow> length r \<le> length s"
proof (induction n d s and n d s and n d s arbitrary: v r and vs r and ms r rule: json_value_json_elements_json_members.induct)
  case (2 n d s)
  from 2(3) obtain c q where q: "skip_ws s = c # q" by (auto split: list.splits)
  have "length r \<le> Suc (length q)"
    using 2(3) 2(1) [OF q] 2(2) [OF q] q skip_ws_le [of q]
    by (fastforce split: if_splits dest!: json_number_le json_chars_shorter expect_le)
  with skip_ws_Cons [OF q] show ?case by simp
next
  case (4 n d s)
  then show ?case by (fastforce split: option.splits list.splits if_splits dest: skip_ws_Cons)
next
  case (6 n d s)
  then show ?case by (fastforce split: option.splits list.splits if_splits dest: skip_ws_Cons json_chars_shorter)
qed simp_all

text \<open>One more unit of fuel changes nothing once there is enough for the text.\<close>

lemma fuel_step:
  "(\<forall>d s. 2 * length s + 1 \<le> n \<longrightarrow> json_value (Suc n) d s = json_value n d s) \<and>
   (\<forall>d s. 2 * length s + 2 \<le> n \<longrightarrow> json_elements (Suc n) d s = json_elements n d s) \<and>
   (\<forall>d s. 2 * length s + 2 \<le> n \<longrightarrow> json_members (Suc n) d s = json_members n d s)"
proof (induction n)
  case (Suc n)
  have v: "json_value (Suc n) d s = json_value n d s" if "2 * length s + 1 \<le> n" for d s using Suc that by blast
  have e: "json_elements (Suc n) d s = json_elements n d s" if "2 * length s + 2 \<le> n" for d s using Suc that by blast
  have m: "json_members (Suc n) d s = json_members n d s" if "2 * length s + 2 \<le> n" for d s using Suc that by blast
  have "json_value (Suc (Suc n)) d s = json_value (Suc n) d s" if "2 * length s + 1 \<le> Suc n" for d s
  proof (cases "skip_ws s")
    case (Cons c r)
    with skip_ws_Cons [OF Cons] that have "2 * length r + 2 \<le> n" by simp
    with e m Cons show ?thesis by (simp only: json_value.simps list.case)
  qed (simp only: json_value.simps list.case)
  moreover have "json_elements (Suc (Suc n)) d s = json_elements (Suc n) d s" if l: "2 * length s + 2 \<le> Suc n" for d s
  proof -
    have "json_elements (Suc n) d q = json_elements n d q" if "json_value n d s = Some (x, r)" "skip_ws r = c # q" for x r c q
      using parse_le(1) [OF that(1)] skip_ws_Cons [OF that(2)] l by (intro e) simp
    moreover have "json_value (Suc n) d s = json_value n d s" using l by (intro v) simp
    ultimately show ?thesis
      unfolding json_elements.simps(2) [of "Suc n" d s] json_elements.simps(2) [of n d s]
      by (simp del: json_value.simps json_elements.simps dropWhile_eq_Nil_conv split: option.split list.split)
  qed
  moreover have "json_members (Suc (Suc n)) d s = json_members (Suc n) d s" if l: "2 * length s + 2 \<le> Suc n" for d s
  proof -
    have "json_value (Suc n) d q = json_value n d q \<and> (\<forall>x t c' q'. json_value n d q = Some (x, t) \<longrightarrow> skip_ws t = c' # q' \<longrightarrow>
        json_members (Suc n) d q' = json_members n d q')"
      if "skip_ws s = c1 # r" "json_chars r = Some (k, u)" "skip_ws u = c # q" for c1 r k u c q
    proof -
      have "length q + 3 \<le> length s" using skip_ws_Cons [OF that(1)] json_chars_shorter [OF that(2)] skip_ws_Cons [OF that(3)] by simp
      with l show ?thesis by (auto simp del: json_value.simps json_members.simps intro!: v m dest!: parse_le(1) skip_ws_Cons)
    qed
    then show ?thesis
      unfolding json_members.simps(2) [of "Suc n" d s] json_members.simps(2) [of n d s]
      by (simp del: json_value.simps json_members.simps dropWhile_eq_Nil_conv split: option.split list.split)
  qed
  ultimately show ?case by blast
qed simp

lemma json_value_fuel:
  assumes "2 * length s + 1 \<le> n"
  shows "json_value n d s = json_value (2 * length s + 1) d s"
  using assms
proof (induction n rule: dec_induct)
  case (step k)
  then show ?case using fuel_step [of k] by simp
qed simp

end
