(* ===== verification/Sandbox_Http.thy ===== *)
theory Sandbox_Http
  imports Sandbox_Properties Go_Http Go_Json_Decode
begin

text \<open>
  \<open>internal/sandbox/http.go\<close>: the HTTP interface of the sandbox store. The JSON text of a
  time is an argument (\<open>time.Time\<close> in RFC 3339), and so are the readings of the clock.
\<close>

section \<open>Model\<close>

fun phase_text :: "Phase \<Rightarrow> string" where
  "phase_text PhaseProvisioning = ''Provisioning''"
| "phase_text PhaseReady = ''Ready''"
| "phase_text PhaseDraining = ''Draining''"
| "phase_text PhaseDeleted = ''Deleted''"
| "phase_text PhaseFailed = ''Failed''"

definition json_Sandbox :: "(time \<Rightarrow> string) \<Rightarrow> Sandbox \<Rightarrow> string" where
  "json_Sandbox encodeTime sb =
     json_object
       ([(''sandboxId'', json_string (sb_ID sb)), (''tenantId'', json_string (sb_TenantID sb)),
         (''ownerId'', json_string (sb_OwnerID sb)), (''template'', json_string (sb_Template sb)),
         (''runtimeClass'', json_string (sb_RuntimeClass sb))]
        @ (case sb_Resources sb of
             None \<Rightarrow> []
           | Some m \<Rightarrow> if fmdom m = {||} then [] else [(''resources'', json_map m)])
        @ [(''phase'', json_string (phase_text (sb_Phase sb))), (''allocationId'', json_string (sb_AllocationID sb)),
           (''expiresAt'', encodeTime (sb_ExpiresAt sb)), (''createdAt'', encodeTime (sb_CreatedAt sb)),
           (''updatedAt'', encodeTime (sb_UpdatedAt sb))])"

fun persistence_text :: "persistence_error \<Rightarrow> string" where
  "persistence_text ErrInvalidArgument = ''invalid persistence argument''"
| "persistence_text persistence_error.ErrQuotaExceeded = ''quota exceeded''"
| "persistence_text persistence_error.ErrQuotaBelowUsage = ''quota below current usage''"
| "persistence_text persistence_error.ErrQuotaNotConfigured = ''quota not configured''"
| "persistence_text persistence_error.ErrQuotaCorrupt = ''quota ledger is inconsistent''"
| "persistence_text persistence_error.ErrAllocationNotFound = ''allocation not found''"
| "persistence_text ErrAllocationState = ''invalid allocation state''"
| "persistence_text (DriverError t) = t"

fun error_text :: "sandbox_error \<Rightarrow> string" where
  "error_text ErrInvalidRequest = ''invalid request''"
| "error_text sandbox_error.ErrQuotaNotConfigured = ''quota not configured''"
| "error_text sandbox_error.ErrQuotaExceeded = ''quota exceeded''"
| "error_text sandbox_error.ErrQuotaBelowUsage = ''quota below current usage''"
| "error_text sandbox_error.ErrQuotaCorrupt = ''quota ledger is inconsistent''"
| "error_text sandbox_error.ErrAllocationNotFound = ''allocation not found''"
| "error_text ErrNotFound = ''sandbox not found''"
| "error_text ErrResourceGone = ''idempotent resource is gone''"
| "error_text ErrInvalidTransition = ''invalid sandbox transition''"
| "error_text ErrIdempotencyConflict = ''idempotency key reused with different request''"
| "error_text ErrIdempotencyPending = ''idempotency request is still processing''"
| "error_text ErrIdempotencyFailed = ''idempotency request previously failed''"
| "error_text (GovernanceError e) = persistence_text e"

definition error_status :: "sandbox_error \<Rightarrow> int" where
  "error_status err =
     (case err of
        ErrInvalidRequest \<Rightarrow> StatusBadRequest
      | sandbox_error.ErrQuotaExceeded \<Rightarrow> StatusTooManyRequests
      | ErrIdempotencyConflict \<Rightarrow> StatusConflict
      | ErrIdempotencyPending \<Rightarrow> StatusConflict
      | ErrNotFound \<Rightarrow> StatusNotFound
      | _ \<Rightarrow> StatusInternalServerError)"

definition writeStoreError :: "sandbox_error \<Rightarrow> Response" where
  "writeStoreError err = jsonError (error_status err) (error_text err)"

definition createFields :: "(string \<times> CreateRequest setter) list" where
  "createFields =
     [(''tenantId'', \<lambda>v q. map_option (\<lambda>x. q\<lparr>r_TenantID := x\<rparr>) (decode_string v (r_TenantID q))),
      (''template'', \<lambda>v q. map_option (\<lambda>x. q\<lparr>r_Template := x\<rparr>) (decode_string v (r_Template q))),
      (''runtimeClass'', \<lambda>v q. map_option (\<lambda>x. q\<lparr>r_RuntimeClass := x\<rparr>) (decode_string v (r_RuntimeClass q))),
      (''ttlSeconds'', \<lambda>v q. map_option (\<lambda>x. q\<lparr>r_TTLSeconds := x\<rparr>) (decode_int v (r_TTLSeconds q))),
      (''resources'', \<lambda>v q. map_option (\<lambda>x. q\<lparr>r_Resources := x\<rparr>) (decode_map v (r_Resources q)))]"

definition decodeCreate :: "string \<Rightarrow> CreateRequest option" where
  "decodeCreate body =
     Decode createFields \<lparr>r_TenantID = [], r_Template = [], r_RuntimeClass = [], r_TTLSeconds = 0, r_Resources = None\<rparr> body"

definition http_health :: Response where
  "http_health = writeJSON StatusOK (json_field ''status'' ''ok'')"

definition http_create ::
  "'g GovernanceStore \<Rightarrow> (time \<Rightarrow> string) \<Rightarrow> 'g Store \<Rightarrow> Request \<Rightarrow> time \<Rightarrow> Response \<times> 'g Store" where
  "http_create G encodeTime s r now =
     (if rq_Method r \<noteq> ''POST'' then (jsonError StatusMethodNotAllowed ''method not allowed'', s)
      else (case decodeCreate (rq_Body r) of
              None \<Rightarrow> (jsonError StatusBadRequest ''invalid JSON'', s)
            | Some req \<Rightarrow>
                let owner = Header_Get (rq_Header r) ''X-Owner-ID'';
                    key = Header_Get (rq_Header r) ''Idempotency-Key''
                in (case Create G s owner key req now of
                      (Inl err, s') \<Rightarrow> (writeStoreError err, s')
                    | (Inr sb, s') \<Rightarrow> (writeJSON StatusCreated (json_Sandbox encodeTime sb), s'))))"

definition http_instance ::
  "'g GovernanceStore \<Rightarrow> (time \<Rightarrow> string) \<Rightarrow> 'g Store \<Rightarrow> Request \<Rightarrow> time \<Rightarrow> time \<Rightarrow> Response \<times> 'g Store" where
  "http_instance G encodeTime s r now now' =
     (let i = TrimPrefix (rq_Path r) ''/api/v1/sandboxes/'' in
      if i = [] \<or> Contains i ''/'' then (jsonError StatusNotFound ''sandbox not found'', s)
      else if rq_Method r = ''GET'' then
        (case Store_Get s i of
           Inl err \<Rightarrow> (writeStoreError err, s)
         | Inr sb \<Rightarrow> (writeJSON StatusOK (json_Sandbox encodeTime sb), s))
      else if rq_Method r = ''DELETE'' then
        (case Drain G s i now now' of
           (Inl err, s') \<Rightarrow> (writeStoreError err, s')
         | (Inr sb, s') \<Rightarrow> (writeJSON StatusAccepted (json_Sandbox encodeTime sb), s'))
      else (jsonError StatusMethodNotAllowed ''method not allowed'', s))"

definition sandbox_patterns :: "string list" where
  "sandbox_patterns = [''/healthz'', ''/api/v1/sandboxes'', ''/api/v1/sandboxes/'']"

definition sandbox_Handler ::
  "'g GovernanceStore \<Rightarrow> (time \<Rightarrow> string) \<Rightarrow> 'g Store \<Rightarrow> Request \<Rightarrow> time \<Rightarrow> time \<Rightarrow> served \<times> 'g Store" where
  "sandbox_Handler G encodeTime s r now now' =
     (case ServeMux sandbox_patterns r of
        MuxRedirect p \<Rightarrow> (MovedPermanently p, s)
      | MuxNotFound \<Rightarrow> (PageNotFound, s)
      | Dispatch p \<Rightarrow>
          map_prod Served id
            (if p = ''/healthz'' then (http_health, s)
             else if p = ''/api/v1/sandboxes'' then http_create G encodeTime s r now
             else http_instance G encodeTime s r now now'))"

section \<open>Sequences of requests\<close>

text \<open>A request is a step of the store, or none; the sequence number of identifiers does not run out.\<close>

lemma http_create_step:
  assumes "sequence s \<noteq> - 1"
  shows "snd (http_create G enc s r now) = s \<or> store_step G s (snd (http_create G enc s r now))"
proof (cases "rq_Method r = ''POST'' \<and> decodeCreate (rq_Body r) \<noteq> None")
  case True
  then obtain req where req: "decodeCreate (rq_Body r) = Some req" "rq_Method r = ''POST''" by auto
  have "snd (http_create G enc s r now) = snd (Create G s (Header_Get (rq_Header r) ''X-Owner-ID'') (Header_Get (rq_Header r) ''Idempotency-Key'') req now)"
    by (simp add: http_create_def Let_def req split: prod.split sum.split)
  then show ?thesis using step_Create [OF assms] by metis
qed (auto simp: http_create_def)

lemma http_instance_step:
  "snd (http_instance G enc s r now now') = s \<or> store_step G s (snd (http_instance G enc s r now now'))"
proof -
  have "snd (case Drain G s i now now' of (Inl err, s') \<Rightarrow> (writeStoreError err, s')
      | (Inr sb, s') \<Rightarrow> (writeJSON StatusAccepted (json_Sandbox enc sb), s')) = snd (Drain G s i now now')" for i
    by (simp split: prod.split sum.split)
  then have "snd (http_instance G enc s r now now') \<in> {s, snd (Drain G s (TrimPrefix (rq_Path r) ''/api/v1/sandboxes/'') now now')}"
    by (auto simp: http_instance_def Let_def split: sum.split)
  then show ?thesis using step_Drain [of G s] by (metis insertE singletonD)
qed

lemma sandbox_Handler_step:
  assumes "sequence s \<noteq> - 1"
  shows "store_steps G s (snd (sandbox_Handler G enc s r now now'))"
proof -
  have "snd (sandbox_Handler G enc s r now now') = s \<or> store_step G s (snd (sandbox_Handler G enc s r now now'))"
    using http_create_step [OF assms, of G enc r now] http_instance_step [of G enc s r now now']
    by (auto simp: sandbox_Handler_def split: mux_result.split)
  then show ?thesis by auto
qed

section \<open>Responses\<close>

lemma sandbox_Handler_Served:
  assumes "sandbox_Handler G enc s r now now' = (Served resp, s')"
  obtains "ServeMux sandbox_patterns r = Dispatch ''/healthz''" and "resp = http_health"
  | "ServeMux sandbox_patterns r = Dispatch ''/api/v1/sandboxes''" and "http_create G enc s r now = (resp, s')"
  | "ServeMux sandbox_patterns r = Dispatch ''/api/v1/sandboxes/''" and "http_instance G enc s r now now' = (resp, s')"
proof -
  obtain p where p: "ServeMux sandbox_patterns r = Dispatch p" using assms by (auto simp: sandbox_Handler_def split: mux_result.splits)
  then have "p \<in> {''/healthz'', ''/api/v1/sandboxes'', ''/api/v1/sandboxes/''}"
    using ServeMux_pattern [OF p] by (simp add: sandbox_patterns_def)
  then consider "p = ''/healthz''" | "p = ''/api/v1/sandboxes''" | "p = ''/api/v1/sandboxes/''" by blast
  then show thesis
    by cases (use assms p that in \<open>auto simp: sandbox_Handler_def map_prod_def split: prod.splits\<close>)
qed

end
