(* ===== verification/Sql_Store.thy ===== *)
theory Sql_Store
  imports Governance "HOL-Library.Sublist"
begin

text \<open>
  \<open>internal/persistence/sql.go\<close>: the governance boundary on PostgreSQL or MySQL. The
  database is its three tables; a statement is a function on them. Every call of the
  driver may fail: the store carries the outcomes of the calls to come (none left means
  that all succeed), and a commit may report an error although it was applied.
  Transactions run one after the other, as the row locks make them. The widths of the
  columns are not modelled: a value that does not fit is a failing statement.
\<close>

section \<open>The database\<close>

type_synonym Dialect = string

definition DialectPostgres :: Dialect where "DialectPostgres = ''postgres''"
definition DialectMySQL :: Dialect where "DialectMySQL = ''mysql''"

record sql_allocation =
  sa_tenant :: string
  sa_owner :: string
  sa_sandbox :: string
  sa_status :: string
  sa_created :: time
  sa_released :: "time option"

record sql_idempotency =
  si_owner :: string
  si_hash :: string
  si_status :: string
  si_lease :: int
  si_expires :: time

record sql_db =
  t_owner_quota :: "string \<times> string \<rightharpoonup> int \<times> int" \<comment> \<open>limit and count, by tenant and owner\<close>
  t_quota_allocation :: "string \<rightharpoonup> sql_allocation"
  t_idempotency_key :: "string \<times> string \<rightharpoonup> sql_idempotency" \<comment> \<open>by tenant and key\<close>

datatype outcome = Done | Failed string | FailedApplied string

record SQLStore =
  db :: sql_db
  dialect :: Dialect
  outcomes :: "outcome list"

definition empty_db :: sql_db where
  "empty_db = \<lparr>t_owner_quota = Map.empty, t_quota_allocation = Map.empty, t_idempotency_key = Map.empty\<rparr>"

datatype open_error = DatabaseRequired | UnsupportedDialect Dialect

definition NewSQLStore :: "sql_db option \<Rightarrow> Dialect \<Rightarrow> outcome list \<Rightarrow> (open_error, SQLStore) result" where
  "NewSQLStore d dia os =
     (case d of
        None \<Rightarrow> Inl DatabaseRequired
      | Some d \<Rightarrow>
          if dia \<noteq> DialectPostgres \<and> dia \<noteq> DialectMySQL then Inl (UnsupportedDialect dia)
          else Inr \<lparr>db = d, dialect = dia, outcomes = os\<rparr>)"

section \<open>Statements\<close>

definition ensure_quota :: "string \<Rightarrow> string \<Rightarrow> int \<Rightarrow> sql_db \<Rightarrow> sql_db" where
  "ensure_quota t w l d =
     (if t_owner_quota d (t, w) = None then d\<lparr>t_owner_quota := (t_owner_quota d)((t, w) \<mapsto> (l, 0))\<rparr> else d)"

definition select_count :: "string \<Rightarrow> string \<Rightarrow> sql_db \<Rightarrow> int option" where
  "select_count t w d = map_option snd (t_owner_quota d (t, w))"

definition update_limit :: "string \<Rightarrow> string \<Rightarrow> int \<Rightarrow> sql_db \<Rightarrow> sql_db" where
  "update_limit t w l d =
     (case t_owner_quota d (t, w) of
        None \<Rightarrow> d
      | Some (_, c) \<Rightarrow> d\<lparr>t_owner_quota := (t_owner_quota d)((t, w) \<mapsto> (l, c))\<rparr>)"

text \<open>The updates give the number of rows affected.\<close>

definition increment :: "string \<Rightarrow> string \<Rightarrow> sql_db \<Rightarrow> nat \<times> sql_db" where
  "increment t w d =
     (case t_owner_quota d (t, w) of
        None \<Rightarrow> (0, d)
      | Some (l, c) \<Rightarrow> if c < l then (1, d\<lparr>t_owner_quota := (t_owner_quota d)((t, w) \<mapsto> (l, c + 1))\<rparr>) else (0, d))"

definition decrement :: "string \<Rightarrow> string \<Rightarrow> sql_db \<Rightarrow> nat \<times> sql_db" where
  "decrement t w d =
     (case t_owner_quota d (t, w) of
        None \<Rightarrow> (0, d)
      | Some (l, c) \<Rightarrow> if 0 < c then (1, d\<lparr>t_owner_quota := (t_owner_quota d)((t, w) \<mapsto> (l, c - 1))\<rparr>) else (0, d))"

definition insert_allocation :: "string \<Rightarrow> string \<Rightarrow> string \<Rightarrow> string \<Rightarrow> time \<Rightarrow> sql_db \<Rightarrow> sql_db option" where
  \<comment> \<open>\<open>None\<close>: the primary key exists\<close>
  "insert_allocation a t w sb now d =
     (if t_quota_allocation d a = None
      then Some (d\<lparr>t_quota_allocation := (t_quota_allocation d)(a \<mapsto>
             \<lparr>sa_tenant = t, sa_owner = w, sa_sandbox = sb, sa_status = ''RESERVED'', sa_created = now, sa_released = None\<rparr>)\<rparr>)
      else None)"

definition select_status :: "string \<Rightarrow> string \<Rightarrow> string \<Rightarrow> sql_db \<Rightarrow> string option" where
  "select_status a t w d =
     (case t_quota_allocation d a of
        None \<Rightarrow> None
      | Some r \<Rightarrow> if sa_tenant r = t \<and> sa_owner r = w then Some (sa_status r) else None)"

definition mark_released :: "string \<Rightarrow> string \<Rightarrow> string \<Rightarrow> time \<Rightarrow> sql_db \<Rightarrow> nat \<times> sql_db" where
  "mark_released a t w now d =
     (case t_quota_allocation d a of
        None \<Rightarrow> (0, d)
      | Some r \<Rightarrow>
          if sa_tenant r = t \<and> sa_owner r = w \<and> sa_status r = ''RESERVED''
          then (1, d\<lparr>t_quota_allocation := (t_quota_allocation d)(a \<mapsto> r\<lparr>sa_status := ''RELEASED'', sa_released := Some now\<rparr>)\<rparr>)
          else (0, d))"

definition insert_pending :: "string \<Rightarrow> string \<Rightarrow> string \<Rightarrow> string \<Rightarrow> time \<Rightarrow> sql_db \<Rightarrow> sql_db" where
  \<comment> \<open>columns in the order of the statement: \<open>tenant_id\<close>, \<open>idem_key\<close>, \<open>owner_id\<close>, \<open>request_hash\<close>\<close>
  "insert_pending tenant_id idem_key owner_id request_hash expires_at d =
     (if t_idempotency_key d (tenant_id, idem_key) = None
      then d\<lparr>t_idempotency_key := (t_idempotency_key d)((tenant_id, idem_key) \<mapsto>
             \<lparr>si_owner = owner_id, si_hash = request_hash, si_status = ''PENDING'', si_lease = 1, si_expires = expires_at\<rparr>)\<rparr>
      else d)"

section \<open>Calls of the driver\<close>

definition driver_call :: "SQLStore \<Rightarrow> (SQLStore \<Rightarrow> persistence_error option \<times> SQLStore) \<Rightarrow> persistence_error option \<times> SQLStore" where
  \<comment> \<open>a call that returns an error ends the method; an open transaction is rolled back\<close>
  "driver_call s k =
     (case outcomes s of
        [] \<Rightarrow> k s
      | Done # os \<Rightarrow> k (s\<lparr>outcomes := os\<rparr>)
      | Failed e # os \<Rightarrow> (Some (DriverError e), s\<lparr>outcomes := os\<rparr>)
      | FailedApplied e # os \<Rightarrow> (Some (DriverError e), s\<lparr>outcomes := os\<rparr>))"

definition Commit :: "sql_db \<Rightarrow> SQLStore \<Rightarrow> persistence_error option \<times> SQLStore" where
  "Commit tx s =
     (case outcomes s of
        [] \<Rightarrow> (None, s\<lparr>db := tx\<rparr>)
      | Done # os \<Rightarrow> (None, s\<lparr>db := tx, outcomes := os\<rparr>)
      | Failed e # os \<Rightarrow> (Some (DriverError e), s\<lparr>outcomes := os\<rparr>)
      | FailedApplied e # os \<Rightarrow> (Some (DriverError e), s\<lparr>db := tx, outcomes := os\<rparr>))"

section \<open>The store\<close>

text \<open>The state of the transaction is the copy \<open>tx\<close>; returning the store without it rolls back.\<close>

definition sql_SetQuota :: "SQLStore \<Rightarrow> string \<Rightarrow> string \<Rightarrow> int \<Rightarrow> persistence_error option \<times> SQLStore" where
  "sql_SetQuota s tenantID ownerID limit =
     (if tenantID = [] \<or> ownerID = [] \<or> limit < 0 then (Some ErrInvalidArgument, s)
      else driver_call s (\<lambda>s. driver_call s (\<lambda>s.
        let tx = ensure_quota tenantID ownerID limit (db s) in
        driver_call s (\<lambda>s.
          (case select_count tenantID ownerID tx of
             None \<Rightarrow> (Some (DriverError ''sql: no rows in result set''), s)
           | Some current \<Rightarrow>
               if current > limit then (Some ErrQuotaBelowUsage, s)
               else driver_call s (\<lambda>s. Commit (update_limit tenantID ownerID limit tx) s))))))"

definition sql_ReserveAllocation ::
  "SQLStore \<Rightarrow> string \<Rightarrow> string \<Rightarrow> string \<Rightarrow> string \<Rightarrow> time \<Rightarrow> persistence_error option \<times> SQLStore" where
  "sql_ReserveAllocation s tenantID ownerID allocationID sandboxID now =
     (if tenantID = [] \<or> ownerID = [] \<or> allocationID = [] \<or> sandboxID = [] then (Some ErrInvalidArgument, s)
      else driver_call s (\<lambda>s. driver_call s (\<lambda>s.
        (case increment tenantID ownerID (db s) of
           (rows, tx) \<Rightarrow>
             driver_call s (\<lambda>s.
               if rows \<noteq> 1 then (Some ErrQuotaExceeded, s)
               else driver_call s (\<lambda>s.
                 (case insert_allocation allocationID tenantID ownerID sandboxID now tx of
                    None \<Rightarrow> (Some (DriverError ''duplicate key''), s)
                  | Some tx' \<Rightarrow> Commit tx' s)))))))"

definition sql_ReleaseAllocation ::
  "SQLStore \<Rightarrow> string \<Rightarrow> string \<Rightarrow> string \<Rightarrow> time \<Rightarrow> persistence_error option \<times> SQLStore" where
  "sql_ReleaseAllocation s tenantID ownerID allocationID now =
     (if tenantID = [] \<or> ownerID = [] \<or> allocationID = [] then (Some ErrInvalidArgument, s)
      else driver_call s (\<lambda>s. driver_call s (\<lambda>s.
        (case mark_released allocationID tenantID ownerID now (db s) of
           (rows, tx) \<Rightarrow>
             driver_call s (\<lambda>s.
               if rows = 0 then
                 driver_call s (\<lambda>s.
                   (case select_status allocationID tenantID ownerID tx of
                      None \<Rightarrow> (Some ErrAllocationNotFound, s)
                    | Some status \<Rightarrow>
                        if status = ''RELEASED'' then Commit tx s else (Some ErrAllocationState, s)))
               else
                 driver_call s (\<lambda>s.
                   (case decrement tenantID ownerID tx of
                      (rows', tx') \<Rightarrow>
                        driver_call s (\<lambda>s. if rows' \<noteq> 1 then (Some ErrQuotaCorrupt, s) else Commit tx' s))))))))"

text \<open>The arguments are bound in the order the method passes them.\<close>

definition sql_InsertIdempotencyPending ::
  "SQLStore \<Rightarrow> string \<Rightarrow> string \<Rightarrow> string \<Rightarrow> string \<Rightarrow> time \<Rightarrow> persistence_error option \<times> SQLStore" where
  "sql_InsertIdempotencyPending s tenantID ownerID key requestHash expiresAt =
     (if tenantID = [] \<or> ownerID = [] \<or> key = [] \<or> requestHash = [] then (Some ErrInvalidArgument, s)
      else Commit (insert_pending tenantID ownerID key requestHash expiresAt (db s)) s)"

definition sql_governance :: "SQLStore GovernanceStore" where
  "sql_governance =
     \<lparr>SetQuota = sql_SetQuota, ReserveAllocation = sql_ReserveAllocation,
      ReleaseAllocation = sql_ReleaseAllocation, InsertIdempotencyPending = sql_InsertIdempotencyPending\<rparr>"

lemma sql_governance_sel [simp]:
  "SetQuota sql_governance = sql_SetQuota"
  "ReserveAllocation sql_governance = sql_ReserveAllocation"
  "ReleaseAllocation sql_governance = sql_ReleaseAllocation"
  "InsertIdempotencyPending sql_governance = sql_InsertIdempotencyPending"
  by (simp_all add: sql_governance_def)

text \<open>\<open>bind\<close>: the placeholders of a statement, numbered for PostgreSQL.\<close>

fun bind_parts :: "nat \<Rightarrow> string list \<Rightarrow> string" where
  "bind_parts i [] = []"
| "bind_parts i (p # ps) = (if 0 < i then CHR ''$'' # itoa i else []) @ p @ bind_parts (Suc i) ps"

definition bind_query :: "Dialect \<Rightarrow> string \<Rightarrow> string" where
  "bind_query d q = (if d \<noteq> DialectPostgres then q else bind_parts 0 (Split q (CHR ''?'')))"

section \<open>What a method does to the database\<close>

text \<open>
  A method leaves the database alone and reports an error, or puts the result \<open>f\<close> of its
  statements in place; then it reports an error only when a commit was applied and its
  answer lost.
\<close>

definition lost :: "outcome list \<Rightarrow> bool" where
  "lost os \<longleftrightarrow> (\<exists>t. FailedApplied t \<in> set os)"

definition effect :: "SQLStore \<Rightarrow> sql_db option \<Rightarrow> persistence_error option \<times> SQLStore \<Rightarrow> bool" where
  "effect s f r \<longleftrightarrow> suffix (outcomes (snd r)) (outcomes s) \<and>
     ((fst r \<noteq> None \<and> db (snd r) = db s) \<or> (f = Some (db (snd r)) \<and> (fst r = None \<or> lost (outcomes s))))"

lemma lost_suffix: "suffix os' os \<Longrightarrow> lost os' \<Longrightarrow> lost os"
  by (auto simp: lost_def suffix_def)

lemma effect_error: "effect s f (Some e, s)"
  by (simp add: effect_def)

lemma effect_Commit: "effect s (Some tx) (Commit tx s)"
  by (cases "outcomes s") (auto simp: effect_def Commit_def lost_def suffix_ConsI split: outcome.split)

lemma effect_call:
  assumes "\<And>s1. db s1 = db s \<Longrightarrow> effect s1 f (k s1)"
  shows "effect s f (driver_call s k)"
proof -
  have later: "effect s f r" if "effect s1 f r" "db s1 = db s" "suffix (outcomes s1) (outcomes s)" for s1 r
    using that lost_suffix by (auto simp: effect_def intro: suffix_order.trans)
  show ?thesis
  proof (cases "outcomes s")
    case Nil
    with assms [of s] show ?thesis by (simp add: driver_call_def)
  next
    case (Cons q os)
    then have "suffix os (outcomes s)" by (simp add: suffix_ConsI)
    with Cons later [OF assms [of "s\<lparr>outcomes := os\<rparr>"]] show ?thesis
      by (cases q) (auto simp: driver_call_def effect_def)
  qed
qed

text \<open>The result of the statements of each method.\<close>

definition set_tx :: "string \<Rightarrow> string \<Rightarrow> int \<Rightarrow> sql_db \<Rightarrow> sql_db option" where
  "set_tx t w l d =
     (if t = [] \<or> w = [] \<or> l < 0 then None
      else let c = (case t_owner_quota d (t, w) of None \<Rightarrow> 0 | Some (_, c) \<Rightarrow> c)
           in if c \<le> l then Some (d\<lparr>t_owner_quota := (t_owner_quota d)((t, w) \<mapsto> (l, c))\<rparr>) else None)"

definition reserve_tx :: "string \<Rightarrow> string \<Rightarrow> string \<Rightarrow> string \<Rightarrow> time \<Rightarrow> sql_db \<Rightarrow> sql_db option" where
  "reserve_tx t w a sb now d =
     (if t = [] \<or> w = [] \<or> a = [] \<or> sb = [] \<or> t_quota_allocation d a \<noteq> None then None
      else (case t_owner_quota d (t, w) of
              None \<Rightarrow> None
            | Some (l, c) \<Rightarrow>
                if c < l then Some (d\<lparr>t_owner_quota := (t_owner_quota d)((t, w) \<mapsto> (l, c + 1)),
                  t_quota_allocation := (t_quota_allocation d)(a \<mapsto>
                    \<lparr>sa_tenant = t, sa_owner = w, sa_sandbox = sb, sa_status = ''RESERVED'', sa_created = now, sa_released = None\<rparr>)\<rparr>)
                else None))"

definition release_tx :: "string \<Rightarrow> string \<Rightarrow> string \<Rightarrow> time \<Rightarrow> sql_db \<Rightarrow> sql_db option" where
  "release_tx t w a now d =
     (if t = [] \<or> w = [] \<or> a = [] then None
      else (case t_quota_allocation d a of
              None \<Rightarrow> None
            | Some r \<Rightarrow>
                if sa_tenant r \<noteq> t \<or> sa_owner r \<noteq> w then None
                else if sa_status r = ''RELEASED'' then Some d
                else if sa_status r \<noteq> ''RESERVED'' then None
                else (case t_owner_quota d (t, w) of
                        None \<Rightarrow> None
                      | Some (l, c) \<Rightarrow>
                          if 0 < c then Some (d\<lparr>t_quota_allocation := (t_quota_allocation d)(a \<mapsto> r\<lparr>sa_status := ''RELEASED'', sa_released := Some now\<rparr>),
                            t_owner_quota := (t_owner_quota d)((t, w) \<mapsto> (l, c - 1))\<rparr>)
                          else None)))"

lemma effect_SetQuota: "effect s (set_tx t w l (db s)) (sql_SetQuota s t w l)"
proof (cases "t = [] \<or> w = [] \<or> l < 0")
  case True
  then show ?thesis by (auto simp: sql_SetQuota_def effect_error)
next
  case False
  let ?tx = "ensure_quota t w l (db s)"
  obtain c where c: "select_count t w ?tx = Some c" "c = (case t_owner_quota (db s) (t, w) of None \<Rightarrow> 0 | Some (_, c) \<Rightarrow> c)"
    by (auto simp: select_count_def ensure_quota_def split: option.splits)
  have "set_tx t w l (db s) = (if c \<le> l then Some (update_limit t w l ?tx) else None)"
    using False c(2) by (auto simp: set_tx_def update_limit_def ensure_quota_def Let_def split: option.splits)
  with False c(1) show ?thesis
    by (auto simp: sql_SetQuota_def Let_def effect_error intro!: effect_call effect_Commit)
qed

lemma effect_ReserveAllocation: "effect s (reserve_tx t w a sb now (db s)) (sql_ReserveAllocation s t w a sb now)"
proof (cases "t = [] \<or> w = [] \<or> a = [] \<or> sb = []")
  case True
  then show ?thesis by (auto simp: sql_ReserveAllocation_def effect_error)
next
  case False
  obtain rows tx where inc: "increment t w (db s) = (rows, tx)" by fastforce
  have "reserve_tx t w a sb now (db s) = (if rows = 1 then insert_allocation a t w sb now tx else None)"
    using False inc by (auto simp: reserve_tx_def increment_def insert_allocation_def split: option.splits if_splits)
  with False inc show ?thesis
    by (auto simp: sql_ReserveAllocation_def effect_error split: option.split intro!: effect_call effect_Commit)
qed

lemma effect_ReleaseAllocation: "effect s (release_tx t w a now (db s)) (sql_ReleaseAllocation s t w a now)"
proof (cases "t = [] \<or> w = [] \<or> a = []")
  case True
  then show ?thesis by (auto simp: sql_ReleaseAllocation_def effect_error)
next
  case False
  obtain rows tx where mk: "mark_released a t w now (db s) = (rows, tx)" by fastforce
  obtain rows' tx' where dec: "decrement t w tx = (rows', tx')" by fastforce
  have "release_tx t w a now (db s) =
      (if rows = 0 then if select_status a t w tx = Some ''RELEASED'' then Some tx else None
       else if rows' = 1 then Some tx' else None)"
    using False mk dec by (auto simp: release_tx_def mark_released_def decrement_def select_status_def split: option.splits if_splits)
  with False mk dec show ?thesis
    by (auto simp: sql_ReleaseAllocation_def effect_error split: option.split intro!: effect_call effect_Commit)
qed

lemma effect_InsertIdempotencyPending:
  "effect s (if t = [] \<or> w = [] \<or> k = [] \<or> h = [] then None else Some (insert_pending t w k h x (db s)))
     (sql_InsertIdempotencyPending s t w k h x)"
  by (auto simp: sql_InsertIdempotencyPending_def effect_error effect_Commit)

end
