(* ===== verification/Sql_Claims.thy ===== *)
theory Sql_Claims
  imports Sql_Store Sandbox_Governed
begin

text \<open>
  What the SQL boundary promises: the quota counts agree with the allocation ledger
  whatever the driver does, the store satisfies the contract of the governance boundary,
  and it refines the in-memory store.
\<close>

section \<open>The ledger balances\<close>

definition holds_slot :: "string \<Rightarrow> string \<Rightarrow> sql_allocation \<Rightarrow> bool" where
  "holds_slot t w r \<longleftrightarrow> sa_tenant r = t \<and> sa_owner r = w \<and> sa_status r = ''RESERVED''"

definition reserved :: "sql_db \<Rightarrow> string \<Rightarrow> string \<Rightarrow> string set" where
  "reserved d t w = {a. \<exists>r. t_quota_allocation d a = Some r \<and> holds_slot t w r}"

definition balanced :: "sql_db \<Rightarrow> bool" where
  "balanced d \<longleftrightarrow> finite (dom (t_quota_allocation d)) \<and>
     (\<forall>t w. case t_owner_quota d (t, w) of
              None \<Rightarrow> reserved d t w = {}
            | Some (l, c) \<Rightarrow> c = int (card (reserved d t w)) \<and> c \<le> l) \<and>
     (\<forall>a r. t_quota_allocation d a = Some r \<longrightarrow> sa_status r \<in> {''RESERVED'', ''RELEASED''})"

lemma balancedD:
  assumes "balanced d"
  shows "finite (dom (t_quota_allocation d))"
    and "t_owner_quota d (t, w) = None \<Longrightarrow> reserved d t w = {}"
    and "t_owner_quota d (t, w) = Some (l, c) \<Longrightarrow> c = int (card (reserved d t w)) \<and> c \<le> l"
    and "t_quota_allocation d a = Some r \<Longrightarrow> sa_status r = ''RESERVED'' \<or> sa_status r = ''RELEASED''"
proof -
  have q: "case t_owner_quota d (t, w) of None \<Rightarrow> reserved d t w = {} | Some (l, c) \<Rightarrow> c = int (card (reserved d t w)) \<and> c \<le> l"
    using assms by (simp add: balanced_def)
  show "finite (dom (t_quota_allocation d))" using assms by (simp add: balanced_def)
  show "t_owner_quota d (t, w) = None \<Longrightarrow> reserved d t w = {}" using q by simp
  show "t_owner_quota d (t, w) = Some (l, c) \<Longrightarrow> c = int (card (reserved d t w)) \<and> c \<le> l" using q by simp
  show "t_quota_allocation d a = Some r \<Longrightarrow> sa_status r = ''RESERVED'' \<or> sa_status r = ''RELEASED''"
    using assms by (simp add: balanced_def)
qed

lemma balanced_empty: "balanced empty_db"
  by (simp add: balanced_def empty_db_def reserved_def)

text \<open>Changing the quota row of one owner, and only its allocations.\<close>

lemma balanced_upd:
  assumes "balanced d" and "finite (dom (t_quota_allocation d'))"
    and "t_owner_quota d' = (t_owner_quota d)((t, w) \<mapsto> (l, c))"
    and "c = int (card (reserved d' t w)) \<and> c \<le> l"
    and "\<And>t' w'. (t', w') \<noteq> (t, w) \<Longrightarrow> reserved d' t' w' = reserved d t' w'"
    and "\<And>b r. t_quota_allocation d' b = Some r \<Longrightarrow> sa_status r \<in> {''RESERVED'', ''RELEASED''}"
  shows "balanced d'"
  unfolding balanced_def
proof (intro conjI allI impI)
  show "case t_owner_quota d' (t', w') of None \<Rightarrow> reserved d' t' w' = {} | Some (l, c) \<Rightarrow> c = int (card (reserved d' t' w')) \<and> c \<le> l" for t' w'
  proof (cases "(t', w') = (t, w)")
    case True
    with assms(3,4) show ?thesis by simp
  next
    case False
    then have "t_owner_quota d' (t', w') = t_owner_quota d (t', w')" unfolding assms(3) by auto
    with assms(5) [OF False] balancedD(2,3) [OF assms(1), of t' w'] show ?thesis
      by (cases "t_owner_quota d (t', w')") auto
  qed
qed (use assms(2,6) in auto)

lemma balanced_set:
  assumes "balanced d" and "set_tx t w l d = Some d'"
  shows "balanced d'"
proof -
  define c where "c = (case t_owner_quota d (t, w) of None \<Rightarrow> 0 | Some (_, c) \<Rightarrow> c)"
  have d': "d' = d\<lparr>t_owner_quota := (t_owner_quota d)((t, w) \<mapsto> (l, c))\<rparr>" "c \<le> l"
    using assms(2) by (auto simp: set_tx_def Let_def c_def split: if_splits)
  have same: "reserved d' = reserved d" by (simp add: d'(1) reserved_def fun_eq_iff)
  have "c = int (card (reserved d t w))"
    using balancedD(2,3) [OF assms(1), of t w] by (cases "t_owner_quota d (t, w)") (auto simp: c_def)
  with d'(2) same have "c = int (card (reserved d' t w)) \<and> c \<le> l" by simp
  then show ?thesis
    by (rule balanced_upd [OF assms(1), rotated 2])
      (use balancedD(1,4) [OF assms(1)] same in \<open>auto simp: d'(1)\<close>)
qed

lemma balanced_reserve:
  assumes "balanced d" and "reserve_tx t w a sb now d = Some d'"
  shows "balanced d'"
proof -
  let ?r = "\<lparr>sa_tenant = t, sa_owner = w, sa_sandbox = sb, sa_status = ''RESERVED'', sa_created = now, sa_released = None\<rparr>"
  from assms(2) obtain l c where q: "t_owner_quota d (t, w) = Some (l, c)" "c < l" "t_quota_allocation d a = None"
    and d': "d' = d\<lparr>t_owner_quota := (t_owner_quota d)((t, w) \<mapsto> (l, c + 1)), t_quota_allocation := (t_quota_allocation d)(a \<mapsto> ?r)\<rparr>"
    by (auto simp: reserve_tx_def split: if_splits option.splits)
  have fin: "finite (dom (t_quota_allocation d))" using balancedD(1) [OF assms(1)] .
  have own: "card (reserved d' t w) = Suc (card (reserved d t w))"
    unfolding reserved_def d' using card_map_upd_new [OF fin, of a "holds_slot t w" ?r] q(3) by (simp add: holds_slot_def)
  have other: "reserved d' t' w' = reserved d t' w'" if "(t', w') \<noteq> (t, w)" for t' w'
    unfolding reserved_def d' using card_map_upd_same [of "holds_slot t' w'" ?r "t_quota_allocation d" a] q(3) that by (auto simp: holds_slot_def)
  have "c = int (card (reserved d t w))" using balancedD(3) [OF assms(1) q(1)] by simp
  with own q(2) have new: "c + 1 = int (card (reserved d' t w)) \<and> c + 1 \<le> l" by simp
  show ?thesis
    by (rule balanced_upd [OF assms(1) _ _ new other])
      (use fin balancedD(4) [OF assms(1)] in \<open>auto simp: d' split: if_splits\<close>)
qed

lemma balanced_release:
  assumes "balanced d" and "release_tx t w a now d = Some d'"
  shows "balanced d'"
proof (cases "d' = d")
  case False
  with assms(2) obtain r l c where q: "t_quota_allocation d a = Some r" "holds_slot t w r" "t_owner_quota d (t, w) = Some (l, c)" "0 < c"
    and d': "d' = d\<lparr>t_quota_allocation := (t_quota_allocation d)(a \<mapsto> r\<lparr>sa_status := ''RELEASED'', sa_released := Some now\<rparr>),
                    t_owner_quota := (t_owner_quota d)((t, w) \<mapsto> (l, c - 1))\<rparr>"
    by (auto simp: release_tx_def holds_slot_def split: if_splits option.splits)
  let ?r = "r\<lparr>sa_status := ''RELEASED'', sa_released := Some now\<rparr>"
  have fin: "finite (dom (t_quota_allocation d))" using balancedD(1) [OF assms(1)] .
  have own: "Suc (card (reserved d' t w)) = card (reserved d t w)"
    unfolding reserved_def d' using card_map_upd_drop [of "t_quota_allocation d" a r "holds_slot t w" ?r, OF fin q(1,2)] by (simp add: holds_slot_def)
  have other: "reserved d' t' w' = reserved d t' w'" if "(t', w') \<noteq> (t, w)" for t' w'
    unfolding reserved_def d' using card_map_upd_same [of "holds_slot t' w'" ?r "t_quota_allocation d" a] q(1,2) that by (auto simp: holds_slot_def)
  have "c = int (card (reserved d t w)) \<and> c \<le> l" using balancedD(3) [OF assms(1) q(3)] by simp
  with own have new: "c - 1 = int (card (reserved d' t w)) \<and> c - 1 \<le> l" by linarith
  show ?thesis
    by (rule balanced_upd [OF assms(1) _ _ new other])
      (use fin balancedD(4) [OF assms(1)] in \<open>auto simp: d' split: if_splits\<close>)
qed (use assms(1) in simp)

lemma effect_balanced:
  assumes "effect s f r" and "balanced (db s)" and "\<And>d. f = Some d \<Longrightarrow> balanced d"
  shows "balanced (db (snd r))"
  using assms by (auto simp: effect_def)

section \<open>The contract of the boundary\<close>

definition sql_quota :: "SQLStore \<Rightarrow> string \<times> string \<Rightarrow> (int \<times> int) option" where
  "sql_quota s = t_owner_quota (db s)"

definition sql_ledger :: "SQLStore \<Rightarrow> string \<Rightarrow> string option" where
  "sql_ledger s a = map_option sa_status (t_quota_allocation (db s) a)"

definition sql_inv :: "SQLStore \<Rightarrow> bool" where
  "sql_inv s \<longleftrightarrow> balanced (db s)"


lemma sql_inv_SetQuota: "sql_inv s \<Longrightarrow> sql_inv (snd (sql_SetQuota s t w l))"
  unfolding sql_inv_def by (rule effect_balanced [OF effect_SetQuota]) (auto intro: balanced_set)

lemma sql_inv_Reserve: "sql_inv s \<Longrightarrow> sql_inv (snd (sql_ReserveAllocation s t w a sb now))"
  unfolding sql_inv_def by (rule effect_balanced [OF effect_ReserveAllocation]) (auto intro: balanced_reserve)

lemma sql_inv_Release: "sql_inv s \<Longrightarrow> sql_inv (snd (sql_ReleaseAllocation s t w a now))"
  unfolding sql_inv_def by (rule effect_balanced [OF effect_ReleaseAllocation]) (auto intro: balanced_release)


lemma effect_ok: "effect s f (None, s') \<Longrightarrow> f = Some (db s')"
  by (simp add: effect_def)


lemma sql_set_ok:
  assumes "sql_SetQuota s t w l = (None, s')"
  shows "\<exists>c. c = (case sql_quota s (t, w) of None \<Rightarrow> 0 | Some (_, c) \<Rightarrow> c) \<and> c \<le> l \<and>
           sql_quota s' = (sql_quota s)((t, w) \<mapsto> (l, c)) \<and> sql_ledger s' = sql_ledger s"
proof -
  from effect_SetQuota [of s t w l] assms have "set_tx t w l (db s) = Some (db s')" by (auto dest: effect_ok)
  then show ?thesis
    unfolding set_tx_def Let_def by (auto simp: sql_quota_def sql_ledger_def fun_eq_iff dest: sym split: if_splits)
qed

lemma sql_reserve_ok:
  assumes "sql_ReserveAllocation s t w a sb now = (None, s')"
  shows "\<exists>l c. sql_quota s (t, w) = Some (l, c) \<and> c < l \<and> sql_quota s' = (sql_quota s)((t, w) \<mapsto> (l, c + 1)) \<and>
           sql_ledger s' = (sql_ledger s)(a \<mapsto> ''RESERVED'')"
proof -
  from effect_ReserveAllocation [of s t w a sb now] assms have "reserve_tx t w a sb now (db s) = Some (db s')" by (auto dest: effect_ok)
  then show ?thesis
    unfolding reserve_tx_def by (auto simp: sql_quota_def sql_ledger_def fun_eq_iff dest: sym split: if_splits option.splits)
qed

lemma sql_release_ok:
  assumes "sql_ReleaseAllocation s t w a now = (None, s')"
  shows "(sql_ledger s a = Some ''RELEASED'' \<and> sql_quota s' = sql_quota s \<and> sql_ledger s' = sql_ledger s) \<or>
      (\<exists>l c. sql_ledger s a = Some ''RESERVED'' \<and> sql_quota s (t, w) = Some (l, c) \<and> 0 < c \<and>
             sql_quota s' = (sql_quota s)((t, w) \<mapsto> (l, c - 1)) \<and> sql_ledger s' = (sql_ledger s)(a \<mapsto> ''RELEASED''))"
proof -
  from effect_ReleaseAllocation [of s t w a now] assms have "release_tx t w a now (db s) = Some (db s')" by (auto dest: effect_ok)
  then show ?thesis
    unfolding release_tx_def by (auto simp: sql_quota_def sql_ledger_def fun_eq_iff dest: sym split: if_splits option.splits)
qed

interpretation sq: governance sql_governance Pair sql_quota sql_ledger sql_inv
proof (unfold_locales, unfold sql_governance_sel)
  show "0 \<le> c \<and> c \<le> l" if "sql_inv g" "sql_quota g k = Some (l, c)" for g k l c
    using that balancedD(3) [of "db g" "fst k" "snd k" l c] by (auto simp: sql_inv_def sql_quota_def)
  show "st = ''RESERVED'' \<or> st = ''RELEASED''" if "sql_inv g" "sql_ledger g a = Some st" for g a st
    using that balancedD(4) [of "db g" a] by (auto simp: sql_inv_def sql_ledger_def)
qed (erule sql_inv_SetQuota sql_inv_Reserve sql_inv_Release sql_set_ok sql_reserve_ok sql_release_ok)+



section \<open>Errors\<close>

definition errs :: "persistence_error set \<Rightarrow> persistence_error option \<times> SQLStore \<Rightarrow> bool" where
  "errs E r \<longleftrightarrow> (\<forall>e. fst r = Some e \<longrightarrow> e \<in> E \<or> (\<exists>t. e = DriverError t))"

lemma errs_other: "errs E r \<Longrightarrow> e \<notin> E \<Longrightarrow> (\<And>t. e \<noteq> DriverError t) \<Longrightarrow> fst r \<noteq> Some e"
  by (auto simp: errs_def)

lemma errs_Commit: "errs E (Commit tx s)"
  by (auto simp: errs_def Commit_def split: list.splits outcome.splits)

lemma errs_call:
  assumes "\<And>s1. db s1 = db s \<Longrightarrow> errs E (k s1)"
  shows "errs E (driver_call s k)"
proof (cases "outcomes s")
  case Nil
  with assms [of s] show ?thesis by (simp add: driver_call_def)
next
  case (Cons q os)
  with assms [of "s\<lparr>outcomes := os\<rparr>"] show ?thesis by (cases q) (simp_all add: driver_call_def errs_def)
qed

lemma release_errs:
  assumes "balanced (db s)"
  shows "errs {persistence_error.ErrInvalidArgument, persistence_error.ErrAllocationNotFound} (sql_ReleaseAllocation s t w a now)"
proof -
  obtain rows tx where mk: "mark_released a t w now (db s) = (rows, tx)" by fastforce
  obtain rows' tx' where dec: "decrement t w tx = (rows', tx')" by fastforce
  have one: "rows' = 1" if "rows \<noteq> 0"
  proof -
    from that mk obtain r where r: "t_quota_allocation (db s) a = Some r" "holds_slot t w r" "t_owner_quota tx = t_owner_quota (db s)"
      by (auto simp: mark_released_def holds_slot_def split: option.splits if_splits)
    then have a: "a \<in> reserved (db s) t w" by (auto simp: reserved_def)
    moreover have "reserved (db s) t w \<subseteq> dom (t_quota_allocation (db s))" by (auto simp: reserved_def)
    then have "finite (reserved (db s) t w)" using balancedD(1) [OF assms] finite_subset by blast
    ultimately have "0 < card (reserved (db s) t w)" by (auto simp: card_gt_0_iff)
    with a balancedD(2,3) [OF assms, of t w] obtain l c where "t_owner_quota (db s) (t, w) = Some (l, c)" "0 < c"
      by (cases "t_owner_quota (db s) (t, w)") auto
    with r(3) dec show ?thesis by (auto simp: decrement_def)
  qed
  have status: "select_status a t w tx = Some st \<Longrightarrow> st = ''RELEASED''" if "rows = 0" for st
    using that mk balancedD(4) [OF assms, of a]
    by (auto simp: mark_released_def select_status_def split: option.splits if_splits)
  show ?thesis
    using mk dec one status
    by (auto simp: sql_ReleaseAllocation_def errs_Commit split: option.split intro!: errs_call) (auto simp: errs_def)
qed

lemma reserve_errs: "errs {persistence_error.ErrInvalidArgument, persistence_error.ErrQuotaExceeded} (sql_ReserveAllocation s t w a sb now)"
  by (auto simp: sql_ReserveAllocation_def errs_Commit split: option.split prod.split intro!: errs_call) (auto simp: errs_def)

lemma set_errs: "errs {persistence_error.ErrInvalidArgument, persistence_error.ErrQuotaBelowUsage} (sql_SetQuota s t w l)"
  by (auto simp: sql_SetQuota_def Let_def errs_Commit split: option.split intro!: errs_call) (auto simp: errs_def)

section \<open>Refinement of the in-memory store\<close>





lemma calls_Nil: "outcomes s = [] \<Longrightarrow> driver_call s k = k s" "outcomes s = [] \<Longrightarrow> Commit tx s = (None, s\<lparr>db := tx\<rparr>)"
  by (simp_all add: driver_call_def Commit_def)

lemma nul_key_same:
  assumes "NUL \<notin> set t" and "NUL \<notin> set t'"
  shows "nul_key t w = nul_key t' w' \<longleftrightarrow> t = t' \<and> w = w'"
proof
  have first: "takeWhile (\<lambda>c. c \<noteq> NUL) (x @ NUL # y) = x" if "NUL \<notin> set x" for x y
    using that by (auto simp: takeWhile_append)
  assume "nul_key t w = nul_key t' w'"
  then have eq: "t @ NUL # w = t' @ NUL # w'" by (simp add: nul_key_def)
  then have "t = t'" using first [OF assms(1), of w] first [OF assms(2), of w'] by simp
  with eq show "t = t' \<and> w = w'" by simp
qed simp

lemma same_quota_upd:
  assumes "\<forall>t w. NUL \<notin> set t \<longrightarrow> q (t, w) = p (nul_key t w)" and "NUL \<notin> set t"
  shows "\<forall>t' w'. NUL \<notin> set t' \<longrightarrow> (q((t, w) \<mapsto> v)) (t', w') = (p(nul_key t w \<mapsto> v)) (nul_key t' w')"
  using assms by (auto simp: nul_key_same)










section \<open>Claims\<close>

definition sql_start :: "outcome list \<Rightarrow> SQLStore" where
  "sql_start os = \<lparr>db = empty_db, dialect = DialectPostgres, outcomes = os\<rparr>"

lemma sql_start_inv: "sql_inv (sql_start os)"
  by (simp add: sql_inv_def sql_start_def balanced_empty)

text \<open>
  C32. The SQL ledger balances: on an empty database, after any calls and any failures of
  the driver, commits whose answer is lost included, the count of an owner is the number
  of its reserved allocations and within its limit, and no further call reports a corrupt
  quota or an invalid allocation state.
\<close>

theorem sql_ledger_balanced:
  assumes "NewSQLStore (Some empty_db) dia os = Inr s" and "s' = gov_run sql_governance calls s"
  shows "(t_owner_quota (db s') (t, w) = Some (l, c) \<longrightarrow> c = int (card (reserved (db s') t w)) \<and> c \<le> l) \<and>
     (t_owner_quota (db s') (t, w) = None \<longrightarrow> reserved (db s') t w = {}) \<and>
     fst (gov_apply sql_governance call s') \<notin> {Some persistence_error.ErrQuotaCorrupt, Some persistence_error.ErrAllocationState}"
proof -
  from assms(1) have "sql_inv s" by (auto simp: NewSQLStore_def sql_inv_def balanced_empty split: if_splits)
  then have b: "balanced (db s')" using sq.run_ginv assms(2) by (simp add: sql_inv_def)
  have "fst (gov_apply sql_governance call s') \<notin> {Some persistence_error.ErrQuotaCorrupt, Some persistence_error.ErrAllocationState}"
  proof (cases call)
    case (CallSetQuota t w l)
    then show ?thesis using errs_other [OF set_errs [of s' t w l]] by simp
  next
    case (CallReserve t w a sb now)
    then show ?thesis using errs_other [OF reserve_errs [of s' t w a sb now]] by simp
  next
    case (CallRelease t w a now)
    then show ?thesis using errs_other [OF release_errs [OF b, of t w a now]] by simp
  qed
  with balancedD(2,3) [OF b, of t w] show ?thesis by blast
qed

theorem sql_ledger_balanced_witness:
  "\<exists>s. NewSQLStore (Some empty_db) ''mysql'' [] = Inr s \<and>
     (let s' = gov_run sql_governance [CallSetQuota ''t'' ''w'' 2, CallReserve ''t'' ''w'' ''a'' ''s'' 0] s in
      t_owner_quota (db s') (''t'', ''w'') = Some (2, 1) \<and> 1 = int (card (reserved (db s') ''t'' ''w'')))"
proof -
  have s: "NewSQLStore (Some empty_db) ''mysql'' [] = Inr \<lparr>db = empty_db, dialect = ''mysql'', outcomes = []\<rparr>"
    by (simp add: NewSQLStore_def DialectMySQL_def)
  let ?s' = "gov_run sql_governance [CallSetQuota ''t'' ''w'' 2, CallReserve ''t'' ''w'' ''a'' ''s'' 0] \<lparr>db = empty_db, dialect = ''mysql'', outcomes = []\<rparr>"
  have q: "t_owner_quota (db ?s') (''t'', ''w'') = Some (2, 1)" by code_simp
  then have "1 = int (card (reserved (db ?s') ''t'' ''w''))"
    using sql_ledger_balanced [OF s refl, where calls = "[CallSetQuota ''t'' ''w'' 2, CallReserve ''t'' ''w'' ''a'' ''s'' 0]"
        and t = "''t''" and w = "''w''" and l = 2 and c = 1] by blast
  with q s show ?thesis unfolding Let_def by blast
qed



text \<open>
  C34. \<open>InsertIdempotencyPending\<close> stores the owner as the key: the arguments of the
  statement are bound as tenant, owner, key while its columns are tenant, key, owner. A
  second key of the same owner is accepted and stored nowhere.
\<close>

theorem sql_idempotency_swapped:
  assumes "t \<noteq> []" and "w \<noteq> []" and "k1 \<noteq> []" and "k2 \<noteq> []" and "h1 \<noteq> []" and "h2 \<noteq> []"
    and "sql_InsertIdempotencyPending (sql_start []) t w k1 h1 x1 = (None, s1)"
    and "sql_InsertIdempotencyPending s1 t w k2 h2 x2 = (None, s2)"
  shows "t_idempotency_key (db s2) = [(t, w) \<mapsto> \<lparr>si_owner = k1, si_hash = h1, si_status = ''PENDING'', si_lease = 1, si_expires = x1\<rparr>]"
  using assms by (auto simp: sql_InsertIdempotencyPending_def calls_Nil sql_start_def insert_pending_def empty_db_def)

theorem sql_idempotency_swapped_witness:
  "\<exists>s1 s2. sql_InsertIdempotencyPending (sql_start []) ''t'' ''alice'' ''k1'' ''h1'' 0 = (None, s1) \<and>
     sql_InsertIdempotencyPending s1 ''t'' ''alice'' ''k2'' ''h2'' 0 = (None, s2) \<and> t_idempotency_key (db s2) (''t'', ''k2'') = None"
proof -
  obtain s1 where s1: "sql_InsertIdempotencyPending (sql_start []) ''t'' ''alice'' ''k1'' ''h1'' 0 = (None, s1)" "outcomes s1 = []"
    by (simp add: sql_InsertIdempotencyPending_def calls_Nil sql_start_def)
  then obtain s2 where s2: "sql_InsertIdempotencyPending s1 ''t'' ''alice'' ''k2'' ''h2'' 0 = (None, s2)"
    by (simp add: sql_InsertIdempotencyPending_def calls_Nil)
  from sql_idempotency_swapped [OF _ _ _ _ _ _ s1(1) s2] s1(1) s2 show ?thesis by auto
qed







end
