(* ===== verification/Sql_Open.thy ===== *)
theory Sql_Open
  imports Sql_Claims Go_Http
begin

text \<open>
  \<open>internal/persistence/open.go\<close> and \<open>migrate.go\<close>: opening the database and creating the
  tables under an advisory lock. The database server is outside: every call has an answer
  that may depend on all calls before it, and the calls with their answers are recorded
  as events. Several replicas that open the same database are an interleaving of their
  events, which the server restricts by its rule for locks.
\<close>

section \<open>Model\<close>

subsection \<open>The data source name\<close>

text \<open>What \<open>url.Parse\<close> gives for a data source name: the parts the code reads.\<close>

record DsnURL =
  d_Username :: string
  d_Password :: string
  d_Host :: string
  d_Path :: string
  d_Query :: "(string, string list) fmap"

datatype dsn_error = ParseMySQLDSN | HostAndDatabaseRequired | UnsupportedScheme string

text \<open>\<open>url.QueryEscape\<close> and \<open>url.Values.Encode\<close>.\<close>

definition unescapedInQuery :: "char \<Rightarrow> bool" where
  "unescapedInQuery c =
     (let b = of_char c :: nat in
      48 \<le> b \<and> b \<le> 57 \<or> 65 \<le> b \<and> b \<le> 90 \<or> 97 \<le> b \<and> b \<le> 122 \<or> c \<in> set ''-_.~'')"

definition hex_digit :: "nat \<Rightarrow> char" where
  "hex_digit n = ''0123456789ABCDEF'' ! n"

fun QueryEscape :: "string \<Rightarrow> string" where
  "QueryEscape [] = []"
| "QueryEscape (c # s) =
     (if unescapedInQuery c then c # QueryEscape s
      else if c = CHR '' '' then CHR ''+'' # QueryEscape s
      else CHR ''%'' # hex_digit (of_char c div 16) # hex_digit (of_char c mod 16) # QueryEscape s)"

definition Values_Encode :: "(string, string list) fmap \<Rightarrow> string" where
  "Values_Encode q =
     Join (concat (map (\<lambda>k. map (\<lambda>v. QueryEscape k @ ''='' @ QueryEscape v)
                          (case fmlookup q k of None \<Rightarrow> [] | Some vs \<Rightarrow> vs))
                    (sorted_list_of_fset (fmdom q)))) ''&''"

definition parseDSN :: "(string \<Rightarrow> DsnURL option) \<Rightarrow> string \<Rightarrow> (dsn_error, string \<times> Dialect \<times> string) result" where
  \<comment> \<open>lower case is ASCII here: no other letter has a lower case that occurs in the prefixes\<close>
  "parseDSN parse dsn =
     (let lower = map ascii_lower dsn in
      if HasPrefix lower ''postgres://'' \<or> HasPrefix lower ''postgresql://'' then Inr (''pgx'', DialectPostgres, dsn)
      else if HasPrefix lower ''mysql://'' then
        (case parse dsn of
           None \<Rightarrow> Inl ParseMySQLDSN
         | Some u \<Rightarrow>
             let dbname = TrimPrefix (d_Path u) ''/'' in
             if d_Host u = [] \<or> dbname = [] then Inl HostAndDatabaseRequired
             else
               let normalized = d_Username u @ '':'' @ d_Password u @ ''@tcp('' @ d_Host u @ '')/'' @ dbname;
                   encoded = Values_Encode (fmupd ''parseTime'' [''true''] (d_Query u))
               in Inr (''mysql'', DialectMySQL, if encoded \<noteq> [] then normalized @ ''?'' @ encoded else normalized))
      else Inl (UnsupportedScheme dsn))"

subsection \<open>Calls and answers\<close>

datatype db_event =
    EvOpen string string "string option"
  | EvConfigure int int duration
  | EvPing "string option"
  | EvClose
  | EvConn "string option"
  | EvConnClose
  | EvExec string "int list" "string option"
  | EvQueryInt string "(string, int option) result"

record DbEnv =
  db_Open :: "db_event list \<Rightarrow> string \<Rightarrow> string \<Rightarrow> string option"
  db_Ping :: "db_event list \<Rightarrow> string option"
  db_Conn :: "db_event list \<Rightarrow> string option"
  db_Exec :: "db_event list \<Rightarrow> string \<Rightarrow> int list \<Rightarrow> string option"
  db_QueryInt :: "db_event list \<Rightarrow> string \<Rightarrow> (string, int option) result" \<comment> \<open>\<open>None\<close> is NULL\<close>

subsection \<open>Migration\<close>

definition SchemaStatements :: "Dialect \<Rightarrow> string list" where
  "SchemaStatements dia =
     (if dia = DialectPostgres then
        [''CREATE TABLE IF NOT EXISTS t_owner_quota (tenant_id VARCHAR(128) NOT NULL, owner_id VARCHAR(128) NOT NULL, concurrent_limit INTEGER NOT NULL, current_count INTEGER NOT NULL DEFAULT 0 CHECK (current_count >= 0), PRIMARY KEY (tenant_id, owner_id))'',
         ''CREATE TABLE IF NOT EXISTS t_quota_allocation (allocation_id VARCHAR(128) PRIMARY KEY, tenant_id VARCHAR(128) NOT NULL, owner_id VARCHAR(128) NOT NULL, sandbox_id VARCHAR(128) NOT NULL, status VARCHAR(16) NOT NULL, created_time TIMESTAMP(3) NOT NULL, released_time TIMESTAMP(3))'',
         ''CREATE TABLE IF NOT EXISTS t_idempotency_key (tenant_id VARCHAR(128) NOT NULL, idem_key VARCHAR(256) NOT NULL, owner_id VARCHAR(128) NOT NULL, request_hash CHAR(64) NOT NULL, status VARCHAR(16) NOT NULL, resource_id VARCHAR(128), lease_version BIGINT NOT NULL DEFAULT 1, expires_at TIMESTAMP(3) NOT NULL, PRIMARY KEY (tenant_id, idem_key))'']
      else
        [''CREATE TABLE IF NOT EXISTS t_owner_quota (tenant_id VARCHAR(128) NOT NULL, owner_id VARCHAR(128) NOT NULL, concurrent_limit INT NOT NULL, current_count INT NOT NULL DEFAULT 0, PRIMARY KEY (tenant_id, owner_id), CHECK (current_count >= 0))'',
         ''CREATE TABLE IF NOT EXISTS t_quota_allocation (allocation_id VARCHAR(128) PRIMARY KEY, tenant_id VARCHAR(128) NOT NULL, owner_id VARCHAR(128) NOT NULL, sandbox_id VARCHAR(128) NOT NULL, status VARCHAR(16) NOT NULL, created_time DATETIME(3) NOT NULL, released_time DATETIME(3))'',
         ''CREATE TABLE IF NOT EXISTS t_idempotency_key (tenant_id VARCHAR(128) NOT NULL, idem_key VARCHAR(256) NOT NULL, owner_id VARCHAR(128) NOT NULL, request_hash CHAR(64) NOT NULL, status VARCHAR(16) NOT NULL, resource_id VARCHAR(128), lease_version BIGINT NOT NULL DEFAULT 1, expires_at DATETIME(3) NOT NULL, PRIMARY KEY (tenant_id, idem_key))''])"

definition migrationLockKey :: int where "migrationLockKey = 7378697629483820646"

datatype mig_error = ConnError string | AcquireLock string | LockTimedOut | SchemaError string

fun exec_all :: "DbEnv \<Rightarrow> string list \<Rightarrow> db_event list \<Rightarrow> mig_error option \<times> db_event list" where
  "exec_all E [] h = (None, h)"
| "exec_all E (statement # rest) h =
     (case db_Exec E h statement [] of
        Some err \<Rightarrow> (Some (SchemaError err), h @ [EvExec statement [] (Some err)])
      | None \<Rightarrow> exec_all E rest (h @ [EvExec statement [] None]))"

definition Migrate :: "DbEnv \<Rightarrow> SQLStore \<Rightarrow> db_event list \<Rightarrow> mig_error option \<times> db_event list" where
  "Migrate E s h = exec_all E (SchemaStatements (dialect s)) h"

definition acquireMigrationLock :: "DbEnv \<Rightarrow> SQLStore \<Rightarrow> db_event list \<Rightarrow> mig_error option \<times> db_event list" where
  "acquireMigrationLock E s h =
     (if dialect s = DialectPostgres then
        let a = db_Exec E h ''SELECT pg_advisory_lock($1)'' [migrationLockKey];
            h = h @ [EvExec ''SELECT pg_advisory_lock($1)'' [migrationLockKey] a]
        in (map_option AcquireLock a, h)
      else
        let stmt = ''SELECT GET_LOCK('' @ [CHR 39] @ ''kubebox_migrate'' @ [CHR 39] @ '', 30)'';
            a = db_QueryInt E h stmt;
            h = h @ [EvQueryInt stmt a]
        in (case a of
              Inl e \<Rightarrow> (Some (AcquireLock e), h)
            | Inr got \<Rightarrow> (if got \<noteq> Some 1 then Some LockTimedOut else None, h)))"

text \<open>The function \<open>acquireMigrationLock\<close> returns; its error is dropped.\<close>

definition unlock :: "DbEnv \<Rightarrow> SQLStore \<Rightarrow> db_event list \<Rightarrow> db_event list" where
  "unlock E s h =
     (if dialect s = DialectPostgres then
        h @ [EvExec ''SELECT pg_advisory_unlock($1)'' [migrationLockKey]
               (db_Exec E h ''SELECT pg_advisory_unlock($1)'' [migrationLockKey])]
      else
        let stmt = ''SELECT RELEASE_LOCK('' @ [CHR 39] @ ''kubebox_migrate'' @ [CHR 39] @ '')''
        in h @ [EvExec stmt [] (db_Exec E h stmt [])])"

definition MigrateLocked :: "DbEnv \<Rightarrow> SQLStore \<Rightarrow> db_event list \<Rightarrow> mig_error option \<times> db_event list" where
  "MigrateLocked E s h =
     (let a = db_Conn E h;
          h = h @ [EvConn a]
      in case a of
           Some err \<Rightarrow> (Some (ConnError err), h)
         | None \<Rightarrow>
             (case acquireMigrationLock E s h of
                (Some err, h) \<Rightarrow> (Some err, h @ [EvConnClose])
              | (None, h) \<Rightarrow>
                  (case exec_all E (SchemaStatements (dialect s)) h of
                     (err, h) \<Rightarrow> (err, unlock E s h @ [EvConnClose]))))"

subsection \<open>Opening\<close>

datatype sql_open_error =
    DsnError dsn_error
  | OpenError Dialect string
  | PingError Dialect string
  | StoreError open_error
  | MigrateError Dialect mig_error

text \<open>\<open>d\<close> is the content of the database, and \<open>os\<close> the outcomes of the calls of the store to come.\<close>

definition OpenSQLStore ::
  "DbEnv \<Rightarrow> (string \<Rightarrow> DsnURL option) \<Rightarrow> sql_db \<Rightarrow> outcome list \<Rightarrow> string
     \<Rightarrow> db_event list \<Rightarrow> (sql_open_error, SQLStore) result \<times> db_event list" where
  "OpenSQLStore E parse d os dsn h =
     (case parseDSN parse dsn of
        Inl err \<Rightarrow> (Inl (DsnError err), h)
      | Inr (driverName, dia, normalized) \<Rightarrow>
          let a = db_Open E h driverName normalized;
              h = h @ [EvOpen driverName normalized a]
          in (case a of
                Some err \<Rightarrow> (Inl (OpenError dia err), h)
              | None \<Rightarrow>
                  let h = h @ [EvConfigure 20 10 (3600 * Second)];
                      a = db_Ping E h;
                      h = h @ [EvPing a]
                  in (case a of
                        Some err \<Rightarrow> (Inl (PingError dia err), h @ [EvClose])
                      | None \<Rightarrow>
                          (case NewSQLStore (Some d) dia os of
                             Inl err \<Rightarrow> (Inl (StoreError err), h @ [EvClose])
                           | Inr store \<Rightarrow>
                               (case MigrateLocked E store h of
                                  (Some err, h) \<Rightarrow> (Inl (MigrateError dia err), h @ [EvClose])
                                | (None, h) \<Rightarrow> (Inr store, h))))))"

text \<open>\<open>Close\<close>: the handle of a store from \<open>NewSQLStore\<close> is never \<open>nil\<close>. The answer is the driver's.\<close>

definition SQLStore_Close :: "string option \<Rightarrow> db_event list \<Rightarrow> string option \<times> db_event list" where
  "SQLStore_Close a h = (a, h @ [EvClose])"

section \<open>The discipline of one replica\<close>

definition takes_lock :: "Dialect \<Rightarrow> db_event \<Rightarrow> bool" where
  "takes_lock dia e =
     (if dia = DialectPostgres then e = EvExec ''SELECT pg_advisory_lock($1)'' [migrationLockKey] None
      else e = EvQueryInt (''SELECT GET_LOCK('' @ [CHR 39] @ ''kubebox_migrate'' @ [CHR 39] @ '', 30)'') (Inr (Some 1)))"

fun releases_lock :: "Dialect \<Rightarrow> db_event \<Rightarrow> bool" where
  "releases_lock dia (EvExec t args a) =
     (if dia = DialectPostgres then t = ''SELECT pg_advisory_unlock($1)'' \<and> args = [migrationLockKey]
      else t = ''SELECT RELEASE_LOCK('' @ [CHR 39] @ ''kubebox_migrate'' @ [CHR 39] @ '')'')"
| "releases_lock dia e = False"

fun schema_event :: "Dialect \<Rightarrow> db_event \<Rightarrow> bool" where
  "schema_event dia (EvExec t args a) = (args = [] \<and> t \<in> set (SchemaStatements dia))"
| "schema_event dia e = False"

datatype mig_phase = Before | Holding | After

definition next_phase :: "Dialect \<Rightarrow> mig_phase \<Rightarrow> db_event \<Rightarrow> mig_phase" where
  "next_phase dia ph e = (if takes_lock dia e then Holding else if releases_lock dia e then After else ph)"

fun legal :: "Dialect \<Rightarrow> mig_phase \<Rightarrow> db_event list \<Rightarrow> bool" where
  "legal dia ph [] = True"
| "legal dia ph (e # es) =
     ((takes_lock dia e \<longrightarrow> ph = Before) \<and> (schema_event dia e \<longrightarrow> ph = Holding) \<and> (releases_lock dia e \<longrightarrow> ph = Holding) \<and>
      legal dia (next_phase dia ph e) es)"

lemma next_phase_simps [simp]:
  "takes_lock dia e \<Longrightarrow> next_phase dia ph e = Holding"
  "\<not> takes_lock dia e \<Longrightarrow> releases_lock dia e \<Longrightarrow> next_phase dia ph e = After"
  "\<not> takes_lock dia e \<Longrightarrow> \<not> releases_lock dia e \<Longrightarrow> next_phase dia ph e = ph"
  by (simp_all add: next_phase_def)

lemma legal_append: "legal dia ph (a @ b) \<longleftrightarrow> legal dia ph a \<and> legal dia (foldl (next_phase dia) ph a) b"
  by (induction a arbitrary: ph) simp_all

text \<open>A schema statement is neither of the statements for the lock.\<close>

lemma schema_head: "t \<in> set (SchemaStatements dia) \<Longrightarrow> take 1 t = ''C''"
  by (auto simp: SchemaStatements_def split: if_splits)

lemma schema_no_lock:
  assumes "t \<in> set (SchemaStatements dia)"
  shows "\<not> takes_lock dia (EvExec t args a)" and "\<not> releases_lock dia (EvExec t args a)"
  using schema_head [OF assms] by (auto simp: takes_lock_def)

lemma releases_other [simp]: "\<not> releases_lock dia (EvConn a)" "\<not> releases_lock dia EvConnClose"
  "\<not> takes_lock dia (EvConn a)" "\<not> takes_lock dia EvConnClose"
  by (simp_all add: takes_lock_def)

lemma exec_all_legal:
  assumes "set ts \<subseteq> set (SchemaStatements dia)" and "exec_all E ts h = (r, h')"
  shows "\<exists>es. h' = h @ es \<and> legal dia Holding es \<and> foldl (next_phase dia) Holding es = Holding \<and>
     (\<forall>e \<in> set es. schema_event dia e) \<and> (r = None \<longrightarrow> es = map (\<lambda>t. EvExec t [] None) ts)"
  using assms
proof (induction ts arbitrary: h)
  case (Cons t ts)
  have n: "\<not> takes_lock dia (EvExec t [] a)" "\<not> releases_lock dia (EvExec t [] a)" for a
    using schema_no_lock [of t dia] Cons.prems(1) by auto
  show ?case
  proof (cases "db_Exec E h t []")
    case None
    with Cons.prems(2) have "exec_all E ts (h @ [EvExec t [] None]) = (r, h')" by simp
    from Cons.IH [OF _ this] Cons.prems(1) obtain es where es: "h' = (h @ [EvExec t [] None]) @ es" "legal dia Holding es"
      "foldl (next_phase dia) Holding es = Holding" "\<forall>e \<in> set es. schema_event dia e"
      "r = None \<longrightarrow> es = map (\<lambda>t. EvExec t [] None) ts" by auto
    then show ?thesis using n Cons.prems(1)
      by (intro exI [of _ "EvExec t [] None # es"]) (simp del: releases_lock.simps)
  next
    case (Some err)
    with n Cons.prems show ?thesis
      by (intro exI [of _ "[EvExec t [] (Some err)]"]) (auto simp del: releases_lock.simps)
  qed
qed simp

text \<open>
  A migration takes the lock, runs schema statements, releases the lock and gives the
  connection back; on success it ran all of them.
\<close>

lemma dialect_apart: "DialectPostgres \<noteq> DialectMySQL"
  by (simp add: DialectPostgres_def DialectMySQL_def)

lemma unlock_releases: "\<exists>e. unlock E s h = h @ [e] \<and> releases_lock (dialect s) e \<and> \<not> takes_lock (dialect s) e \<and> \<not> schema_event (dialect s) e"
  using schema_head [of "''SELECT RELEASE_LOCK('' @ [CHR 39] @ ''kubebox_migrate'' @ [CHR 39] @ '')''" "dialect s"]
  by (auto simp: unlock_def takes_lock_def Let_def)

fun plain_event :: "db_event \<Rightarrow> bool" where
  "plain_event (EvExec t args a) = True"
| "plain_event (EvQueryInt t a) = True"
| "plain_event e = False"

lemma acquire_takes:
  assumes "acquireMigrationLock E s h = (r, h')"
  shows "\<exists>e. h' = h @ [e] \<and> plain_event e \<and> takes_lock (dialect s) e = (r = None) \<and> \<not> releases_lock (dialect s) e \<and> \<not> schema_event (dialect s) e"
  using assms by (auto simp: acquireMigrationLock_def takes_lock_def Let_def split: if_splits sum.splits)

definition migration_trace :: "Dialect \<Rightarrow> mig_error option \<Rightarrow> db_event list \<Rightarrow> bool" where
  "migration_trace dia r t \<longleftrightarrow>
     (\<exists>e. r \<noteq> None \<and> t = [EvConn (Some e)]) \<or>
     (\<exists>e. r \<noteq> None \<and> t = [EvConn None, e, EvConnClose] \<and> plain_event e \<and> \<not> takes_lock dia e \<and> \<not> releases_lock dia e \<and> \<not> schema_event dia e) \<or>
     (\<exists>l es u. t = [EvConn None, l] @ es @ [u, EvConnClose] \<and>
        takes_lock dia l \<and> \<not> releases_lock dia l \<and> \<not> schema_event dia l \<and> legal dia Holding es \<and> foldl (next_phase dia) Holding es = Holding \<and>
        (\<forall>e \<in> set es. schema_event dia e) \<and> (r = None \<longrightarrow> es = map (\<lambda>t. EvExec t [] None) (SchemaStatements dia)) \<and>
        releases_lock dia u \<and> \<not> takes_lock dia u \<and> \<not> schema_event dia u)"

lemma MigrateLocked_trace:
  assumes "MigrateLocked E s h = (r, h')"
  shows "\<exists>t. h' = h @ t \<and> migration_trace (dialect s) r t"
proof (cases "db_Conn E h")
  case (Some e)
  with assms show ?thesis by (intro exI [of _ "[EvConn (Some e)]"]) (auto simp: MigrateLocked_def migration_trace_def)
next
  case None
  obtain r1 h1 where a: "acquireMigrationLock E s (h @ [EvConn None]) = (r1, h1)" by fastforce
  from acquire_takes [OF a] obtain l where l: "h1 = (h @ [EvConn None]) @ [l]" "plain_event l" "takes_lock (dialect s) l = (r1 = None)"
    "\<not> releases_lock (dialect s) l" "\<not> schema_event (dialect s) l" by blast
  show ?thesis
  proof (cases r1)
    case Some
    with None a l assms show ?thesis
      by (intro exI [of _ "[EvConn None, l, EvConnClose]"]) (auto simp: MigrateLocked_def migration_trace_def)
  next
    case none: None
    obtain r2 h2 where x: "exec_all E (SchemaStatements (dialect s)) h1 = (r2, h2)" by fastforce
    from exec_all_legal [OF subset_refl x] obtain es where es: "h2 = h1 @ es" "legal (dialect s) Holding es"
      "foldl (next_phase (dialect s)) Holding es = Holding" "\<forall>e \<in> set es. schema_event (dialect s) e"
      "r2 = None \<longrightarrow> es = map (\<lambda>t. EvExec t [] None) (SchemaStatements (dialect s))" by blast
    from unlock_releases [of E s h2] obtain u where u: "unlock E s h2 = h2 @ [u]" "releases_lock (dialect s) u"
      "\<not> takes_lock (dialect s) u" "\<not> schema_event (dialect s) u" by blast
    have "r = r2" "h' = h @ ([EvConn None, l] @ es @ [u, EvConnClose])"
      using assms None a none x u(1) es(1) l(1) by (simp_all add: MigrateLocked_def)
    moreover have "migration_trace (dialect s) r2 ([EvConn None, l] @ es @ [u, EvConnClose])"
      unfolding migration_trace_def using l none es(2-5) u(2-4) by blast
    ultimately show ?thesis by blast
  qed
qed

lemma migration_trace_legal: "migration_trace dia r t \<Longrightarrow> legal dia Before t"
  by (auto simp: migration_trace_def legal_append)

lemma NewSQLStore_fields: "NewSQLStore (Some d) dia os = Inr st \<Longrightarrow> st = \<lparr>db = d, dialect = dia, outcomes = os\<rparr>"
  by (simp add: NewSQLStore_def split: if_splits)

text \<open>The calls of an opening: the handle, and then the migration on it.\<close>

lemma OpenSQLStore_cases:
  assumes "OpenSQLStore E parse d os dsn [] = (r, t)"
  obtains (dsn) err where "parseDSN parse dsn = Inl err" "r = Inl (DsnError err)" "t = []"
  | (failed) drv dia norm err where "parseDSN parse dsn = Inr (drv, dia, norm)" "r = Inl (OpenError dia err)"
      "t = [EvOpen drv norm (Some err)]"
  | (ping) drv dia norm a err where "parseDSN parse dsn = Inr (drv, dia, norm)" "r = Inl err"
      "t = [EvOpen drv norm None, EvConfigure 20 10 (3600 * Second), EvPing a, EvClose]"
  | (migrated) drv dia norm q m where "parseDSN parse dsn = Inr (drv, dia, norm)" "migration_trace dia q m"
      "t = [EvOpen drv norm None, EvConfigure 20 10 (3600 * Second), EvPing None] @ m @ (if q = None then [] else [EvClose])"
      "r = (case q of None \<Rightarrow> Inr \<lparr>db = d, dialect = dia, outcomes = os\<rparr> | Some e \<Rightarrow> Inl (MigrateError dia e))"
proof (cases "parseDSN parse dsn")
  case (Inl err)
  with assms dsn show ?thesis by (simp add: OpenSQLStore_def)
next
  case (Inr b)
  obtain drv dia norm where p: "parseDSN parse dsn = Inr (drv, dia, norm)" using Inr by (cases b) auto
  show ?thesis
  proof (cases "db_Open E [] drv norm")
    case (Some err)
    with assms p failed [OF p, of err] show ?thesis by (simp add: OpenSQLStore_def Let_def)
  next
    case o: None
    let ?h = "[EvOpen drv norm None, EvConfigure 20 10 (3600 * Second)]"
    show ?thesis
    proof (cases "db_Ping E ?h")
      case (Some err)
      with assms p o ping [where a = "Some err" and err = "PingError dia err", OF p] show ?thesis by (simp add: OpenSQLStore_def Let_def)
    next
      case g: None
      show ?thesis
      proof (cases "NewSQLStore (Some d) dia os")
        case (Inl err)
        with assms p o g ping [where a = None and err = "StoreError err", OF p] show ?thesis by (simp add: OpenSQLStore_def Let_def)
      next
        case (Inr st)
        note st = NewSQLStore_fields [OF Inr]
        obtain q h' where q: "MigrateLocked E st (?h @ [EvPing None]) = (q, h')" by fastforce
        from MigrateLocked_trace [OF q] obtain m where m: "h' = (?h @ [EvPing None]) @ m" "migration_trace dia q m"
          using st by auto
        with assms p o g Inr q st show ?thesis
          by (intro migrated [OF p m(2)]) (auto simp: OpenSQLStore_def Let_def split: option.splits)
      qed
    qed
  qed
qed

lemma opening_events [simp]:
  "\<not> releases_lock dia (EvOpen x y z)" "\<not> releases_lock dia (EvConfigure i j k)" "\<not> releases_lock dia (EvPing z)" "\<not> releases_lock dia EvClose"
  "\<not> takes_lock dia (EvOpen x y z)" "\<not> takes_lock dia (EvConfigure i j k)" "\<not> takes_lock dia (EvPing z)" "\<not> takes_lock dia EvClose"
  by (simp_all add: takes_lock_def)

lemma OpenSQLStore_legal:
  assumes "OpenSQLStore E parse d os dsn [] = (r, t)" and "parseDSN parse dsn = Inr (drv, dia, norm)"
  shows "legal dia Before t"
  using assms(1)
proof (cases rule: OpenSQLStore_cases)
  case (migrated drv' dia' norm' q m)
  with assms(2) show ?thesis using migration_trace_legal [of dia q m] by (simp add: legal_append)
qed (use assms(2) in simp_all)

section \<open>Several replicas on one server\<close>

datatype server_event = Call nat db_event | Gone nat \<comment> \<open>the replica's sessions end\<close>

text \<open>
  The lock of the server: it is given to one replica at a time (the same session may take
  it again), is free again after the owner's release or the end of its session; a release
  that reports an error may or may not have been carried out.
\<close>

inductive server_run :: "Dialect \<Rightarrow> server_event list \<Rightarrow> nat option \<Rightarrow> bool" for dia where
  sv_start: "server_run dia [] None"
| sv_take: "server_run dia w h \<Longrightarrow> takes_lock dia e \<Longrightarrow> h = None \<or> h = Some r \<Longrightarrow> server_run dia (w @ [Call r e]) (Some r)"
| sv_release: "server_run dia w h \<Longrightarrow> releases_lock dia e \<Longrightarrow>
    server_run dia (w @ [Call r e]) (if h = Some r then None else h)"
| sv_release_lost: "server_run dia w h \<Longrightarrow> releases_lock dia (EvExec t args (Some err)) \<Longrightarrow>
    server_run dia (w @ [Call r (EvExec t args (Some err))]) h"
| sv_gone: "server_run dia w h \<Longrightarrow> server_run dia (w @ [Gone r]) (if h = Some r then None else h)"
| sv_other: "server_run dia w h \<Longrightarrow> \<not> takes_lock dia e \<Longrightarrow> \<not> releases_lock dia e \<Longrightarrow> server_run dia (w @ [Call r e]) h"

fun calls :: "nat \<Rightarrow> server_event list \<Rightarrow> db_event list" where
  "calls r [] = []"
| "calls r (Call r' e # w) = (if r' = r then e # calls r w else calls r w)"
| "calls r (Gone r' # w) = calls r w"

text \<open>A replica makes the calls of an opening, as far as it got, and none after its end.\<close>

definition opens :: "(string \<Rightarrow> DsnURL option) \<Rightarrow> Dialect \<Rightarrow> server_event list \<Rightarrow> nat \<Rightarrow> bool" where
  "opens parse dia w r \<longleftrightarrow>
     (\<exists>E d os dsn drv norm. parseDSN parse dsn = Inr (drv, dia, norm) \<and> prefix (calls r w) (snd (OpenSQLStore E parse d os dsn []))) \<and>
     (\<forall>a b. w = a @ Gone r # b \<longrightarrow> calls r b = [])"

definition phase :: "Dialect \<Rightarrow> nat \<Rightarrow> server_event list \<Rightarrow> mig_phase" where
  "phase dia r w = (if Gone r \<in> set w then After else foldl (next_phase dia) Before (calls r w))"

lemma calls_append [simp]: "calls r (a @ b) = calls r a @ calls r b"
  by (induction r a rule: calls.induct) simp_all

lemma opens_prefix: "opens parse dia (w @ v) r \<Longrightarrow> opens parse dia w r"
proof -
  assume o: "opens parse dia (w @ v) r"
  then obtain E d os dsn drv norm where p: "parseDSN parse dsn = Inr (drv, dia, norm)"
    "prefix (calls r w @ calls r v) (snd (OpenSQLStore E parse d os dsn []))" by (auto simp: opens_def)
  moreover have "calls r b = []" if "w = a @ Gone r # b" for a b
  proof -
    have "w @ v = a @ Gone r # (b @ v)" using that by simp
    with o have "calls r (b @ v) = []" unfolding opens_def by blast
    then show ?thesis by simp
  qed
  ultimately show ?thesis unfolding opens_def using append_prefixD by blast
qed

lemma opens_call:
  assumes "opens parse dia (a @ Call r e # b) r"
  shows "Gone r \<notin> set a" and "legal dia Before (calls r a @ [e])"
proof -
  show "Gone r \<notin> set a"
  proof
    assume "Gone r \<in> set a"
    then obtain a1 a2 where "a = a1 @ Gone r # a2" by (auto dest: split_list)
    with assms have "calls r (a2 @ Call r e # b) = []" unfolding opens_def by (metis append_Cons append_assoc)
    then show False by simp
  qed
  from assms obtain E d os dsn drv norm where p: "parseDSN parse dsn = Inr (drv, dia, norm)"
    "prefix (calls r (a @ Call r e # b)) (snd (OpenSQLStore E parse d os dsn []))" unfolding opens_def by blast
  then obtain t where "snd (OpenSQLStore E parse d os dsn []) = (calls r a @ [e]) @ t" by (auto elim!: prefixE)
  with OpenSQLStore_legal [OF prod.collapse [symmetric] p(1)] show "legal dia Before (calls r a @ [e])"
    by (metis legal_append)
qed

lemma opens_phase:
  assumes "opens parse dia (a @ Call r e # b) r"
  shows "takes_lock dia e \<Longrightarrow> phase dia r a = Before" and "schema_event dia e \<Longrightarrow> phase dia r a = Holding"
    and "releases_lock dia e \<Longrightarrow> phase dia r a = Holding"
  using opens_call [OF assms] by (simp_all add: phase_def legal_append)

lemma server_run_prefix:
  assumes "server_run dia (v @ u) h"
  obtains h' where "server_run dia v h'"
proof -
  have "\<exists>h'. server_run dia v h'" if "server_run dia w h" "prefix v w" for w
    using that by (induction) (auto simp: prefix_snoc simp del: releases_lock.simps intro: server_run.intros)
  from this [OF assms] that show ?thesis by auto
qed

lemma phase_snoc [simp]:
  "phase dia r (w @ [Gone r']) = (if r = r' then After else phase dia r w)"
  "phase dia r (w @ [Call r' e]) = (if r = r' \<and> Gone r \<notin> set w then next_phase dia (phase dia r w) e else phase dia r w)"
  by (simp_all add: phase_def)

lemma lock_holder:
  assumes "server_run dia w h" and "\<And>r. opens parse dia w r" and "phase dia r w = Holding"
  shows "h = Some r"
  using assms
proof (induction arbitrary: r)
  case sv_start
  then show ?case by (simp add: phase_def)
next
  case (sv_take w h e r')
  show ?case
  proof (rule ccontr)
    assume "\<not> Some r' = Some r"
    with sv_take.prems(2) have "phase dia r w = Holding" by simp
    with sv_take opens_prefix have "h = Some r" by blast
    with sv_take.hyps(3) \<open>\<not> Some r' = Some r\<close> show False by simp
  qed
next
  case (sv_release w h e r')
  have r': "phase dia r' w = Holding" using opens_phase(3) [of parse dia w r' e "[]"] sv_release by simp
  then have h: "h = Some r'" using sv_release opens_prefix by blast
  have "Gone r' \<notin> set w" using r' by (auto simp: phase_def)
  moreover have "\<not> takes_lock dia e" using sv_release.hyps(2) by (cases e) (auto simp: takes_lock_def split: if_splits)
  ultimately have "r \<noteq> r'" using sv_release.prems(2) sv_release.hyps(2) by auto
  with sv_release.prems(2) have "phase dia r w = Holding" by simp
  then have "h = Some r" using sv_release opens_prefix by blast
  with h \<open>r \<noteq> r'\<close> show ?case by simp
next
  case (sv_release_lost w h t args err r')
  let ?e = "EvExec t args (Some err)"
  have "phase dia r' w = Holding" using opens_phase(3) [of parse dia w r' ?e "[]"] sv_release_lost by simp
  then have "Gone r' \<notin> set w" by (auto simp: phase_def)
  moreover have "\<not> takes_lock dia ?e" by (simp add: takes_lock_def)
  ultimately have "r \<noteq> r'" using sv_release_lost.prems(2) sv_release_lost.hyps(2) by auto
  with sv_release_lost.prems(2) have "phase dia r w = Holding" by simp
  then show ?case using sv_release_lost opens_prefix by blast
next
  case (sv_gone w h r')
  then have "r \<noteq> r'" "phase dia r w = Holding" by (simp_all split: if_splits)
  then have "h = Some r" using sv_gone opens_prefix by blast
  with \<open>r \<noteq> r'\<close> show ?case by simp
next
  case (sv_other w h e r')
  then have "phase dia r w = Holding" by (simp split: if_splits)
  then show ?case using sv_other opens_prefix by blast
qed

text \<open>A replica that holds the lock at two moments of a run holds it in between.\<close>

lemma legal_after: "legal dia After b \<Longrightarrow> foldl (next_phase dia) After b = After"
  by (induction b) (auto simp: next_phase_def)

lemma legal_holding:
  assumes "legal dia Holding (a @ b)" and "foldl (next_phase dia) Holding (a @ b) = Holding"
  shows "foldl (next_phase dia) Holding a = Holding"
  using assms
proof (induction a)
  case (Cons e a)
  show ?case
  proof (cases "releases_lock dia e")
    case True
    with Cons.prems(1) have "next_phase dia Holding e = After" by (simp add: next_phase_def)
    with Cons.prems have "legal dia After (a @ b)" "foldl (next_phase dia) After (a @ b) = Holding" by simp_all
    with legal_after [of dia "a @ b"] show ?thesis by simp
  qed (use Cons in auto)
qed simp

lemma phase_between:
  assumes "opens parse dia (a @ Call r e # b) r" and "a = a1 @ a2" and "phase dia r a1 = Holding" and "phase dia r a = Holding"
  shows "phase dia r a1 = Holding \<and> (\<forall>x y. a2 = x @ y \<longrightarrow> phase dia r (a1 @ x) = Holding)"
proof (intro conjI allI impI)
  fix x y assume a2: "a2 = x @ y"
  note c = opens_call [OF assms(1)]
  have "legal dia Holding (calls r x @ calls r y)" "foldl (next_phase dia) Holding (calls r x @ calls r y) = Holding"
    using c assms(2-4) a2 by (simp_all add: phase_def legal_append)
  from legal_holding [OF this] c(1) assms(2,3) a2 show "phase dia r (a1 @ x) = Holding" by (simp add: phase_def)
qed fact

section \<open>Claims\<close>

text \<open>An example: two replicas open a PostgreSQL database, the second while the first migrates.\<close>

fun server_exec :: "Dialect \<Rightarrow> nat option \<Rightarrow> server_event list \<Rightarrow> nat option option" where
  "server_exec dia h [] = Some h"
| "server_exec dia h (Gone r # w) = server_exec dia (if h = Some r then None else h) w"
| "server_exec dia h (Call r e # w) =
     (if takes_lock dia e then if h = None \<or> h = Some r then server_exec dia (Some r) w else None
      else if releases_lock dia e then server_exec dia (if h = Some r then None else h) w
      else server_exec dia h w)"

lemma server_exec_run: "server_run dia v h \<Longrightarrow> server_exec dia h w = Some h' \<Longrightarrow> server_run dia (v @ w) h'"
proof (induction dia h w arbitrary: v rule: server_exec.induct)
  case (2 dia h r w)
  then show ?case using sv_gone [OF 2(2), of r] by fastforce
next
  case (3 dia h r e w)
  then show ?case using sv_take [OF 3(4), of e r] sv_release [OF 3(4), of e r] sv_other [OF 3(4), of e r]
    by (fastforce split: if_splits)
qed simp

definition sure_db :: DbEnv where
  "sure_db = \<lparr>db_Open = \<lambda>_ _ _. None, db_Ping = \<lambda>_. None, db_Conn = \<lambda>_. None, db_Exec = \<lambda>_ _ _. None, db_QueryInt = \<lambda>_ _. Inr (Some 1)\<rparr>"

definition demo_opening :: "db_event list" where
  "demo_opening = snd (OpenSQLStore sure_db (\<lambda>_. None) empty_db [] ''postgres://db/kubebox'' [])"

definition demo_server :: "server_event list" where
  "demo_server = map (Call 0) (take 6 demo_opening) @ map (Call 1) (take 2 demo_opening) @ [Call 0 (demo_opening ! 6)] @
     map (Call 1) (take 2 (drop 2 demo_opening)) @ map (Call 0) (drop 7 demo_opening) @ map (Call 1) (drop 4 demo_opening)"

definition demo_schema :: "nat \<Rightarrow> db_event" where
  "demo_schema i = EvExec (SchemaStatements DialectPostgres ! i) [] None"

lemma demo_opening_eq:
  "demo_opening =
     [EvOpen ''pgx'' ''postgres://db/kubebox'' None, EvConfigure 20 10 (3600 * Second), EvPing None, EvConn None,
      EvExec ''SELECT pg_advisory_lock($1)'' [migrationLockKey] None, demo_schema 0, demo_schema 1, demo_schema 2,
      EvExec ''SELECT pg_advisory_unlock($1)'' [migrationLockKey] None, EvConnClose]"
proof -
  have "parseDSN (\<lambda>_. None) ''postgres://db/kubebox'' = Inr (''pgx'', DialectPostgres, ''postgres://db/kubebox'')" by code_simp
  moreover have "SchemaStatements DialectPostgres = [SchemaStatements DialectPostgres ! 0, SchemaStatements DialectPostgres ! 1, SchemaStatements DialectPostgres ! 2]"
    by (simp add: SchemaStatements_def)
  then obtain x y z where "SchemaStatements DialectPostgres = [x, y, z]" by blast
  ultimately show ?thesis
    by (simp add: demo_opening_def OpenSQLStore_def sure_db_def NewSQLStore_def MigrateLocked_def acquireMigrationLock_def unlock_def
        demo_schema_def)
qed


lemma demo_schema_events:
  "\<not> takes_lock DialectPostgres (demo_schema 0)" "\<not> releases_lock DialectPostgres (demo_schema 0)" "schema_event DialectPostgres (demo_schema 0)"
  "\<not> takes_lock DialectPostgres (demo_schema (Suc 0))" "\<not> releases_lock DialectPostgres (demo_schema (Suc 0))" "schema_event DialectPostgres (demo_schema (Suc 0))"
  "\<not> takes_lock DialectPostgres (demo_schema (Suc (Suc 0)))" "\<not> releases_lock DialectPostgres (demo_schema (Suc (Suc 0)))"
proof -
  have "length (SchemaStatements DialectPostgres) = 3" by (simp add: SchemaStatements_def)
  then have "SchemaStatements DialectPostgres ! i \<in> set (SchemaStatements DialectPostgres)" if "i < 3" for i
    using that by simp
  from this [of 0] this [of 1] this [of 2] show
    "\<not> takes_lock DialectPostgres (demo_schema 0)" "\<not> releases_lock DialectPostgres (demo_schema 0)" "schema_event DialectPostgres (demo_schema 0)"
    "\<not> takes_lock DialectPostgres (demo_schema (Suc 0))" "\<not> releases_lock DialectPostgres (demo_schema (Suc 0))" "schema_event DialectPostgres (demo_schema (Suc 0))"
    "\<not> takes_lock DialectPostgres (demo_schema (Suc (Suc 0)))" "\<not> releases_lock DialectPostgres (demo_schema (Suc (Suc 0)))"
    unfolding demo_schema_def by (simp_all add: schema_no_lock numeral_2_eq_2 del: releases_lock.simps)
qed

text \<open>What a migration does to the handle and the connection.\<close>

lemma lock_plain: "takes_lock dia e \<Longrightarrow> plain_event e" "releases_lock dia e \<Longrightarrow> plain_event e"
  by (cases e; auto simp: takes_lock_def split: if_splits)+

lemma schema_plain: "schema_event dia e \<Longrightarrow> plain_event e"
  by (cases e) simp_all

lemma migration_trace_counts:
  assumes "migration_trace dia q m"
  shows "EvClose \<notin> set m \<and> count_list m EvClose = 0 \<and> (\<forall>x y z. EvOpen x y z \<notin> set m) \<and>
     count_list m (EvConn None) = count_list m EvConnClose"
proof -
  consider e where "m = [EvConn (Some e)]" | e where "m = [EvConn None, e, EvConnClose]" "plain_event e"
    | l es u where "m = [EvConn None, l] @ es @ [u, EvConnClose]" "plain_event l" "plain_event u" "\<forall>e \<in> set es. plain_event e"
    using assms unfolding migration_trace_def by (elim disjE exE conjE) (metis lock_plain schema_plain)+
  then show ?thesis
  proof cases
    case 3
    have "x \<notin> set es" if "\<not> plain_event x" for x using 3(4) that by blast
    then have "EvClose \<notin> set es" "EvConn None \<notin> set es" "EvConnClose \<notin> set es" "\<And>x y z. EvOpen x y z \<notin> set es" by auto
    with 3(1-3) show ?thesis by (auto simp: count_notin)
  qed auto
qed

text \<open>
  C36. Migrations of several replicas do not interleave: in every run of any number of
  replicas that open the same database, crashes and failing calls included, no replica
  runs a schema statement between two schema statements of another.
\<close>

theorem migrations_serialised:
  assumes "server_run dia w h" and "\<And>r. opens parse dia w r"
    and "w = a @ Call r e1 # b @ Call r e2 # c" and "schema_event dia e1" and "schema_event dia e2"
  shows "\<forall>r' e. Call r' e \<in> set b \<and> schema_event dia e \<longrightarrow> r' = r"
proof (intro allI impI)
  fix r' e assume e: "Call r' e \<in> set b \<and> schema_event dia e"
  then obtain b1 b2 where b: "b = b1 @ Call r' e # b2" by (auto dest: split_list)
  let ?v = "a @ Call r e1 # b1"
  have w: "w = ?v @ (Call r' e # b2 @ Call r e2 # c)" using assms(3) b by simp
  have "phase dia r a = Holding" using opens_phase(2) [of parse dia a r e1 "b @ Call r e2 # c"] assms(2-4) by simp
  moreover have "phase dia r (a @ Call r e1 # b) = Holding"
    using opens_phase(2) [of parse dia "a @ Call r e1 # b" r e2 c] assms(2,3,5) by simp
  ultimately have "phase dia r ?v = Holding"
    using phase_between [of parse dia "a @ Call r e1 # b" r e2 c a "Call r e1 # b"] assms(2,3) b
    by (metis append_Cons append_assoc)
  moreover have "phase dia r' ?v = Holding" using opens_phase(2) [of parse dia ?v r' e "b2 @ Call r e2 # c"] assms(2) w e by simp
  moreover obtain h' where "server_run dia ?v h'" using assms(1) unfolding w by (rule server_run_prefix)
  moreover have "opens parse dia ?v q" for q using assms(2) opens_prefix unfolding w by blast
  ultimately show "r' = r" using lock_holder by (metis option.inject)
qed

theorem migrations_serialised_witness:
  "server_run DialectPostgres demo_server None \<and>
   list_all (\<lambda>ev. case ev of Call r e \<Rightarrow> if schema_event DialectPostgres e then r = 0 else True | Gone r \<Rightarrow> True)
     [Call 1 (EvOpen ''pgx'' ''postgres://db/kubebox'' None), Call 1 (EvConfigure 20 10 (3600 * Second))]"
proof -
  let ?b = "[Call 1 (EvOpen ''pgx'' ''postgres://db/kubebox'' None), Call 1 (EvConfigure 20 10 (3600 * Second))]"
  have w: "demo_server = map (Call 0) (take 5 demo_opening) @ Call 0 (demo_schema 0) # ?b @ Call 0 (demo_schema 1) #
      (map (Call 1) (take 2 (drop 2 demo_opening)) @ map (Call 0) (drop 7 demo_opening) @ map (Call 1) (drop 4 demo_opening))"
    by (simp add: demo_server_def demo_opening_eq)
  have run: "server_run DialectPostgres ([] @ demo_server) None"
    by (rule server_exec_run [OF sv_start])
      (simp add: demo_server_def demo_opening_eq numeral_eq_Suc demo_schema_events takes_lock_def)
  have "calls r demo_server = (if r = 0 \<or> r = 1 then demo_opening else [])" for r
    by (simp add: demo_server_def demo_opening_eq numeral_eq_Suc)
  moreover have "Gone r \<notin> set demo_server" for r by (auto simp: demo_server_def)
  moreover have "parseDSN (\<lambda>_. None) ''postgres://db/kubebox'' = Inr (''pgx'', DialectPostgres, ''postgres://db/kubebox'')" by code_simp
  ultimately have "opens (\<lambda>_. None) DialectPostgres demo_server r" for r
    unfolding opens_def demo_opening_def by (metis in_set_conv_decomp Nil_prefix prefix_order.refl)
  from migrations_serialised [OF _ this w] run demo_schema_events(3,6) show ?thesis by simp
qed

text \<open>
  Every outcome of opening is accounted for: a store is returned only after the ping,
  with the lock taken before and released after all schema statements of its dialect, and
  nothing else was run; on an error after the handle was opened the handle is closed,
  once and last; the connection of the migration is always given back.
\<close>

theorem OpenSQLStore_outcome:
  assumes "OpenSQLStore E parse d os dsn [] = (r, t)"
  shows "(case r of
     Inr st \<Rightarrow> \<exists>drv norm l u. parseDSN parse dsn = Inr (drv, dialect st, norm) \<and> db st = d \<and>
       takes_lock (dialect st) l \<and> releases_lock (dialect st) u \<and>
       t = [EvOpen drv norm None, EvConfigure 20 10 (3600 * Second), EvPing None, EvConn None, l] @
           map (\<lambda>s. EvExec s [] None) (SchemaStatements (dialect st)) @ [u, EvConnClose]
   | Inl err \<Rightarrow> ((\<exists>drv norm. EvOpen drv norm None \<in> set t) \<longleftrightarrow> t \<noteq> [] \<and> last t = EvClose) \<and>
       count_list t EvClose = (if t \<noteq> [] \<and> last t = EvClose then 1 else 0)) \<and>
   count_list t (EvConn None) = count_list t EvConnClose"
  using assms
proof (cases rule: OpenSQLStore_cases)
  case (migrated drv dia norm q m)
  show ?thesis
  proof (cases q)
    case None
    with migrated(2) obtain l u where m: "m = [EvConn None, l] @ map (\<lambda>t. EvExec t [] None) (SchemaStatements dia) @ [u, EvConnClose]"
      "takes_lock dia l" "releases_lock dia u" by (auto simp: migration_trace_def)
    moreover have "count_list m (EvConn None) = count_list m EvConnClose"
      using migration_trace_counts [OF migrated(2)] by simp
    ultimately show ?thesis using migrated None by auto
  next
    case (Some e)
    with migration_trace_counts [OF migrated(2)] migrated show ?thesis by auto
  qed
qed auto

theorem OpenSQLStore_outcome_witness:
  "\<exists>st. OpenSQLStore sure_db (\<lambda>_. None) empty_db [] ''postgres://db/kubebox'' [] = (Inr st, demo_opening) \<and> dialect st = DialectPostgres \<and>
     count_list demo_opening (EvConn None) = count_list demo_opening EvConnClose"
proof -
  obtain r where r: "OpenSQLStore sure_db (\<lambda>_. None) empty_db [] ''postgres://db/kubebox'' [] = (r, demo_opening)"
    unfolding demo_opening_def by (metis surjective_pairing)
  note c = OpenSQLStore_outcome [OF this]
  have p: "parseDSN (\<lambda>_. None) ''postgres://db/kubebox'' = Inr (''pgx'', DialectPostgres, ''postgres://db/kubebox'')" by code_simp
  from c have "\<exists>st. r = Inr st" by (cases r) (auto simp: demo_opening_eq)
  with c p r show ?thesis by auto
qed

end
