(* ===== verification/Sandbox_Claims.thy ===== *)
theory Sandbox_Claims
  imports Sandbox_Properties
begin

text \<open>
  The properties of the sandbox store (\<open>internal/sandbox/service.go\<close>), each with a
  witness on a concrete run: a tenant with one slot creates, repeats, drains.
\<close>

section \<open>A concrete run\<close>

definition demo_request :: CreateRequest where
  "demo_request = \<lparr>r_TenantID = ''acme'', r_Template = ''python'', r_RuntimeClass = [], r_TTLSeconds = 600,
                   r_Resources = None\<rparr>"

abbreviation demo_sandbox :: Sandbox where
  "demo_sandbox \<equiv> new_sandbox 1 ''alice'' ''k1'' demo_request 100"

definition demo_quota :: "MemoryGovernanceStore Store" where
  "demo_quota = snd (Store_SetQuota memory_governance NewStore ''acme'' ''alice'' 1)"

definition demo_store :: "MemoryGovernanceStore Store" where
  "demo_store = snd (Create memory_governance demo_quota ''alice'' ''k1'' demo_request 100)"

lemma demo_quota_eq:
  "demo_quota = NewStore\<lparr>quotas := [quotaKey ''acme'' ''alice'' \<mapsto>
     \<lparr>q_TenantID = ''acme'', q_OwnerID = ''alice'', q_ConcurrentLimit = 1, q_CurrentCount = 0\<rparr>]\<rparr>"
  by (simp add: demo_quota_def Store_SetQuota_def NewStore_def Let_def)

lemma demo_valid [simp]: "valid_create ''alice'' k demo_request \<longleftrightarrow> k \<noteq> []"
  by (simp add: valid_create_def demo_request_def)

lemma demo_create:
  "Create memory_governance demo_quota ''alice'' ''k1'' demo_request 100 =
     (Inr demo_sandbox, demo_store)"
  unfolding demo_store_def
  by (simp add: Create_fresh demo_quota_eq NewStore_def reserveSlot_def begin_create_def Let_def demo_request_def valid_create_def)

lemma demo_store_fields:
  "gov demo_store = None" "sequence demo_store = 1"
  "sandboxes demo_store = [sandboxName 1 \<mapsto> demo_sandbox]"
  "quotas demo_store (quotaKey ''acme'' ''alice'') =
     Some \<lparr>q_TenantID = ''acme'', q_OwnerID = ''alice'', q_ConcurrentLimit = 1, q_CurrentCount = 1\<rparr>"
  "idempotency demo_store =
     [''acme'' @ NUL # ''k1'' \<mapsto> (new_record ''alice'' ''k1'' demo_request 100)
        \<lparr>i_Status := IdempotencySucceeded, i_ResourceID := sandboxName 1\<rparr>]"
  unfolding demo_store_def
  by (simp_all add: Create_fresh demo_quota_eq NewStore_def reserveSlot_def begin_create_def commit_create_def
      Let_def demo_request_def valid_create_def)

lemma demo_reachable: "reachable_store memory_governance demo_quota" "reachable_store memory_governance demo_store"
proof -
  show q: "reachable_store memory_governance demo_quota"
    unfolding reachable_store_def store_start_def demo_quota_def
    by (intro exI [of _ NewStore]) (auto intro: store_step.intros)
  have "sequence demo_quota \<noteq> - 1" by (simp add: demo_quota_eq NewStore_def)
  then have "store_step memory_governance demo_quota demo_store"
    unfolding demo_store_def by (rule store_step.intros)
  then show "reachable_store memory_governance demo_store" using q by (blast intro: reachable_steps)
qed

definition demo_drained :: "MemoryGovernanceStore Store" where
  "demo_drained = snd (Drain memory_governance demo_store (sandboxName 1) 200 201)"

lemma demo_drain: "Drain memory_governance demo_store (sandboxName 1) 200 201 = (Inr (draining demo_sandbox 201), demo_drained)"
proof -
  have "sandboxes demo_store (sandboxName 1) = Some demo_sandbox" "sb_Phase demo_sandbox = PhaseReady"
    by (simp_all add: demo_store_fields new_sandbox_def)
  from Drain_ready [OF reachable_inv [OF demo_reachable(2)] demo_store_fields(1) this, of memory_governance 200 201]
  show ?thesis by (auto simp: demo_drained_def)
qed

lemma demo_drain_steps: "store_steps memory_governance demo_store demo_drained"
  unfolding demo_drained_def by (rule r_into_rtranclp, rule store_step.intros)

definition demo_governed_start :: "MemoryGovernanceStore Store" where
  "demo_governed_start = the (NewStoreWithGovernance (Some NewMemoryGovernanceStore))"

definition demo_governed_quota :: "MemoryGovernanceStore Store" where
  "demo_governed_quota = snd (Store_SetQuota memory_governance demo_governed_start ''acme'' ''alice'' 1)"

definition demo_governed :: "MemoryGovernanceStore Store" where
  "demo_governed = snd (Create memory_governance demo_governed_quota ''alice'' ''k1'' demo_request 100)"

lemma demo_governed_steps:
  "NewStoreWithGovernance (Some NewMemoryGovernanceStore) = Some demo_governed_start"
  "store_steps memory_governance demo_governed_start demo_governed"
proof -
  show "NewStoreWithGovernance (Some NewMemoryGovernanceStore) = Some demo_governed_start"
    by (simp add: demo_governed_start_def NewStoreWithGovernance_def)
  have "sequence demo_governed_quota \<noteq> - 1"
    by (simp add: demo_governed_quota_def demo_governed_start_def NewStoreWithGovernance_def Store_SetQuota_def
        Let_def split: option.split prod.split)
  then have "store_step memory_governance demo_governed_quota demo_governed"
    unfolding demo_governed_def by (rule store_step.intros)
  moreover have "store_step memory_governance demo_governed_start demo_governed_quota"
    unfolding demo_governed_quota_def by (rule store_step.intros)
  ultimately show "store_steps memory_governance demo_governed_start demo_governed" by auto
qed

lemma demo_governed_boundary:
  "\<exists>m. gov demo_governed = Some m \<and> mem_quota m (quotaKey ''acme'' ''alice'') = Some (1, 1)"
  unfolding demo_governed_def demo_governed_quota_def demo_governed_start_def
  by (simp add: NewStoreWithGovernance_def Store_SetQuota_def mem_SetQuota_def NewMemoryGovernanceStore_def
      Create_fresh reserveSlot_def begin_create_def commit_create_def mem_ReserveAllocation_def mem_quota_def
      quotaKey_def Let_def demo_request_def valid_create_def allocationName_def sandboxName_def)

section \<open>Quotas\<close>

text \<open>
  C1. Quota safety of the in-memory store: after any sequence of calls, the count of
  an owner's quota row is the number of the owner's ready sandboxes, and no row is
  above its limit.
\<close>

theorem quota_safety:
  assumes "reachable_store G s" and "gov s = None"
  shows "int (card (ready_of s (\<lambda>t' w'. quotaKey t' w' = quotaKey t w))) =
           (case Store_GetQuota s t w of None \<Rightarrow> 0 | Some q \<Rightarrow> q_CurrentCount q) \<and>
         (\<forall>q. Store_GetQuota s t w = Some q \<longrightarrow> q_CurrentCount q \<le> q_ConcurrentLimit q)"
proof -
  have inv: "store_inv s" using assms(1) by (rule reachable_inv)
  then have "card (ready_of s (\<lambda>t' w'. quotaKey t' w' = quotaKey t w)) = card (live_of s (owned_by (quotaKey t w)))"
    using card_live_ready [of s "\<lambda>t' w'. quotaKey t' w' = quotaKey t w"] by (simp add: store_inv_def owned_by_def [abs_def])
  with inv assms(2) show ?thesis
    by (auto simp: store_inv_def counts_ok_def limits_ok_def row_count_def Store_GetQuota_def)
qed

theorem quota_safety_witness:
  "int (card (ready_of demo_store (\<lambda>t' w'. quotaKey t' w' = quotaKey ''acme'' ''alice''))) = 1"
  using quota_safety [OF demo_reachable(2) demo_store_fields(1), of "''acme''" "''alice''"]
  by (simp add: Store_GetQuota_def demo_store_fields)


text \<open>
  C2. Quota safety behind the governance boundary: a store over a fresh in-memory
  boundary keeps the boundary's count equal to the number of the owner's ready
  sandboxes and within the limit, and its own read projection shows that count.
\<close>

theorem governed_quota_agreement:
  assumes "NewStoreWithGovernance (Some NewMemoryGovernanceStore) = Some s0"
    and "store_steps memory_governance s0 s" and "gov s = Some m"
    and "mem_quota m (quotaKey t w) = Some (l, c)"
  shows "c = int (card (ready_of s (\<lambda>t' w'. quotaKey t' w' = quotaKey t w))) \<and> c \<le> l \<and>
         (case Store_GetQuota s t w of None \<Rightarrow> 0 | Some q \<Rightarrow> q_CurrentCount q) = c"
proof -
  have fresh: "c = 0" if "mem_quota NewMemoryGovernanceStore k = Some (l, c)" for k l c
    using that by (simp add: mem_quota_def NewMemoryGovernanceStore_def)
  have b: "c = int (card (ready_of s (\<lambda>t' w'. nul_key t' w' = quotaKey t w))) \<and> c \<le> l"
    by (rule mg.boundary_counts_ready [OF assms(1) fresh mem_inv_New assms(2-4)])
  have inv: "store_inv s" by (rule store_inv_steps [OF assms(2) store_inv_NewStoreWithGovernance [OF assms(1)]])
  then have "int (card (live_of s (owned_by (quotaKey t w)))) = row_count s (quotaKey t w)"
    by (simp add: store_inv_def counts_ok_def)
  with inv b card_live_ready [of s "\<lambda>t' w'. quotaKey t' w' = quotaKey t w"] show ?thesis
    by (simp add: store_inv_def owned_by_def [abs_def] row_count_def Store_GetQuota_def quotaKey_nul_key)
qed

theorem governed_quota_agreement_witness:
  "int (card (ready_of demo_governed (\<lambda>t' w'. quotaKey t' w' = quotaKey ''acme'' ''alice''))) = 1"
proof -
  from demo_governed_boundary obtain m
    where "gov demo_governed = Some m" "mem_quota m (quotaKey ''acme'' ''alice'') = Some (1, 1)" by blast
  from governed_quota_agreement [OF demo_governed_steps this] show ?thesis by simp
qed

section \<open>Idempotent creation\<close>

text \<open>
  C4. A key stays bound to its sandbox for ever: after a successful creation and any further
  calls, a request that agrees with it up to the defaults returns the same sandbox in its
  present phase, takes no new slot and changes nothing. This holds at any later time and in
  any phase: neither the expiry of the key's record, which the code sets and never reads, nor
  the expiry or the deletion of the sandbox ends it (the witness repeats a creation after
  both). The system design (\<open>docs\<close>, idempotent creation) wants such a request to create anew.
\<close>

theorem create_replay:
  assumes "reachable_store G s" and "sequence s \<noteq> - 1" and "Create G s w k req now = (Inr sb, s1)"
    and "store_steps G s1 s2" and "withDefaults req' = withDefaults req"
  shows "\<exists>sb'. Create G s2 w k req' now' = (Inr sb', s2) \<and> same_identity sb sb' \<and> sandboxes s2 (sb_ID sb) = Some sb'"
proof -
  from Create_Inr_record [OF assms(3)] obtain r where v: "valid_create w k req"
    and r: "idempotency s1 (idem_key req k) = Some r" "i_Status r = IdempotencySucceeded"
      "i_RequestHash r = requestHash (withDefaults req)" "i_OwnerID r = w" "sandboxes s1 (i_ResourceID r) = Some sb" by auto
  have "store_step G s s1" using step_Create [OF assms(2), of G w k req now] assms(3) by simp
  with assms(1) have wf: "store_wf s1" by (blast intro: reachable_wf reachable_steps)
  with r(5) have n: "sb_ID sb = i_ResourceID r" using wf_sandbox by (fastforce simp: sandbox_entry_ok_def)
  from steps_sandbox [OF assms(4) wf r(5)] obtain sb' where
    sb': "sandboxes s2 (i_ResourceID r) = Some sb'" "same_identity sb sb'" by blast
  have "Create G s2 w k req' now' = (Inr sb', s2)"
    using Create_repeat [OF steps_idempotency [OF assms(4) r(1)]] v r sb'(1) same_defaults [OF assms(5)] assms(5) by simp
  with sb' n show ?thesis by simp
qed

definition demo_deleted :: "MemoryGovernanceStore Store" where
  "demo_deleted = snd (CompleteDeletion demo_drained (sandboxName 1) 300)"

lemma demo_deleted_steps: "store_steps memory_governance demo_store demo_deleted"
proof -
  have "store_step memory_governance demo_drained demo_deleted" unfolding demo_deleted_def by (rule store_step.intros)
  with demo_drain_steps show ?thesis by (rule rtranclp.rtrancl_into_rtrancl)
qed

lemma demo_deleted_phase: "\<exists>sb. sandboxes demo_deleted (sandboxName 1) = Some sb \<and> sb_Phase sb = PhaseDeleted"
proof -
  have "sandboxes demo_drained (sandboxName 1) = Some (draining demo_sandbox 201)"
    using reachable_wf [OF demo_reachable(2)] demo_drain
  proof (cases rule: Drain_effect)
    case (ok sb al g)
    then show ?thesis unfolding ok(8) by (simp add: drained_def demo_store_fields)
  qed (simp_all add: demo_store_fields new_sandbox_def)
  then show ?thesis by (simp add: demo_deleted_def CompleteDeletion_def draining_def Let_def)
qed

theorem create_replay_witness:
  "\<exists>sb' r. idempotency demo_deleted (''acme'' @ NUL # ''k1'') = Some r \<and> i_ExpiresAt r < 10 ^ 14 \<and> sb_ExpiresAt sb' < 10 ^ 14 \<and>
     Create memory_governance demo_deleted ''alice'' ''k1'' (demo_request\<lparr>r_RuntimeClass := ''gvisor''\<rparr>) (10 ^ 14) = (Inr sb', demo_deleted) \<and>
     same_identity demo_sandbox sb' \<and> sb_Phase sb' = PhaseDeleted"
proof -
  have "sequence demo_quota \<noteq> - 1" by (simp add: demo_quota_eq NewStore_def)
  moreover have "withDefaults (demo_request\<lparr>r_RuntimeClass := ''gvisor''\<rparr>) = withDefaults demo_request"
    by (simp add: withDefaults_def demo_request_def)
  ultimately obtain sb' where sb': "Create memory_governance demo_deleted ''alice'' ''k1'' (demo_request\<lparr>r_RuntimeClass := ''gvisor''\<rparr>) (10 ^ 14) =
      (Inr sb', demo_deleted)" "same_identity demo_sandbox sb'" "sandboxes demo_deleted (sb_ID demo_sandbox) = Some sb'"
    using create_replay [OF demo_reachable(1) _ demo_create demo_deleted_steps] by blast
  have "sb_ID demo_sandbox = sandboxName 1" by (simp add: new_sandbox_def)
  with demo_deleted_phase sb'(3) have ph: "sb_Phase sb' = PhaseDeleted" by auto
  obtain r where r: "idempotency demo_deleted (''acme'' @ NUL # ''k1'') = Some r" "i_ExpiresAt r < 10 ^ 14"
    using steps_idempotency [OF demo_deleted_steps, of "''acme'' @ NUL # ''k1''"]
    by (simp add: demo_store_fields new_record_def withDefaults_def demo_request_def seconds_def time_defs wrap64_def)
  have "sb_ExpiresAt sb' = sb_ExpiresAt demo_sandbox" using same_identity_fields [OF sb'(2)] by simp
  then have "sb_ExpiresAt sb' < 10 ^ 14" by (simp add: new_sandbox_def withDefaults_def demo_request_def seconds_def time_defs wrap64_def)
  with sb' ph r show ?thesis by (intro exI [of _ sb'] exI [of _ r]) simp
qed


text \<open>
  C5. A key is bound to the request and the owner that used it first: after a
  successful creation, a request under the same key with another hash or from another
  owner is refused as a conflict, after any further calls, and changes nothing.
\<close>

theorem create_conflict:
  assumes "Create G s w k req now = (Inr sb, s1)" and "store_steps G s1 s2"
    and "r_TenantID req' = r_TenantID req" and "valid_create w' k req'"
    and "w' \<noteq> w \<or> requestHash (withDefaults req') \<noteq> requestHash (withDefaults req)"
  shows "Create G s2 w' k req' now' = (Inl ErrIdempotencyConflict, s2)"
proof -
  from Create_Inr_record [OF assms(1)] obtain r where r: "idempotency s1 (idem_key req k) = Some r"
      "i_RequestHash r = requestHash (withDefaults req)" "i_OwnerID r = w" by auto
  with Create_prior [OF assms(4), of s2 r] steps_idempotency [OF assms(2) r(1)] assms(3,5) show ?thesis by auto
qed

theorem create_conflict_witness:
  "Create memory_governance demo_drained ''bob'' ''k1'' demo_request 300 = (Inl ErrIdempotencyConflict, demo_drained)"
  by (rule create_conflict [OF demo_create demo_drain_steps])
    (simp_all add: valid_create_def demo_request_def)

section \<open>The life of a sandbox\<close>

text \<open>
  C6. A fresh creation is functionally right: the identifier was not in use, the
  sandbox carries the caller's identity, template and defaults, it can be read back,
  and every other sandbox is as before.
\<close>

theorem create_fresh_sandbox:
  assumes "reachable_store G s" and "sequence s \<noteq> - 1" and "idempotency s (idem_key req k) = None"
    and "Create G s w k req now = (Inr sb, s')"
  shows "sandboxes s (sb_ID sb) = None \<and> Store_Get s' (sb_ID sb) = Inr sb \<and>
         (\<forall>i. i \<noteq> sb_ID sb \<longrightarrow> sandboxes s' i = sandboxes s i) \<and>
         sb_TenantID sb = r_TenantID req \<and> sb_OwnerID sb = w \<and> sb_Template sb = r_Template req \<and>
         sb_RuntimeClass sb = (if r_RuntimeClass req = [] then ''gvisor'' else r_RuntimeClass req) \<and>
         sb_Resources sb = r_Resources req \<and> sb_Phase sb = PhaseReady \<and> sb_CreatedAt sb = now \<and> sb_IdempotencyKey sb = k"
  using assms(4)
proof (cases rule: Create_effect)
  case same
  with assms(3) show ?thesis by auto
next
  case (ok g q)
  then show ?thesis
    using fresh_names(1) [OF reachable_wf [OF assms(1)] assms(2)]
    by (auto simp: new_sandbox_def Store_Get_def withDefaults_def Let_def)
qed auto

theorem create_fresh_sandbox_witness: "sandboxes demo_quota (sandboxName 1) = None \<and> Store_Get demo_store (sandboxName 1) = Inr demo_sandbox"
  using create_fresh_sandbox [OF demo_reachable(1) _ _ demo_create]
  by (simp add: demo_quota_eq NewStore_def new_sandbox_def)

text \<open>
  C8. The life cycle: no call removes a sandbox or changes its identity, and its phase
  only moves from \<open>Ready\<close> to \<open>Draining\<close> and from \<open>Draining\<close> to \<open>Deleted\<close>.
\<close>

theorem sandbox_lifecycle:
  assumes "reachable_store G s" and "store_step G s s'" and "sandboxes s i = Some sb"
  shows "\<exists>sb'. sandboxes s' i = Some sb' \<and> same_identity sb sb' \<and> phase_next (sb_Phase sb) (sb_Phase sb')"
  using step_sandbox [OF assms(2) reachable_wf [OF assms(1)] assms(3)] .

theorem sandbox_lifecycle_witness:
  "\<exists>sb'. sandboxes demo_drained (sandboxName 1) = Some sb' \<and> same_identity demo_sandbox sb' \<and>
         phase_next PhaseReady (sb_Phase sb')"
proof -
  have "store_step memory_governance demo_store demo_drained"
    unfolding demo_drained_def by (rule store_step.intros)
  moreover have "sandboxes demo_store (sandboxName 1) = Some demo_sandbox" "sb_Phase demo_sandbox = PhaseReady"
    by (simp_all add: demo_store_fields new_sandbox_def)
  ultimately show ?thesis using sandbox_lifecycle [OF demo_reachable(2), of demo_drained "sandboxName 1" demo_sandbox] by simp
qed


text \<open>
  C9. Draining frees the slot: in the in-memory store a ready sandbox can always be
  drained, the owner's next creation under a new key then succeeds whatever the limit
  was, and draining again returns the draining sandbox and changes nothing.
\<close>

theorem drain_frees_slot:
  assumes "reachable_store G s" and "gov s = None"
    and "sandboxes s i = Some sb" and "sb_Phase sb = PhaseReady"
    and "r_TenantID req = sb_TenantID sb" and "valid_create (sb_OwnerID sb) k req"
    and "idempotency s (idem_key req k) = None"
  shows "\<exists>s'. Drain G s i now now' = (Inr (draining sb now'), s') \<and>
           Drain G s' i now1 now2 = (Inr (draining sb now'), s') \<and>
           is_ok (fst (Create G s' (sb_OwnerID sb) k req now3))"
proof -
  have inv: "store_inv s" using assms(1) by (rule reachable_inv)
  from Drain_ready [OF inv assms(2-4), of G now now'] obtain al
    where d: "Drain G s i now now' = (Inr (draining sb now'), drained s i sb al None now')"
      and own: "a_TenantID al = sb_TenantID sb" "a_OwnerID al = sb_OwnerID sb"
      and pos: "0 < row_count s (quotaKey (sb_TenantID sb) (sb_OwnerID sb))" by auto
  let ?s = "drained s i sb al None now'" and ?k = "quotaKey (sb_TenantID sb) (sb_OwnerID sb)"
  from pos obtain q where q: "quotas s ?k = Some q" by (auto simp: row_count_def split: option.splits)
  with inv assms(2) have "q_CurrentCount q \<le> q_ConcurrentLimit q" by (auto simp: store_inv_def limits_ok_def)
  moreover have "quotas ?s ?k = Some (q\<lparr>q_CurrentCount := q_CurrentCount q - 1\<rparr>)"
    using drained_row [of s al i sb None now'] pos own q by simp
  ultimately have "is_ok (fst (Create G ?s (sb_OwnerID sb) k req now3))"
    using Create_room [of ?s "sb_OwnerID sb" k req "q\<lparr>q_CurrentCount := q_CurrentCount q - 1\<rparr>"] assms(5-7)
    by (simp add: drained_def)
  moreover have "Drain G ?s i now1 now2 = (Inr (draining sb now'), ?s)"
    by (simp add: Drain_def drained_def draining_def)
  ultimately show ?thesis using d by blast
qed

theorem drain_frees_slot_witness: "is_ok (fst (Create memory_governance demo_drained ''alice'' ''k2'' demo_request 300))"
proof -
  have "sandboxes demo_store (sandboxName 1) = Some demo_sandbox" "sb_Phase demo_sandbox = PhaseReady"
    "r_TenantID demo_request = sb_TenantID demo_sandbox" "valid_create (sb_OwnerID demo_sandbox) ''k2'' demo_request"
    "idempotency demo_store (idem_key demo_request ''k2'') = None"
    by (simp_all add: demo_store_fields new_sandbox_def demo_request_def valid_create_def)
  from drain_frees_slot [OF demo_reachable(2) demo_store_fields(1) this, of 200 201 _ _ 300] show ?thesis
    by (simp add: demo_drain new_sandbox_def)
qed

section \<open>Errors\<close>

text \<open>
  The errors that report a broken store never happen in the in-memory store: a
  creation fails only for its arguments, the quota or the key, and a drain only for an
  unknown or a deleted sandbox.
\<close>

theorem no_internal_errors:
  assumes "reachable_store G s" and "gov s = None"
  shows "(\<forall>e. fst (Create G s w k req now) = Inl e \<longrightarrow>
            e \<in> {ErrInvalidRequest, ErrQuotaNotConfigured, ErrQuotaExceeded, ErrIdempotencyConflict, ErrIdempotencyPending}) \<and>
         (\<forall>e. fst (Drain G s i now now') = Inl e \<longrightarrow>
            e = ErrNotFound \<and> sandboxes s i = None \<or>
            e = ErrInvalidTransition \<and> (\<exists>sb. sandboxes s i = Some sb \<and> sb_Phase sb = PhaseDeleted))"
  using Create_errors [OF reachable_wf [OF assms(1)] assms(2), of G w k req now]
    Drain_errors [OF reachable_inv [OF assms(1)] assms(2), of G i now now'] by blast

theorem no_internal_errors_witness: "fst (Drain memory_governance demo_store ''sbx-9'' 200 201) = Inl ErrNotFound"
proof -
  have n: "sandboxes demo_store ''sbx-9'' = None"
    by (simp add: demo_store_fields sandboxName_def pad08_def itoa.simps)
  then obtain e where "fst (Drain memory_governance demo_store ''sbx-9'' 200 201) = Inl e" by (simp add: Drain_def)
  with no_internal_errors [OF demo_reachable(2) demo_store_fields(1), of "''alice''" "''k2''" demo_request 200 "''sbx-9''" 201] n
  show ?thesis by auto
qed

text \<open>
  A creation the governance boundary refuses leaves no trace in the store: the
  idempotency record is removed again, no sandbox, allocation or quota row changes, and
  the key can be used again.
\<close>

theorem governed_create_failure:
  assumes "gov s = Some g" and "Create G s w k req now = (Inl e, s')"
  shows "sandboxes s' = sandboxes s \<and> allocations s' = allocations s \<and> idempotency s' = idempotency s \<and>
         quotas s' = quotas s"
  using assms(2)
proof (cases rule: Create_effect)
  case (failed g0 g' err)
  then show ?thesis by simp
qed (use assms(1) in simp_all)

theorem governed_create_failure_witness:
  "idempotency (snd (Create memory_governance demo_governed_start ''alice'' ''k1'' demo_request 100)) = Map.empty"
proof -
  have g: "gov demo_governed_start = Some NewMemoryGovernanceStore" "idempotency demo_governed_start = Map.empty"
    by (simp_all add: demo_governed_start_def NewStoreWithGovernance_def)
  then have "\<exists>e. Create memory_governance demo_governed_start ''alice'' ''k1'' demo_request 100 =
        (Inl e, snd (Create memory_governance demo_governed_start ''alice'' ''k1'' demo_request 100))"
    by (simp add: Create_fresh reserveSlot_def begin_create_def mem_ReserveAllocation_def NewMemoryGovernanceStore_def
        Let_def demo_request_def valid_create_def)
  with governed_create_failure [OF g(1)] g(2) show ?thesis by metis
qed


text \<open>
  C10. A creation the in-memory quota refuses burns its key: the pending record stays,
  so after any further calls (a drain, a higher limit) the same request is answered
  with \<open>ErrIdempotencyPending\<close> and never tried again.
\<close>

theorem refused_key_stays_pending:
  assumes "gov s = None" and "Create G s w k req now = (Inl e, s1)"
    and "e = ErrQuotaExceeded \<or> e = ErrQuotaNotConfigured" and "store_steps G s1 s2"
  shows "Create G s2 w k req now' = (Inl ErrIdempotencyPending, s2)"
proof -
  from refused_record [OF assms(2,1,3)] have v: "valid_create w k req"
    and r: "idempotency s1 (idem_key req k) = Some (new_record w k req now)" by auto
  with Create_repeat [OF steps_idempotency [OF assms(4) r] v refl refl, of G now'] show ?thesis
    by (simp add: new_record_def)
qed

theorem refused_key_stays_pending_witness:
  "\<exists>s1. Create memory_governance demo_store ''alice'' ''k2'' demo_request 200 = (Inl ErrQuotaExceeded, s1) \<and>
     fst (Create memory_governance (snd (Drain memory_governance s1 (sandboxName 1) 300 301)) ''alice'' ''k2'' demo_request 400)
       = Inl ErrIdempotencyPending"
proof -
  obtain s1 where c: "Create memory_governance demo_store ''alice'' ''k2'' demo_request 200 = (Inl ErrQuotaExceeded, s1)"
    by (simp add: Create_fresh reserveSlot_def begin_create_def demo_store_fields Let_def demo_request_def valid_create_def)
  have "store_steps memory_governance s1 (snd (Drain memory_governance s1 (sandboxName 1) 300 301))"
    by (rule r_into_rtranclp, rule store_step.intros)
  from refused_key_stays_pending [OF demo_store_fields(1) c _ this] c show ?thesis by auto
qed

text \<open>
  C11. A time to live up to \<open>9223372036\<close> seconds is honoured exactly: the sandbox
  expires that many seconds after its creation, \<open>1800\<close> when none was asked for. One more
  second overflows the product with \<open>time.Second\<close>, and the sandbox expires before it was
  created.
\<close>

theorem expiry_bounds:
  assumes "idempotency s (idem_key req k) = None" and "Create G s w k req now = (Inr sb, s')"
  shows "(r_TTLSeconds req \<le> 9223372036 \<longrightarrow>
            sb_ExpiresAt sb = now + (if r_TTLSeconds req \<le> 0 then 1800 else r_TTLSeconds req) * Second \<and>
            sb_CreatedAt sb < sb_ExpiresAt sb) \<and>
         (r_TTLSeconds req = 9223372037 \<longrightarrow> sb_ExpiresAt sb < sb_CreatedAt sb)"
  using assms(2)
proof (cases rule: Create_effect)
  case same
  with assms(1) show ?thesis by auto
next
  case (ok g q)
  then show ?thesis
    by (auto simp: new_sandbox_def Add_def withDefaults_def Let_def seconds_exact seconds_def [of 9223372037] wrap64_def Second_def)
qed auto

theorem expiry_bounds_witness:
  "\<exists>sb s'. Create memory_governance demo_quota ''alice'' ''k1'' (demo_request\<lparr>r_TTLSeconds := 9223372037\<rparr>) 100 = (Inr sb, s') \<and>
           sb_ExpiresAt sb < sb_CreatedAt sb"
proof -
  obtain sb s' where c: "Create memory_governance demo_quota ''alice'' ''k1'' (demo_request\<lparr>r_TTLSeconds := 9223372037\<rparr>) 100 = (Inr sb, s')"
    by (simp add: Create_fresh demo_quota_eq NewStore_def reserveSlot_def begin_create_def Let_def demo_request_def valid_create_def)
  from expiry_bounds [OF _ c] c show ?thesis by (simp add: demo_quota_eq NewStore_def)
qed

end
