(* ===== verification/Token_Issuer.thy ===== *)
theory Token_Issuer
  imports Go_Crypto Go_Json_Decode
begin

text \<open>
  The credentials of the data plane, \<open>internal/dataplane/proxy.go\<close>: \<open>TokenIssuer\<close>
  signs a JSON payload with HMAC-SHA256 and checks it again. The clock \<open>now\<close> of the
  issuer is an argument of each call.
\<close>

section \<open>Data\<close>

record CredentialEnvelope =
  c_SandboxID :: string
  c_Scopes :: "string list"
  c_ExpiresAt :: int

record tokenPayload = CredentialEnvelope +
  p_IssuedAt :: int

record TokenIssuer =
  secret :: string

datatype token_error = InvalidEnvelope | InvalidSignature | InvalidPayload | CredentialRejected

definition marshalPayload :: "tokenPayload \<Rightarrow> string" where
  "marshalPayload p =
     json_object
       [(''sandboxId'', json_string (c_SandboxID p)), (''scopes'', json_strings (c_Scopes p)),
        (''expiresAt'', json_int (c_ExpiresAt p)), (''issuedAt'', json_int (p_IssuedAt p))]"

definition payloadFields :: "(string \<times> tokenPayload setter) list" where
  "payloadFields =
     [(''sandboxId'', \<lambda>v p. map_option (\<lambda>x. p\<lparr>c_SandboxID := x\<rparr>) (decode_string v (c_SandboxID p))),
      (''scopes'', \<lambda>v p. map_option (\<lambda>x. p\<lparr>c_Scopes := x\<rparr>) (decode_strings v)),
      (''expiresAt'', \<lambda>v p. map_option (\<lambda>x. p\<lparr>c_ExpiresAt := x\<rparr>) (decode_int v (c_ExpiresAt p))),
      (''issuedAt'', \<lambda>v p. map_option (\<lambda>x. p\<lparr>p_IssuedAt := x\<rparr>) (decode_int v (p_IssuedAt p)))]"

definition zeroPayload :: tokenPayload where
  "zeroPayload = \<lparr>c_SandboxID = [], c_Scopes = [], c_ExpiresAt = 0, p_IssuedAt = 0\<rparr>"

definition unmarshalPayload :: "string \<Rightarrow> tokenPayload option" where
  "unmarshalPayload s = Unmarshal payloadFields zeroPayload s"

section \<open>Operations\<close>

definition NewTokenIssuer :: "string \<Rightarrow> TokenIssuer option" where
  "NewTokenIssuer s = (if length s < 32 then None else Some \<lparr>secret = s\<rparr>)"

definition Issue :: "TokenIssuer \<Rightarrow> time \<Rightarrow> string \<Rightarrow> string list \<Rightarrow> duration \<Rightarrow> (token_error, string) result" where
  "Issue i now sandboxID scopes ttl =
     (if sandboxID = [] \<or> length scopes = 0 \<or> ttl \<le> 0 then Inl InvalidEnvelope
      else
        let payload = marshalPayload
              \<lparr>c_SandboxID = sandboxID, c_Scopes = scopes, c_ExpiresAt = Unix (Add now ttl), p_IssuedAt = Unix now\<rparr>;
            encoded = b64_EncodeToString payload;
            signature = b64_EncodeToString (hmac_sha256 (secret i) encoded)
        in Inr (encoded @ ''.'' @ signature))"

fun tok_contains :: "string list \<Rightarrow> string \<Rightarrow> bool" where
  "tok_contains [] wanted = False"
| "tok_contains (value # values) wanted = (if value = wanted then True else tok_contains values wanted)"

definition Validate ::
  "TokenIssuer \<Rightarrow> time \<Rightarrow> string \<Rightarrow> string \<Rightarrow> string \<Rightarrow> (token_error, CredentialEnvelope) result" where
  "Validate i now token sandboxID scope =
     (case Split token (CHR ''.'') of
        [encoded, signature] \<Rightarrow>
          (case b64_DecodeString signature of
             None \<Rightarrow> Inl InvalidSignature
           | Some provided \<Rightarrow>
               if ConstantTimeCompare (hmac_sha256 (secret i) encoded) provided \<noteq> 1 then Inl InvalidSignature
               else
                 (case b64_DecodeString encoded of
                    None \<Rightarrow> Inl InvalidPayload
                  | Some payloadBytes \<Rightarrow>
                      (case unmarshalPayload payloadBytes of
                         None \<Rightarrow> Inl InvalidPayload
                       | Some payload \<Rightarrow>
                           if c_SandboxID payload \<noteq> sandboxID \<or> c_ExpiresAt payload \<le> Unix now \<or>
                              \<not> tok_contains (c_Scopes payload) scope
                           then Inl CredentialRejected
                           else Inr (CredentialEnvelope.truncate payload))))
      | _ \<Rightarrow> Inl InvalidEnvelope)"

section \<open>Lemmas\<close>

lemma tok_contains_iff [simp]: "tok_contains xs x \<longleftrightarrow> x \<in> set xs"
  by (induction xs) auto

lemma fold_names:
  "fold_name ''sandboxId'' = ''SANDBOXID''" "fold_name ''scopes'' = ''SCOPES''"
  "fold_name ''expiresAt'' = ''EXPIRESAT''" "fold_name ''issuedAt'' = ''ISSUEDAT''"
  by code_simp+

definition int64 :: "int \<Rightarrow> bool" where
  "int64 n \<longleftrightarrow> - (2 ^ 63) \<le> n \<and> n < 2 ^ 63"

text \<open>The payload decodes to itself.\<close>

lemma ascii_valid:
  "utf8_valid ''sandboxId''" "utf8_valid ''scopes''" "utf8_valid ''expiresAt''" "utf8_valid ''issuedAt''"
  by (rule utf8_valid_ascii, simp)+

lemma unmarshal_marshalPayload:
  assumes "utf8_valid (c_SandboxID p)" and "\<forall>x \<in> set (c_Scopes p). utf8_valid x"
    and "int64 (c_ExpiresAt p)" and "int64 (p_IssuedAt p)"
  shows "unmarshalPayload (marshalPayload p) = Some p"
proof -
  let ?ms = "[(''sandboxId'', JStr (c_SandboxID p)), (''scopes'', JArr (map JStr (c_Scopes p))),
    (''expiresAt'', JNum (json_int (c_ExpiresAt p))), (''issuedAt'', JNum (json_int (p_IssuedAt p)))]"
  have "list_all2 (encodes_member 1) [(''sandboxId'', json_string (c_SandboxID p)), (''scopes'', json_strings (c_Scopes p)),
      (''expiresAt'', json_int (c_ExpiresAt p)), (''issuedAt'', json_int (p_IssuedAt p))] ?ms"
    by (simp add: encodes_member_def ascii_valid encodes_weaken [of 0 _ _ 1] encodes_string encodes_int encodes_strings assms)
  then have "unmarshalPayload (marshalPayload p) = set_members payloadFields ?ms zeroPayload"
    unfolding unmarshalPayload_def marshalPayload_def by (rule Unmarshal_object) (simp_all add: max_depth_def)
  also have "\<dots> = Some p"
    using assms(3,4)
    by (simp add: payloadFields_def fold_names zeroPayload_def decode_string_def decode_int_def
        ParseInt64_json_int int64_def)
  finally show ?thesis .
qed

lemma Split_token: "Split (b64_EncodeToString a @ ''.'' @ b64_EncodeToString b) (CHR ''.'') = [b64_EncodeToString a, b64_EncodeToString b]"
proof -
  have "CHR ''.'' \<notin> set (b64_EncodeToString s)" for s
    using b64_EncodeToString_plain [of "CHR ''.''" s] by auto
  then show ?thesis by (simp add: Split_append_sep Split_no_sep)
qed

text \<open>What validation does to a token with the right signature.\<close>

definition signedToken :: "TokenIssuer \<Rightarrow> string \<Rightarrow> string" where
  "signedToken i payload =
     b64_EncodeToString payload @ ''.'' @ b64_EncodeToString (hmac_sha256 (secret i) (b64_EncodeToString payload))"

lemma Issue_signed:
  "Issue i now sandboxID scopes ttl =
     (if sandboxID = [] \<or> scopes = [] \<or> ttl \<le> 0 then Inl InvalidEnvelope
      else Inr (signedToken i (marshalPayload
        \<lparr>c_SandboxID = sandboxID, c_Scopes = scopes, c_ExpiresAt = Unix (Add now ttl), p_IssuedAt = Unix now\<rparr>)))"
  by (simp add: Issue_def signedToken_def Let_def)

lemma Validate_signed:
  "Validate i now (signedToken i p) sandboxID scope =
     (case unmarshalPayload p of
        None \<Rightarrow> Inl InvalidPayload
      | Some payload \<Rightarrow>
          if c_SandboxID payload \<noteq> sandboxID \<or> c_ExpiresAt payload \<le> Unix now \<or> scope \<notin> set (c_Scopes payload)
          then Inl CredentialRejected
          else Inr (CredentialEnvelope.truncate payload))"
  unfolding Validate_def signedToken_def Split_token by (simp add: b64_roundtrip ConstantTimeCompare_iff split: option.split)


text \<open>An accepted token carries the signature of its own payload, which grants the request.\<close>

lemma Validate_Inr:
  assumes "Validate i now token sandboxID scope = Inr env"
  shows "\<exists>encoded signature payload.
           token = encoded @ ''.'' @ signature \<and> CHR ''.'' \<notin> set encoded \<and> CHR ''.'' \<notin> set signature \<and>
           b64_DecodeString signature = Some (hmac_sha256 (secret i) encoded) \<and>
           Option.bind (b64_DecodeString encoded) unmarshalPayload = Some payload \<and>
           c_SandboxID payload = sandboxID \<and> Unix now < c_ExpiresAt payload \<and> scope \<in> set (c_Scopes payload) \<and>
           env = CredentialEnvelope.truncate payload"
proof -
  obtain encoded signature where sp: "Split token (CHR ''.'') = [encoded, signature]"
    using assms by (auto simp: Validate_def split: list.splits)
  then have t: "token = encoded @ ''.'' @ signature" "CHR ''.'' \<notin> set encoded" "CHR ''.'' \<notin> set signature"
    by (auto simp: Split_two_iff)
  with assms sp show ?thesis
    by (intro exI [of _ encoded] exI [of _ signature])
      (auto simp: Validate_def ConstantTimeCompare_iff split: option.splits if_splits)
qed


section \<open>Properties\<close>

definition demo_issuer :: TokenIssuer where
  "demo_issuer = \<lparr>secret = replicate 32 (CHR ''k'')\<rparr>"

definition demo_time :: time where
  "demo_time = 63000000000 * Second"

lemma demo_issue: "\<exists>tok. Issue demo_issuer demo_time ''sbx-1'' [''commands'', ''files''] (60 * Second) = Inr tok"
  by (simp add: Issue_def Second_def Let_def)

lemma demo_unix: "Unix demo_time = 864403200" "Unix (Add demo_time (60 * Second)) = 864403260"
  by (simp_all add: demo_time_def Unix_def unix_epoch_def Add_def Second_def)

lemma demo_valid_names: "utf8_valid ''sbx-1''" "\<forall>x \<in> set [''commands'', ''files'']. utf8_valid x"
  by (simp_all add: utf8_valid_ascii)

text \<open>
  C12. An issued credential is good for exactly what it was issued for: validation
  accepts it for its own sandbox, for the scopes it lists and before its expiry, giving
  back the envelope, and rejects it in every other case.
\<close>

theorem issued_token_accepted_iff:
  assumes "Issue i t0 sandboxID scopes ttl = Inr token" and "utf8_valid sandboxID"
    and "\<forall>x \<in> set scopes. utf8_valid x" and "int64 (Unix t0)" and "int64 (Unix (Add t0 ttl))"
  shows "Validate i t1 token sandboxID' scope =
     (if sandboxID' = sandboxID \<and> scope \<in> set scopes \<and> Unix t1 < Unix (Add t0 ttl)
      then Inr \<lparr>c_SandboxID = sandboxID, c_Scopes = scopes, c_ExpiresAt = Unix (Add t0 ttl)\<rparr>
      else Inl CredentialRejected)"
proof -
  let ?p = "\<lparr>c_SandboxID = sandboxID, c_Scopes = scopes, c_ExpiresAt = Unix (Add t0 ttl), p_IssuedAt = Unix t0\<rparr>"
  have "unmarshalPayload (marshalPayload ?p) = Some ?p"
    using assms by (intro unmarshal_marshalPayload) simp_all
  moreover have "token = signedToken i (marshalPayload ?p)"
    using assms(1) by (auto simp: Issue_signed split: if_splits)
  ultimately show ?thesis by (auto simp: Validate_signed CredentialEnvelope.defs)
qed

theorem issued_token_accepted_iff_witness:
  "\<exists>tok. Issue demo_issuer demo_time ''sbx-1'' [''commands'', ''files''] (60 * Second) = Inr tok \<and>
     Validate demo_issuer demo_time tok ''sbx-1'' ''files'' =
       Inr \<lparr>c_SandboxID = ''sbx-1'', c_Scopes = [''commands'', ''files''], c_ExpiresAt = 864403260\<rparr> \<and>
     Validate demo_issuer demo_time tok ''sbx-2'' ''files'' = Inl CredentialRejected \<and>
     Validate demo_issuer (Add demo_time (60 * Second)) tok ''sbx-1'' ''files'' = Inl CredentialRejected"
proof -
  from demo_issue obtain tok where t: "Issue demo_issuer demo_time ''sbx-1'' [''commands'', ''files''] (60 * Second) = Inr tok" by blast
  have "int64 (Unix demo_time)" "int64 (Unix (Add demo_time (60 * Second)))" by (simp_all add: demo_unix int64_def)
  from issued_token_accepted_iff [OF t demo_valid_names this] t show ?thesis by (simp add: demo_unix)
qed

text \<open>
  C13. No credential is accepted unsigned: an accepted token is two dot-free parts of
  which the second is the HMAC of the first under the issuer's secret, and the signed
  payload names the sandbox, lists the scope and has not expired.
\<close>

theorem accepted_token_signed:
  assumes "Validate i now token sandboxID scope = Inr env"
  shows "\<exists>encoded signature payload.
           token = encoded @ ''.'' @ signature \<and> CHR ''.'' \<notin> set encoded \<and> CHR ''.'' \<notin> set signature \<and>
           b64_DecodeString signature = Some (hmac_sha256 (secret i) encoded) \<and>
           Option.bind (b64_DecodeString encoded) unmarshalPayload = Some payload \<and>
           c_SandboxID payload = sandboxID \<and> Unix now < c_ExpiresAt payload \<and> scope \<in> set (c_Scopes payload) \<and>
           env = CredentialEnvelope.truncate payload"
  using assms by (rule Validate_Inr)

theorem accepted_token_signed_witness:
  "\<exists>tok encoded signature.
     Issue demo_issuer demo_time ''sbx-1'' [''files''] (60 * Second) = Inr tok \<and>
     tok = encoded @ ''.'' @ signature \<and> b64_DecodeString signature = Some (hmac_sha256 (secret demo_issuer) encoded)"
proof -
  let ?p = "\<lparr>c_SandboxID = ''sbx-1'', c_Scopes = [''files''], c_ExpiresAt = 864403260, p_IssuedAt = 864403200\<rparr>"
  obtain tok where t: "Issue demo_issuer demo_time ''sbx-1'' [''files''] (60 * Second) = Inr tok"
    and e: "tok = signedToken demo_issuer (marshalPayload ?p)"
    using demo_unix by (simp add: Issue_signed Second_def)
  have "unmarshalPayload (marshalPayload ?p) = Some ?p"
    by (intro unmarshal_marshalPayload) (simp_all add: demo_valid_names utf8_valid_ascii int64_def)
  then obtain env where "Validate demo_issuer demo_time tok ''sbx-1'' ''files'' = Inr env"
    unfolding e by (simp add: Validate_signed demo_unix)
  from accepted_token_signed [OF this] t show ?thesis by blast
qed

end
