(* ===== verification/Route_Registry.thy ===== *)
theory Route_Registry
  imports Go_Http
begin

text \<open>
  The route table of envd-proxy, \<open>RouteRegistry\<close> of \<open>internal/dataplane/proxy.go\<close>. Every
  method holds the lock, so each is one atomic step on the map. The interface the proxy,
  the admin API and the health monitor rely on is the locale \<open>route_table\<close>.
\<close>

section \<open>Model\<close>

record RouteRegistry =
  routes :: "(string, URL) fmap"

definition NewRouteRegistry :: RouteRegistry where
  "NewRouteRegistry = \<lparr>routes = fmempty\<rparr>"

text \<open>\<open>Set\<close>: the target is an option (\<open>nil\<close>); \<open>None\<close> is the error \<open>invalid envd route\<close>.\<close>

definition Reg_Set :: "RouteRegistry \<Rightarrow> string \<Rightarrow> URL option \<Rightarrow> RouteRegistry option" where
  "Reg_Set r sandboxID target =
     (case target of
        None \<Rightarrow> None
      | Some u \<Rightarrow>
          if sandboxID = [] \<or> u_Scheme u \<noteq> ''http'' \<and> u_Scheme u \<noteq> ''https'' \<or> u_Host u = [] then None
          else Some (r\<lparr>routes := fmupd sandboxID (u\<lparr>u_User := None, u_Fragment := []\<rparr>) (routes r)\<rparr>))"

definition Reg_Delete :: "RouteRegistry \<Rightarrow> string \<Rightarrow> RouteRegistry" where
  "Reg_Delete r sandboxID = r\<lparr>routes := fmdrop sandboxID (routes r)\<rparr>"

definition Reg_Get :: "RouteRegistry \<Rightarrow> string \<Rightarrow> URL option" where
  "Reg_Get r sandboxID = fmlookup (routes r) sandboxID"

definition Reg_List :: "RouteRegistry \<Rightarrow> (string, URL) fmap" where
  "Reg_List r = fold (\<lambda>k out. case fmlookup (routes r) k of None \<Rightarrow> out | Some t \<Rightarrow> fmupd k t out)
     (sorted_list_of_fset (fmdom (routes r))) fmempty"

definition Reg_Unregister :: "RouteRegistry \<Rightarrow> string \<Rightarrow> bool \<times> RouteRegistry" where
  "Reg_Unregister r sandboxID =
     (case fmlookup (routes r) sandboxID of
        None \<Rightarrow> (False, r)
      | Some _ \<Rightarrow> (True, r\<lparr>routes := fmdrop sandboxID (routes r)\<rparr>))"

section \<open>The interface\<close>

text \<open>A target that may be registered, and what is stored of it.\<close>

definition valid_target :: "URL \<Rightarrow> bool" where
  "valid_target u \<longleftrightarrow> (u_Scheme u = ''http'' \<or> u_Scheme u = ''https'') \<and> u_Host u \<noteq> []"

definition clean_target :: "URL \<Rightarrow> URL" where
  "clean_target u = u\<lparr>u_User := None, u_Fragment := []\<rparr>"

locale route_table =
  fixes lookup :: "'r \<Rightarrow> string \<Rightarrow> URL option"
    and register :: "'r \<Rightarrow> string \<Rightarrow> URL option \<Rightarrow> 'r option"
    and unregister :: "'r \<Rightarrow> string \<Rightarrow> bool \<times> 'r"
    and rinv :: "'r \<Rightarrow> bool"
  assumes register_iff: "register r i t \<noteq> None \<longleftrightarrow> i \<noteq> [] \<and> (\<exists>u. t = Some u \<and> valid_target u)"
    and lookup_register: "register r i (Some u) = Some r' \<Longrightarrow>
      lookup r' j = (if j = i then Some (clean_target u) else lookup r j)"
    and unregister_found: "fst (unregister r i) \<longleftrightarrow> lookup r i \<noteq> None"
    and lookup_unregister: "lookup (snd (unregister r i)) j = (if j = i then None else lookup r j)"
    and stored_valid: "rinv r \<Longrightarrow> lookup r i = Some u \<Longrightarrow> valid_target u \<and> u_User u = None \<and> u_Fragment u = []"
    and register_rinv: "rinv r \<Longrightarrow> register r i t = Some r' \<Longrightarrow> rinv r'"
    and unregister_rinv: "rinv r \<Longrightarrow> rinv (snd (unregister r i))"
begin

lemma register_lookup: "register r i (Some u) = Some r' \<Longrightarrow> lookup r' i = Some (clean_target u)"
  by (simp add: lookup_register)

lemma register_unregister:
  assumes "register r i (Some u) = Some r'"
  shows "fst (unregister r' i)" and "lookup (snd (unregister r' i)) j = (if j = i then None else lookup r j)"
  using assms by (simp_all add: unregister_found lookup_unregister lookup_register)

lemma unregister_again: "\<not> fst (unregister (snd (unregister r i)) i)"
  by (simp add: unregister_found lookup_unregister)

end

definition reg_inv :: "RouteRegistry \<Rightarrow> bool" where
  "reg_inv r \<longleftrightarrow> (\<forall>i u. fmlookup (routes r) i = Some u \<longrightarrow> i \<noteq> [] \<and> valid_target u \<and> u_User u = None \<and> u_Fragment u = [])"

lemma reg_inv_New [preserves]: "reg_inv NewRouteRegistry"
  by (simp add: reg_inv_def NewRouteRegistry_def)

lemma Reg_Set_Some:
  "Reg_Set r i t = Some r' \<longleftrightarrow>
     (\<exists>u. t = Some u \<and> i \<noteq> [] \<and> valid_target u \<and> r' = r\<lparr>routes := fmupd i (clean_target u) (routes r)\<rparr>)"
  by (auto simp: Reg_Set_def valid_target_def clean_target_def split: option.splits if_splits)

lemma clean_target_simps [simp]:
  "valid_target (clean_target u) = valid_target u" "u_User (clean_target u) = None" "u_Fragment (clean_target u) = []"
  by (simp_all add: valid_target_def clean_target_def)

lemma reg_inv_Set [preserves]: "reg_inv r \<Longrightarrow> Reg_Set r i t = Some r' \<Longrightarrow> reg_inv r'"
  by (auto simp: Reg_Set_Some reg_inv_def split: if_splits) blast

lemma reg_inv_Unregister [preserves]: "reg_inv r \<Longrightarrow> reg_inv (snd (Reg_Unregister r i))"
  by (auto simp: Reg_Unregister_def reg_inv_def split: option.splits)

lemma Reg_Unregister_eq: "Reg_Unregister r i = (Reg_Get r i \<noteq> None, Reg_Delete r i)"
proof (cases "fmlookup (routes r) i")
  case None
  then have "fmdrop i (routes r) = routes r" by (intro fmap_ext) auto
  with None show ?thesis by (simp add: Reg_Unregister_def Reg_Get_def Reg_Delete_def)
qed (simp add: Reg_Unregister_def Reg_Get_def Reg_Delete_def)

lemma Reg_Get_Delete [simp]: "Reg_Get (Reg_Delete r i) j = (if j = i then None else Reg_Get r j)"
  by (simp add: Reg_Get_def Reg_Delete_def)

lemma Reg_List_routes [simp]: "Reg_List r = routes r"
  by (simp add: Reg_List_def fmap_copy)

interpretation rt: route_table Reg_Get Reg_Set Reg_Unregister reg_inv
proof (unfold_locales)
  show "reg_inv r'" if "reg_inv r" "Reg_Set r i t = Some r'" for r i t r' using that by (rule reg_inv_Set)
  show "reg_inv (snd (Reg_Unregister r i))" if "reg_inv r" for r i using that by (rule reg_inv_Unregister)
  show "(Reg_Set r i t \<noteq> None) = (i \<noteq> [] \<and> (\<exists>u. t = Some u \<and> valid_target u))" for r i t
    using Reg_Set_Some [of r i t] by (cases "Reg_Set r i t") auto
qed (auto simp: Reg_Set_Some Reg_Get_def Reg_Unregister_def Reg_Delete_def reg_inv_def split: option.splits)

end
