(* ===== verification/Proxy.thy ===== *)
theory Proxy
  imports Token_Issuer Route_Registry
begin

text \<open>
  The public edge of the data plane, \<open>Proxy\<close> of \<open>internal/dataplane/proxy.go\<close>: a request
  under \<open>/v1/sandboxes/{id}/\<close> is checked against the route table and the credential and
  forwarded to the sandbox's envd gateway with the identity the proxy derived. The
  backend is an argument: the response it gives to a forwarded request, \<open>None\<close> when the
  transport fails.
\<close>

section \<open>Model\<close>

record Proxy =
  Issuer :: TokenIssuer
  Routes :: RouteRegistry

record OutRequest =
  o_Method :: string
  o_Scheme :: string
  o_Host :: string
  o_Path :: string
  o_RawQuery :: string
  o_Header :: Header
  o_Body :: string

definition parsePath :: "string \<Rightarrow> (string \<times> string) option" where
  "parsePath path =
     (if \<not> HasPrefix path ''/v1/sandboxes/'' then None
      else (case SplitN2 (TrimPrefix path ''/v1/sandboxes/'') (CHR ''/'') of
              [a, b] \<Rightarrow> if a = [] \<or> b = [] then None else Some (a, ''/'' @ b)
            | _ \<Rightarrow> None))"

definition scopeFor :: "string \<Rightarrow> string \<Rightarrow> string" where
  "scopeFor method path =
     (if HasPrefix path ''/commands'' \<or> HasPrefix path ''/process'' \<or> HasPrefix path ''/pty'' then ''commands''
      else if HasPrefix path ''/files'' then ''files''
      else if HasPrefix path ''/network'' then ''network''
      else if method = ''GET'' \<and> path = ''/healthz'' then ''health''
      else ''sandbox'')"

definition joinPath :: "string \<Rightarrow> string \<Rightarrow> string" where
  "joinPath base suff =
     TrimRight (''/'' @ Trim base (CHR ''/'')) (CHR ''/'') @ ''/'' @ TrimLeft suff (CHR ''/'')"

definition bearer :: "Request \<Rightarrow> string" where
  "bearer r = TrimSpace (TrimPrefix (Header_Get (rq_Header r) ''Authorization'') ''Bearer '')"

definition joinQuery :: "string \<Rightarrow> string \<Rightarrow> string" where
  "joinQuery a b = (if a = [] \<or> b = [] then a @ b else a @ ''&'' @ b)"

text \<open>The proxy's director after the default one of the single-host reverse proxy.\<close>

definition director :: "URL \<Rightarrow> string \<Rightarrow> string \<Rightarrow> string list \<Rightarrow> Header \<Rightarrow> Header" where
  "director target sandboxID backendPath scopes h =
     (let h = Header_Del h ''Authorization'';
          h = Header_Set h ''X-Kubebox-Sandbox-ID'' sandboxID
      in Header_Set h ''X-Kubebox-Scope'' (Join scopes '',''))"

definition outgoing :: "URL \<Rightarrow> string \<Rightarrow> string \<Rightarrow> string list \<Rightarrow> Request \<Rightarrow> OutRequest" where
  "outgoing target sandboxID backendPath scopes r =
     \<lparr>o_Method = rq_Method r, o_Scheme = u_Scheme target, o_Host = u_Host target,
      o_Path = joinPath (u_Path target) backendPath,
      o_RawQuery = joinQuery (u_RawQuery target) (rq_RawQuery r),
      o_Header = forwardHeaders (director target sandboxID backendPath scopes (rq_Header r)) (rq_ClientIP r),
      o_Body = rq_Body r\<rparr>"

text \<open>The handler: the response, and the request it forwarded if it did.\<close>

definition Proxy_Handler ::
  "Proxy \<Rightarrow> time \<Rightarrow> (OutRequest \<Rightarrow> Response option) \<Rightarrow> Request \<Rightarrow> Response \<times> OutRequest option" where
  "Proxy_Handler p now backend r =
     (case parsePath (rq_Path r) of
        None \<Rightarrow> (jsonError StatusNotFound ''sandbox route not found'', None)
      | Some (sandboxID, backendPath) \<Rightarrow>
          (case Reg_Get (Routes p) sandboxID of
             None \<Rightarrow> (jsonError StatusNotFound ''proxy route not found'', None)
           | Some target \<Rightarrow>
               let scope = scopeFor (rq_Method r) backendPath in
               (case Validate (Issuer p) now (bearer r) sandboxID scope of
                  Inl _ \<Rightarrow> (jsonError StatusUnauthorized ''credential rejected'', None)
                | Inr envelope \<Rightarrow>
                    let out = outgoing target sandboxID backendPath (c_Scopes envelope) r in
                    (case backend out of
                       None \<Rightarrow> (jsonError StatusBadGateway ''envd unavailable'', Some out)
                     | Some resp \<Rightarrow> (resp, Some out)))))"

section \<open>Lemmas\<close>

lemma parsePath_iff:
  "parsePath path = Some (i, bp) \<longleftrightarrow>
     (\<exists>rest. path = ''/v1/sandboxes/'' @ i @ ''/'' @ rest \<and> i \<noteq> [] \<and> CHR ''/'' \<notin> set i \<and> rest \<noteq> [] \<and> bp = ''/'' @ rest)"
proof
  assume l: "parsePath path = Some (i, bp)"
  then obtain r where p: "path = ''/v1/sandboxes/'' @ r" by (auto simp: parsePath_def HasPrefix_iff split: if_splits)
  with l obtain b where "SplitN2 r (CHR ''/'') = [i, b]" "i \<noteq> []" "b \<noteq> []" "bp = ''/'' @ b"
    unfolding parsePath_def p TrimPrefix_append by (auto split: list.splits if_splits)
  with p show "\<exists>rest. path = ''/v1/sandboxes/'' @ i @ ''/'' @ rest \<and> i \<noteq> [] \<and> CHR ''/'' \<notin> set i \<and> rest \<noteq> [] \<and> bp = ''/'' @ rest"
    by (auto simp: SplitN2_two_iff)
next
  assume "\<exists>rest. path = ''/v1/sandboxes/'' @ i @ ''/'' @ rest \<and> i \<noteq> [] \<and> CHR ''/'' \<notin> set i \<and> rest \<noteq> [] \<and> bp = ''/'' @ rest"
  then obtain rest where p: "path = ''/v1/sandboxes/'' @ (i @ CHR ''/'' # rest)" "i \<noteq> []" "CHR ''/'' \<notin> set i" "rest \<noteq> []" "bp = ''/'' @ rest"
    by auto
  then show "parsePath path = Some (i, bp)"
    unfolding parsePath_def p(1) TrimPrefix_append by (simp add: SplitN2_sep HasPrefix_def)
qed

lemma Proxy_Handler_forwarded:
  assumes "snd (Proxy_Handler p now backend r) = Some out"
  obtains sandboxID backendPath target envelope
  where "parsePath (rq_Path r) = Some (sandboxID, backendPath)" and "Reg_Get (Routes p) sandboxID = Some target"
    and "Validate (Issuer p) now (bearer r) sandboxID (scopeFor (rq_Method r) backendPath) = Inr envelope"
    and "out = outgoing target sandboxID backendPath (c_Scopes envelope) r"
  using assms that by (auto simp: Proxy_Handler_def Let_def split: option.splits sum.splits prod.splits)

text \<open>The identity headers that reach the backend.\<close>

lemma outgoing_Authorization: "o_Header (outgoing u i bp scopes r) ''Authorization'' = None"
  by (simp add: outgoing_def forwardHeaders_other director_def Let_def header_defs canonical_consts)

lemma outgoing_identity:
  "o_Header (outgoing u i bp scopes r) ''X-Kubebox-Sandbox-Id'' =
     (if dropped (director u i bp scopes (rq_Header r)) ''X-Kubebox-Sandbox-Id'' then None else Some [i])"
  "o_Header (outgoing u i bp scopes r) ''X-Kubebox-Scope'' =
     (if dropped (director u i bp scopes (rq_Header r)) ''X-Kubebox-Scope'' then None else Some [Join scopes '',''])"
  by (simp_all add: outgoing_def forwardHeaders_other director_def Let_def header_defs canonical_consts)

lemma connectionTokens_director: "connectionTokens (director u i bp scopes h) = connectionTokens h"
  by (simp add: connectionTokens_def director_def Let_def Header_Values_def Header_Set_def Header_Del_def canonical_consts)

lemma dropped_identity:
  "dropped (director u i bp scopes h) ''X-Kubebox-Sandbox-Id'' \<longleftrightarrow> ''X-Kubebox-Sandbox-Id'' \<in> CanonicalHeaderKey ` set (connectionTokens h)"
  "dropped (director u i bp scopes h) ''X-Kubebox-Scope'' \<longleftrightarrow> ''X-Kubebox-Scope'' \<in> CanonicalHeaderKey ` set (connectionTokens h)"
  by (simp_all add: dropped_def connectionTokens_director hopHeaders_def)


text \<open>A bearer token is read back as it was issued: it has no space to trim.\<close>

lemma b64_solid: "c \<in> set (b64_EncodeToString s) \<Longrightarrow> solid c"
proof -
  assume "c \<in> set (b64_EncodeToString s)"
  then have "c \<in> set b64_alphabet" by (rule b64_in_alphabet)
  moreover have "list_all solid b64_alphabet" by code_simp
  ultimately show ?thesis by (simp add: list_all_iff)
qed

lemma signedToken_solid: "c \<in> set (signedToken i p) \<Longrightarrow> solid c"
proof -
  have "solid (CHR ''.'')" by code_simp
  then show "c \<in> set (signedToken i p) \<Longrightarrow> solid c" by (auto simp: signedToken_def dest: b64_solid)
qed

lemma bearer_token:
  assumes "Header_Get (rq_Header r) ''Authorization'' = ''Bearer '' @ signedToken i p"
  shows "bearer r = signedToken i p"
proof -
  have "signedToken i p \<noteq> []" by (simp add: signedToken_def)
  then have "TrimSpace (signedToken i p) = signedToken i p"
    by (intro TrimSpace_solid signedToken_solid [of _ i p]) simp_all
  then show ?thesis unfolding bearer_def assms TrimPrefix_append .
qed


text \<open>A request with an issued credential for its sandbox and scope is forwarded.\<close>

lemma Proxy_Handler_issued:
  assumes iss: "Issue (Issuer p) t0 sandboxID scopes ttl = Inr token" and u8: "utf8_valid sandboxID" "\<forall>x \<in> set scopes. utf8_valid x"
    and i64: "int64 (Unix t0)" "int64 (Unix (Add t0 ttl))"
    and req: "parsePath (rq_Path r) = Some (sandboxID, backendPath)" "Reg_Get (Routes p) sandboxID = Some target"
      "Header_Get (rq_Header r) ''Authorization'' = ''Bearer '' @ token"
    and ok: "scopeFor (rq_Method r) backendPath \<in> set scopes" "Unix now < Unix (Add t0 ttl)"
  shows "Proxy_Handler p now backend r =
     (let out = outgoing target sandboxID backendPath scopes r in
      (case backend out of None \<Rightarrow> jsonError StatusBadGateway ''envd unavailable'' | Some resp \<Rightarrow> resp, Some out))"
proof -
  let ?p = "\<lparr>c_SandboxID = sandboxID, c_Scopes = scopes, c_ExpiresAt = Unix (Add t0 ttl), p_IssuedAt = Unix t0\<rparr>"
  have tok: "token = signedToken (Issuer p) (marshalPayload ?p)"
    using iss by (auto simp: Issue_signed split: if_splits)
  have "unmarshalPayload (marshalPayload ?p) = Some ?p"
    using u8 i64 by (intro unmarshal_marshalPayload) simp_all
  then have "Validate (Issuer p) now (bearer r) sandboxID (scopeFor (rq_Method r) backendPath) =
      Inr (CredentialEnvelope.truncate ?p)"
    using ok bearer_token [of r] req(3) unfolding tok by (simp add: Validate_signed)
  with req(1,2) show ?thesis
    by (simp add: Proxy_Handler_def Let_def CredentialEnvelope.defs split: option.split)
qed

section \<open>Properties\<close>

definition demo_url :: URL where
  "demo_url = \<lparr>u_Scheme = ''http'', u_User = None, u_Host = ''10.0.0.7:8081'', u_Path = [], u_RawQuery = [], u_Fragment = []\<rparr>"

definition demo_proxy :: Proxy where
  "demo_proxy = \<lparr>Issuer = demo_issuer, Routes = \<lparr>routes = fmupd ''sbx-1'' demo_url fmempty\<rparr>\<rparr>"

definition demo_proxy_request :: "string \<Rightarrow> string \<Rightarrow> Request" where
  "demo_proxy_request path token =
     \<lparr>rq_Method = ''POST'', rq_Path = path, rq_EscapedPath = path, rq_RawQuery = [], rq_Query = Map.empty,
      rq_Header = [''Authorization'' \<mapsto> [''Bearer '' @ token]], rq_Body = [], rq_BodyErr = False, rq_ClientIP = None\<rparr>"

lemma demo_proxy_route: "Reg_Get (Routes demo_proxy) ''sbx-1'' = Some demo_url"
  by (simp add: demo_proxy_def Reg_Get_def)

lemma demo_proxy_auth: "Header_Get (rq_Header (demo_proxy_request path token)) ''Authorization'' = ''Bearer '' @ token"
  by (simp add: demo_proxy_request_def header_defs canonical_consts)

lemma demo_parse:
  "parsePath ''/v1/sandboxes/sbx-1/commands'' = Some (''sbx-1'', ''/commands'')"
  "parsePath ''/v1/sandboxes/sbx-1//commands'' = Some (''sbx-1'', ''//commands'')"
  by code_simp+

text \<open>
  Nothing reaches a sandbox without a credential: a request is forwarded only for a
  registered sandbox and a valid credential for that sandbox and the scope of the path;
  it goes to the registered host below the registered path, without the credential, and
  the identity headers it carries are those of the credential or none.
\<close>

theorem proxy_forwards_authorized:
  assumes "snd (Proxy_Handler p now backend r) = Some out"
  shows "\<exists>sandboxID backendPath target envelope.
           parsePath (rq_Path r) = Some (sandboxID, backendPath) \<and> Reg_Get (Routes p) sandboxID = Some target \<and>
           Validate (Issuer p) now (bearer r) sandboxID (scopeFor (rq_Method r) backendPath) = Inr envelope \<and>
           o_Scheme out = u_Scheme target \<and> o_Host out = u_Host target \<and> o_Path out = joinPath (u_Path target) backendPath \<and>
           o_Header out ''Authorization'' = None \<and>
           o_Header out ''X-Kubebox-Sandbox-Id'' \<in> {None, Some [sandboxID]} \<and>
           o_Header out ''X-Kubebox-Scope'' \<in> {None, Some [Join (c_Scopes envelope) '','']}"
proof -
  from assms obtain sandboxID backendPath target envelope
    where f: "parsePath (rq_Path r) = Some (sandboxID, backendPath)" "Reg_Get (Routes p) sandboxID = Some target"
      "Validate (Issuer p) now (bearer r) sandboxID (scopeFor (rq_Method r) backendPath) = Inr envelope"
      "out = outgoing target sandboxID backendPath (c_Scopes envelope) r" by (rule Proxy_Handler_forwarded)
  show ?thesis
    by (intro exI conjI, fact f(1), fact f(2), fact f(3))
      (simp_all add: f(4) outgoing_Authorization outgoing_identity, simp_all add: outgoing_def)
qed

lemma demo_proxy_forwards:
  assumes "Issue demo_issuer demo_time ''sbx-1'' [scope] (60 * Second) = Inr tok" and "utf8_valid scope"
    and "parsePath path = Some (''sbx-1'', bp)" and "scopeFor ''POST'' bp = scope"
  shows "Proxy_Handler demo_proxy demo_time (\<lambda>_. None) (demo_proxy_request path tok) =
    (jsonError StatusBadGateway ''envd unavailable'', Some (outgoing demo_url ''sbx-1'' bp [scope] (demo_proxy_request path tok)))"
proof -
  have "int64 (Unix demo_time)" "int64 (Unix (Add demo_time (60 * Second)))" by (simp_all add: demo_unix int64_def)
  moreover have "Issue (Issuer demo_proxy) demo_time ''sbx-1'' [scope] (60 * Second) = Inr tok"
    using assms(1) by (simp add: demo_proxy_def)
  ultimately show ?thesis
    using Proxy_Handler_issued [of demo_proxy demo_time "''sbx-1''" "[scope]" "60 * Second" tok "demo_proxy_request path tok" bp demo_url demo_time "\<lambda>_. None"]
      assms(2-4) demo_proxy_route demo_proxy_auth demo_valid_names(1)
    by (simp add: demo_proxy_request_def demo_unix)
qed

lemma demo_issue_one: "\<exists>tok. Issue demo_issuer demo_time ''sbx-1'' [scope] (60 * Second) = Inr tok"
  by (simp add: Issue_def Second_def Let_def)

theorem proxy_forwards_authorized_witness:
  "\<exists>tok out. snd (Proxy_Handler demo_proxy demo_time (\<lambda>_. None) (demo_proxy_request ''/v1/sandboxes/sbx-1/commands'' tok)) = Some out \<and>
     o_Header out ''Authorization'' = None"
proof -
  from demo_issue_one obtain tok where "Issue demo_issuer demo_time ''sbx-1'' [''commands''] (60 * Second) = Inr tok" by blast
  then obtain out where f: "snd (Proxy_Handler demo_proxy demo_time (\<lambda>_. None) (demo_proxy_request ''/v1/sandboxes/sbx-1/commands'' tok)) = Some out"
    using demo_proxy_forwards [OF _ _ demo_parse(1)] by (simp add: utf8_valid_ascii scopeFor_def HasPrefix_def)
  from proxy_forwards_authorized [OF f] have "o_Header out ''Authorization'' = None" by blast
  with f show ?thesis by blast
qed

text \<open>
  C14. A credential that was issued for a sandbox works at the proxy: until it expires, a
  request for a registered route in a scope it lists is answered by the backend (or with 502
  when the backend cannot be reached), which sees its method, body and path below the
  target. The forwarded request carries the sandbox's identity and the scopes of the
  credential, each exactly once, unless the client's \<open>Connection\<close> header names that header, in
  which case it is missing. The names are valid UTF-8 and the times of the credential fit into
  64 bits.
\<close>

theorem proxy_serves_issued_token:
  assumes "Issue (Issuer p) t0 sandboxID scopes ttl = Inr token" and "utf8_valid sandboxID" and "\<forall>x \<in> set scopes. utf8_valid x"
    and "int64 (Unix t0)" and "int64 (Unix (Add t0 ttl))" and "Unix now < Unix (Add t0 ttl)"
    and "parsePath (rq_Path r) = Some (sandboxID, backendPath)" and "Reg_Get (Routes p) sandboxID = Some target"
    and "Header_Get (rq_Header r) ''Authorization'' = ''Bearer '' @ token"
    and "scopeFor (rq_Method r) backendPath \<in> set scopes"
  shows "\<exists>out. Proxy_Handler p now backend r =
           (case backend out of None \<Rightarrow> jsonError StatusBadGateway ''envd unavailable'' | Some resp \<Rightarrow> resp, Some out) \<and>
           o_Method out = rq_Method r \<and> o_Scheme out = u_Scheme target \<and> o_Host out = u_Host target \<and>
           o_Path out = joinPath (u_Path target) backendPath \<and> o_Body out = rq_Body r \<and>
           Header_Values (o_Header out) ''X-Kubebox-Sandbox-ID'' =
             (if ''X-Kubebox-Sandbox-Id'' \<in> CanonicalHeaderKey ` set (connectionTokens (rq_Header r)) then [] else [sandboxID]) \<and>
           Header_Values (o_Header out) ''X-Kubebox-Scope'' =
             (if ''X-Kubebox-Scope'' \<in> CanonicalHeaderKey ` set (connectionTokens (rq_Header r)) then [] else [Join scopes '',''])"
proof -
  let ?out = "outgoing target sandboxID backendPath scopes r"
  have "Header_Values (o_Header ?out) ''X-Kubebox-Sandbox-ID'' =
      (if ''X-Kubebox-Sandbox-Id'' \<in> CanonicalHeaderKey ` set (connectionTokens (rq_Header r)) then [] else [sandboxID])"
    "Header_Values (o_Header ?out) ''X-Kubebox-Scope'' =
      (if ''X-Kubebox-Scope'' \<in> CanonicalHeaderKey ` set (connectionTokens (rq_Header r)) then [] else [Join scopes '',''])"
    by (simp_all add: Header_Values_def canonical_consts outgoing_identity dropped_identity)
  with Proxy_Handler_issued [OF assms(1-5,7-10,6), of backend] show ?thesis
    by (intro exI [of _ ?out]) (simp add: Let_def outgoing_def)
qed

definition demo_kept_alive :: "string \<Rightarrow> Request" where
  "demo_kept_alive tok = (demo_proxy_request ''/v1/sandboxes/sbx-1/commands'' tok)
     \<lparr>rq_Header := [''Authorization'' \<mapsto> [''Bearer '' @ tok], ''Connection'' \<mapsto> [''keep-alive, X-Kubebox-Trace'']]\<rparr>"

lemma demo_kept_alive_simps:
  "rq_Path (demo_kept_alive tok) = ''/v1/sandboxes/sbx-1/commands''" "rq_Method (demo_kept_alive tok) = ''POST''"
  "Header_Get (rq_Header (demo_kept_alive tok)) ''Authorization'' = ''Bearer '' @ tok"
  "''X-Kubebox-Scope'' \<notin> CanonicalHeaderKey ` set (connectionTokens (rq_Header (demo_kept_alive tok)))"
proof -
  have "connectionTokens (rq_Header (demo_kept_alive tok)) =
      filter (\<lambda>t. t \<noteq> []) (map TrimString (concat (map (\<lambda>v. Split v (CHR '','')) [''keep-alive, X-Kubebox-Trace''])))"
    by (simp add: connectionTokens_def demo_kept_alive_def Header_Values_def canonical_consts del: map_concat concat.simps list.map)
  moreover have "''X-Kubebox-Scope'' \<notin> CanonicalHeaderKey ` set
      (filter (\<lambda>t. t \<noteq> []) (map TrimString (concat (map (\<lambda>v. Split v (CHR '','')) [''keep-alive, X-Kubebox-Trace'']))))"
    by code_simp
  ultimately show "''X-Kubebox-Scope'' \<notin> CanonicalHeaderKey ` set (connectionTokens (rq_Header (demo_kept_alive tok)))" by simp
qed (simp_all add: demo_kept_alive_def demo_proxy_request_def Header_Get_def Header_Values_def canonical_consts)

theorem proxy_serves_issued_token_witness:
  "\<exists>tok out. Issue demo_issuer demo_time ''sbx-1'' [''commands''] (60 * Second) = Inr tok \<and>
     snd (Proxy_Handler demo_proxy demo_time (\<lambda>_. None) (demo_kept_alive tok)) = Some out \<and>
     Header_Values (o_Header out) ''X-Kubebox-Scope'' = [''commands'']"
proof -
  from demo_issue_one obtain tok where t: "Issue demo_issuer demo_time ''sbx-1'' [''commands''] (60 * Second) = Inr tok" by blast
  have "int64 (Unix demo_time)" "int64 (Unix (Add demo_time (60 * Second)))" by (simp_all add: demo_unix int64_def)
  with t demo_proxy_route demo_parse(1)
  have "\<exists>out. Proxy_Handler demo_proxy demo_time (\<lambda>_. None) (demo_kept_alive tok) =
           (jsonError StatusBadGateway ''envd unavailable'', Some out) \<and>
           Header_Values (o_Header out) ''X-Kubebox-Scope'' = [''commands'']"
    using proxy_serves_issued_token [of demo_proxy demo_time "''sbx-1''" "[''commands'']" "60 * Second" tok demo_time
        "demo_kept_alive tok" "''/commands''" demo_url "\<lambda>_. None"]
    by (auto simp: demo_unix demo_valid_names utf8_valid_ascii demo_kept_alive_simps demo_proxy_def scopeFor_def HasPrefix_def)
  with t show ?thesis by fastforce
qed

text \<open>
  The scope is taken from the path before its slashes are collapsed: a credential
  with the scope \<open>sandbox\<close> alone gets a request to \<open>/v1/sandboxes/sbx-1//commands\<close> forwarded
  to the path \<open>/commands\<close> of the backend.
\<close>

theorem proxy_double_slash:
  assumes "Issue demo_issuer demo_time ''sbx-1'' [''sandbox''] (60 * Second) = Inr tok"
  shows "\<exists>out. snd (Proxy_Handler demo_proxy demo_time (\<lambda>_. None) (demo_proxy_request ''/v1/sandboxes/sbx-1//commands'' tok)) = Some out \<and>
           o_Path out = ''/commands'' \<and> scopeFor ''POST'' (o_Path out) = ''commands''"
proof -
  have "o_Path (outgoing demo_url ''sbx-1'' ''//commands'' [''sandbox''] (demo_proxy_request ''/v1/sandboxes/sbx-1//commands'' tok)) = ''/commands''"
    by (simp add: outgoing_def demo_url_def joinPath_def Trim_def TrimLeft_def TrimRight_def)
  with demo_proxy_forwards [OF assms _ demo_parse(2)] show ?thesis
    by (simp add: utf8_valid_ascii scopeFor_def HasPrefix_def)
qed

theorem proxy_double_slash_witness:
  "\<exists>tok out. snd (Proxy_Handler demo_proxy demo_time (\<lambda>_. None) (demo_proxy_request ''/v1/sandboxes/sbx-1//commands'' tok)) = Some out \<and>
     o_Path out = ''/commands''"
  using demo_issue_one [of "''sandbox''"] proxy_double_slash by blast

end
