(* ===== verification/Admin.thy ===== *)
theory Admin
  imports Go_Crypto Go_Json_Decode Route_Registry
begin

text \<open>
  The route-management API of envd-proxy, \<open>internal/dataplane/admin.go\<close>. Two functions of
  Go's library are arguments: \<open>parse\<close> is \<open>url.Parse\<close> (\<open>None\<close> for an error) and
  \<open>encodeURL\<close> the JSON text of a \<open>url.URL\<close>.
\<close>

section \<open>Model\<close>

record Admin =
  ad_Routes :: RouteRegistry
  adminSecret :: string

definition NewAdmin :: "RouteRegistry \<Rightarrow> string \<Rightarrow> Admin" where
  "NewAdmin rts s = \<lparr>ad_Routes = rts, adminSecret = s\<rparr>"

definition authorized :: "Admin \<Rightarrow> Request \<Rightarrow> bool" where
  "authorized a r =
     (if adminSecret a = [] then False
      else
        let provided = Header_Get (rq_Header r) ''X-Kubebox-Admin-Token'' in
        if provided = [] then False else ConstantTimeCompare provided (adminSecret a) = 1)"

record RegisterRequest =
  reg_SandboxID :: string
  reg_Target :: string

definition registerFields :: "(string \<times> RegisterRequest setter) list" where
  "registerFields =
     [(''sandboxId'', \<lambda>v q. map_option (\<lambda>x. q\<lparr>reg_SandboxID := x\<rparr>) (decode_string v (reg_SandboxID q))),
      (''target'', \<lambda>v q. map_option (\<lambda>x. q\<lparr>reg_Target := x\<rparr>) (decode_string v (reg_Target q)))]"

definition unmarshalRegister :: "string \<Rightarrow> RegisterRequest option" where
  "unmarshalRegister s = Unmarshal registerFields \<lparr>reg_SandboxID = [], reg_Target = []\<rparr> s"

definition json_routes :: "(URL \<Rightarrow> string) \<Rightarrow> (string, URL) fmap \<Rightarrow> string" where
  "json_routes encodeURL m =
     json_object (map (\<lambda>k. (k, case fmlookup m k of None \<Rightarrow> ''null'' | Some u \<Rightarrow> encodeURL u))
       (sorted_list_of_fset (fmdom m)))"

definition handleHealth :: "Request \<Rightarrow> Response" where
  "handleHealth r = writeJSON StatusOK (json_field ''status'' ''ok'')"

definition handleRegister :: "(string \<Rightarrow> URL option) \<Rightarrow> Admin \<Rightarrow> Request \<Rightarrow> Response \<times> Admin" where
  "handleRegister parse a r =
     (if \<not> authorized a r then (jsonError StatusUnauthorized ''unauthorized'', a)
      else (case readLimited 65536 r of
              None \<Rightarrow> (jsonError StatusBadRequest ''read body'', a)
            | Some body \<Rightarrow>
                (case unmarshalRegister body of
                   None \<Rightarrow> (jsonError StatusBadRequest ''invalid JSON'', a)
                 | Some req \<Rightarrow>
                     if reg_SandboxID req = [] \<or> reg_Target req = []
                     then (jsonError StatusBadRequest ''sandboxId and target are required'', a)
                     else (case parse (reg_Target req) of
                             None \<Rightarrow> (jsonError StatusBadRequest ''invalid target URL'', a)
                           | Some target \<Rightarrow>
                               (case Reg_Set (ad_Routes a) (reg_SandboxID req) (Some target) of
                                  None \<Rightarrow> (jsonError StatusBadRequest ''invalid envd route'', a)
                                | Some rts \<Rightarrow>
                                    (writeJSON StatusCreated (json_field ''status'' ''registered''), a\<lparr>ad_Routes := rts\<rparr>))))))"

definition handleRoutes ::
  "(string \<Rightarrow> URL option) \<Rightarrow> (URL \<Rightarrow> string) \<Rightarrow> Admin \<Rightarrow> Request \<Rightarrow> Response \<times> Admin" where
  "handleRoutes parse encodeURL a r =
     (if rq_Method r = ''POST'' then handleRegister parse a r
      else if rq_Method r = ''GET'' then
        if \<not> authorized a r then (jsonError StatusUnauthorized ''unauthorized'', a)
        else (writeJSON StatusOK (json_routes encodeURL (Reg_List (ad_Routes a))), a)
      else (jsonError StatusMethodNotAllowed ''method not allowed'', a))"

definition handleRouteInstance :: "Admin \<Rightarrow> Request \<Rightarrow> Response \<times> Admin" where
  "handleRouteInstance a r =
     (if rq_Method r \<noteq> ''DELETE'' then (jsonError StatusMethodNotAllowed ''method not allowed'', a)
      else if \<not> authorized a r then (jsonError StatusUnauthorized ''unauthorized'', a)
      else
        let sandboxID = TrimPrefix (rq_Path r) ''/internal/v1/routes/'' in
        if sandboxID = [] \<or> Contains sandboxID ''/'' then (jsonError StatusBadRequest ''sandboxId is required'', a)
        else (case Reg_Unregister (ad_Routes a) sandboxID of
                (False, _) \<Rightarrow> (jsonError StatusNotFound ''route not found'', a)
              | (True, rts) \<Rightarrow> (writeJSON StatusOK (json_field ''status'' ''unregistered''), a\<lparr>ad_Routes := rts\<rparr>)))"

definition Admin_ServeHTTP ::
  "(string \<Rightarrow> URL option) \<Rightarrow> (URL \<Rightarrow> string) \<Rightarrow> Admin \<Rightarrow> Request \<Rightarrow> Response \<times> Admin" where
  "Admin_ServeHTTP parse encodeURL a r =
     (if rq_Path r = ''/healthz'' then (handleHealth r, a)
      else if rq_Path r = ''/internal/v1/routes'' then handleRoutes parse encodeURL a r
      else if HasPrefix (rq_Path r) ''/internal/v1/routes/'' then handleRouteInstance a r
      else (jsonError StatusNotFound ''not found'', a))"

section \<open>Lemmas\<close>

lemma authorized_iff:
  "authorized a r \<longleftrightarrow> adminSecret a \<noteq> [] \<and> Header_Get (rq_Header r) ''X-Kubebox-Admin-Token'' = adminSecret a"
  by (auto simp: authorized_def Let_def ConstantTimeCompare_iff)

lemmas admin_defs = Admin_ServeHTTP_def handleRoutes_def handleRouteInstance_def handleRegister_def

lemma Admin_unauthorized:
  assumes "\<not> authorized a r"
  shows "snd (Admin_ServeHTTP parse enc a r) = a \<and>
         rs_Status (fst (Admin_ServeHTTP parse enc a r)) \<in> {StatusUnauthorized, StatusMethodNotAllowed, StatusNotFound} \<or>
         rq_Path r = ''/healthz''"
  using assms by (auto simp: admin_defs)

lemma Admin_secret: "adminSecret (snd (Admin_ServeHTTP parse enc a r)) = adminSecret a"
  by (auto simp: admin_defs Let_def split: option.split prod.split bool.split)

lemma Admin_reg_inv [preserves]: "reg_inv (ad_Routes a) \<Longrightarrow> reg_inv (ad_Routes (snd (Admin_ServeHTTP parse enc a r)))"
  using reg_inv_Unregister [of "ad_Routes a" "TrimPrefix (rq_Path r) ''/internal/v1/routes/''"]
  by (auto simp: admin_defs Let_def intro: reg_inv_Set split: option.split prod.split bool.split)

text \<open>A registration with a well-formed body.\<close>

lemma fold_target: "fold_name ''target'' = ''TARGET''" "fold_name ''sandboxId'' = ''SANDBOXID''"
  by code_simp+

lemma unmarshalRegister_map:
  assumes "utf8_valid i" and "utf8_valid t"
  shows "unmarshalRegister (json_object [(''sandboxId'', json_string i), (''target'', json_string t)]) =
     Some \<lparr>reg_SandboxID = i, reg_Target = t\<rparr>"
proof -
  let ?ms = "[(''sandboxId'', JStr i), (''target'', JStr t)]"
  have l: "list_all2 (encodes_member 0) [(''sandboxId'', json_string i), (''target'', json_string t)] ?ms"
    by (simp add: encodes_member_def encodes_string utf8_valid_ascii assms)
  show ?thesis
    unfolding unmarshalRegister_def Unmarshal_flat [OF l] by (simp add: registerFields_def fold_target decode_string_def)
qed

end
