(* ===== verification/Health_Monitor.thy ===== *)
theory Health_Monitor
  imports Route_Registry
begin

text \<open>
  The health monitor of envd-proxy, \<open>internal/dataplane/health.go\<close>. \<open>CheckOnce\<close> walks a
  snapshot of the routes; the order of the walk is an argument, as Go's map iteration is
  in no fixed order. What the outside gives is the record \<open>hm_env\<close>: \<open>URL.String\<close>, whether
  a request can be built for a URL, and the status of the health endpoint (\<open>None\<close> when
  the request fails).
\<close>

section \<open>Model\<close>

record HealthMonitor =
  hm_Routes :: RouteRegistry
  Interval :: duration
  FailThreshold :: int
  failures :: "string \<rightharpoonup> int"

definition NewHealthMonitor :: "RouteRegistry \<Rightarrow> HealthMonitor" where
  "NewHealthMonitor rts =
     \<lparr>hm_Routes = rts, Interval = 10 * Second, FailThreshold = 3, failures = Map.empty\<rparr>"

record hm_env =
  urlString :: "URL \<Rightarrow> string"
  newRequest :: "string \<Rightarrow> bool"
  getStatus :: "string \<Rightarrow> string \<Rightarrow> int option" \<comment> \<open>of the probe of a sandbox at a URL\<close>

definition joinHealthURL :: "string \<Rightarrow> string" where
  "joinHealthURL target = TrimRight target (CHR ''/'') @ ''/healthz''"

definition probe :: "hm_env \<Rightarrow> string \<Rightarrow> URL \<Rightarrow> bool" where
  "probe env sandboxID target =
     (let u = joinHealthURL (urlString env target) in
      if \<not> newRequest env u then False
      else (case getStatus env sandboxID u of
              None \<Rightarrow> False
            | Some code \<Rightarrow> 200 \<le> code \<and> code < 300))"

definition recordFailure :: "HealthMonitor \<Rightarrow> string \<Rightarrow> int \<times> HealthMonitor" where
  "recordFailure m sandboxID =
     (let n = (case failures m sandboxID of None \<Rightarrow> 0 | Some n \<Rightarrow> n) + 1
      in (n, m\<lparr>failures := (failures m)(sandboxID \<mapsto> n)\<rparr>))"

definition resetFailures :: "HealthMonitor \<Rightarrow> string \<Rightarrow> HealthMonitor" where
  "resetFailures m sandboxID = m\<lparr>failures := (failures m)(sandboxID := None)\<rparr>"

text \<open>The body of the loop, given the result of the probe: how many routes it removed.\<close>

definition checkRoute :: "bool \<Rightarrow> string \<Rightarrow> HealthMonitor \<Rightarrow> int \<times> HealthMonitor" where
  "checkRoute healthy sandboxID m =
     (if healthy then (0, resetFailures m sandboxID)
      else
        let (n, m) = recordFailure m sandboxID in
        if FailThreshold m \<le> n then
          let (found, rts) = Reg_Unregister (hm_Routes m) sandboxID
          in (if found then 1 else 0, resetFailures (m\<lparr>hm_Routes := rts\<rparr>) sandboxID)
        else (0, m))"

fun checkLoop :: "hm_env \<Rightarrow> (string \<times> URL) list \<Rightarrow> HealthMonitor \<Rightarrow> int \<times> HealthMonitor" where
  "checkLoop env [] m = (0, m)"
| "checkLoop env ((sandboxID, target) # rest) m =
     (let (k, m) = checkRoute (probe env sandboxID target) sandboxID m;
          (n, m) = checkLoop env rest m
      in (k + n, m))"

definition snapshot :: "(string, URL) fmap \<Rightarrow> string list \<Rightarrow> (string \<times> URL) list" where
  \<comment> \<open>the entries in the given order of keys\<close>
  "snapshot rts order = map (\<lambda>k. (k, the (fmlookup rts k))) (filter (\<lambda>k. fmlookup rts k \<noteq> None) order)"

definition CheckOnce :: "hm_env \<Rightarrow> string list \<Rightarrow> HealthMonitor \<Rightarrow> int \<times> HealthMonitor" where
  "CheckOnce env order m = checkLoop env (snapshot (Reg_List (hm_Routes m)) order) m"

section \<open>One pass\<close>

abbreviation fail_count :: "HealthMonitor \<Rightarrow> string \<Rightarrow> int" where
  "fail_count m i \<equiv> (case failures m i of None \<Rightarrow> 0 | Some n \<Rightarrow> n)"

lemma checkRoute_threshold [simp]: "FailThreshold (snd (checkRoute b i m)) = FailThreshold m"
  by (simp add: checkRoute_def recordFailure_def resetFailures_def Let_def split: prod.split)

lemma checkRoute_routes:
  "Reg_Get (hm_Routes (snd (checkRoute b i m))) j =
     (if j = i \<and> \<not> b \<and> FailThreshold m \<le> fail_count m i + 1 then None else Reg_Get (hm_Routes m) j)"
  by (auto simp: checkRoute_def recordFailure_def resetFailures_def Let_def Reg_Unregister_eq)

lemma checkRoute_failures:
  "failures (snd (checkRoute b i m)) j =
     (if j = i then if b \<or> FailThreshold m \<le> fail_count m i + 1 then None else Some (fail_count m i + 1)
      else failures m j)"
  by (auto simp: checkRoute_def recordFailure_def resetFailures_def Let_def split: prod.split)

lemma checkRoute_count:
  "fst (checkRoute b i m) =
     (if \<not> b \<and> FailThreshold m \<le> fail_count m i + 1 \<and> Reg_Get (hm_Routes m) i \<noteq> None then 1 else 0)"
  by (auto simp: checkRoute_def recordFailure_def Let_def Reg_Unregister_eq)

text \<open>The verdict of a pass on one route, and the pass as a whole.\<close>

definition evicted :: "hm_env \<Rightarrow> HealthMonitor \<Rightarrow> string \<Rightarrow> URL \<Rightarrow> bool" where
  "evicted env m i u \<longleftrightarrow> \<not> probe env i u \<and> FailThreshold m \<le> fail_count m i + 1"

lemma checkLoop_effect:
  assumes "distinct (map fst rs)"
  shows "FailThreshold (snd (checkLoop env rs m)) = FailThreshold m \<and>
     (\<forall>j. Reg_Get (hm_Routes (snd (checkLoop env rs m))) j =
            (case map_of rs j of Some u \<Rightarrow> if evicted env m j u then None else Reg_Get (hm_Routes m) j
             | None \<Rightarrow> Reg_Get (hm_Routes m) j)) \<and>
     (\<forall>j. failures (snd (checkLoop env rs m)) j =
            (case map_of rs j of
               Some u \<Rightarrow> if probe env j u \<or> evicted env m j u then None else Some (fail_count m j + 1)
             | None \<Rightarrow> failures m j))"
  using assms
proof (induction rs arbitrary: m)
  case (Cons r rs)
  obtain i u where r: "r = (i, u)" by fastforce
  define m1 where "m1 = snd (checkRoute (probe env i u) i m)"
  have i: "map_of rs i = None" using Cons.prems r by (simp add: map_of_eq_None_iff)
  have loop: "snd (checkLoop env (r # rs) m) = snd (checkLoop env rs m1)"
    by (simp add: r m1_def Let_def split: prod.split)
  have ev: "evicted env m1 j v = evicted env m j v" "fail_count m1 j = fail_count m j" if "j \<noteq> i" for j v
    using that by (simp_all add: evicted_def m1_def checkRoute_failures)
  show ?case
    unfolding loop using Cons.IH [of m1] Cons.prems i ev
    by (auto simp: r m1_def checkRoute_routes checkRoute_failures evicted_def split: option.splits)
qed simp

lemma snapshot_lookup:
  assumes "set order = fset (fmdom rts)"
  shows "map_of (snapshot rts order) = fmlookup rts"
proof
  fix i
  have "map_of (map (\<lambda>k. (k, the (fmlookup rts k))) ks) i = (if i \<in> set ks then Some (the (fmlookup rts i)) else None)" for ks
    by (induction ks) auto
  then show "map_of (snapshot rts order) i = fmlookup rts i"
    using assms by (auto simp: snapshot_def fmlookup_dom_iff)
qed

lemma snapshot_distinct: "distinct order \<Longrightarrow> distinct (map fst (snapshot rts order))"
  by (simp add: snapshot_def comp_def)

lemma CheckOnce_effect:
  assumes "distinct order" and "set order = fset (fmdom (routes (hm_Routes m)))"
  shows "FailThreshold (snd (CheckOnce env order m)) = FailThreshold m"
    and "Reg_Get (hm_Routes (snd (CheckOnce env order m))) j =
            (case Reg_Get (hm_Routes m) j of Some u \<Rightarrow> if evicted env m j u then None else Some u | None \<Rightarrow> None)"
    and "failures (snd (CheckOnce env order m)) j =
            (case Reg_Get (hm_Routes m) j of
               Some u \<Rightarrow> if probe env j u \<or> evicted env m j u then None else Some (fail_count m j + 1)
             | None \<Rightarrow> failures m j)"
  using checkLoop_effect [of "snapshot (Reg_List (hm_Routes m)) order" env m, OF snapshot_distinct [OF assms(1)]]
    snapshot_lookup [OF assms(2)]
  by (auto simp: CheckOnce_def Reg_Get_def split: option.splits)


section \<open>Interleaving with the admin API\<close>

text \<open>
  The monitor does not hold the registry's lock during a pass, so registrations and
  unregistrations come between its probes. A trace lists what happened, newest first.
\<close>

datatype hm_event =
    Tick
  | Probed string bool
  | AdminSet string "URL option"
  | AdminUnregister string

inductive hm_step :: "HealthMonitor \<times> (string \<times> URL) list \<Rightarrow> hm_event \<Rightarrow> HealthMonitor \<times> (string \<times> URL) list \<Rightarrow> bool" where
  tick: "distinct order \<Longrightarrow> set order = fset (fmdom (routes (hm_Routes m))) \<Longrightarrow>
    hm_step (m, []) Tick (m, snapshot (Reg_List (hm_Routes m)) order)"
| probed: "hm_step (m, (i, u) # rest) (Probed i b) (snd (checkRoute b i m), rest)"
| admin_set: "Reg_Set (hm_Routes m) i t = Some rts \<Longrightarrow> hm_step (m, rest) (AdminSet i t) (m\<lparr>hm_Routes := rts\<rparr>, rest)"
| admin_unregister: "hm_step (m, rest) (AdminUnregister i) (m\<lparr>hm_Routes := snd (Reg_Unregister (hm_Routes m) i)\<rparr>, rest)"

inductive_cases hm_step_probed: "hm_step (m, p) (Probed i b) s'"

inductive hm_trace :: "RouteRegistry \<Rightarrow> hm_event list \<Rightarrow> HealthMonitor \<times> (string \<times> URL) list \<Rightarrow> bool" for rts where
  start: "hm_trace rts [] (NewHealthMonitor rts, [])"
| next_event: "hm_trace rts es s \<Longrightarrow> hm_step s e s' \<Longrightarrow> hm_trace rts (e # es) s'"

fun probes :: "string \<Rightarrow> hm_event list \<Rightarrow> bool list" where
  "probes i [] = []"
| "probes i (Probed j b # es) = (if j = i then b # probes i es else probes i es)"
| "probes i (_ # es) = probes i es"

text \<open>
  The number of probes of a sandbox's identifier since the last good one. The counter is
  this number modulo the threshold: it is counted by identifier, whatever happens to the route.
\<close>

definition failing :: "string \<Rightarrow> hm_event list \<Rightarrow> nat" where
  "failing i es = length (takeWhile Not (probes i es))"

lemma failing_Probed: "failing i (Probed j b # es) = (if j = i then if b then 0 else Suc (failing i es) else failing i es)"
  by (simp add: failing_def)

lemma failing_other: "\<forall>j b. e \<noteq> Probed j b \<Longrightarrow> failing i (e # es) = failing i es"
  by (cases e) (auto simp: failing_def)

definition counts_probes :: "hm_event list \<Rightarrow> HealthMonitor \<Rightarrow> bool" where
  "counts_probes es m \<longleftrightarrow> FailThreshold m = 3 \<and> (\<forall>i. fail_count m i = int (failing i es mod 3))"

lemma mod3_Suc: "int (Suc n mod 3) = (if 3 \<le> int (n mod 3) + 1 then 0 else int (n mod 3) + 1)"
proof -
  have "n mod 3 < 3" by simp
  then show ?thesis by (auto simp: mod_Suc)
qed

lemma counts_probes_Probed:
  assumes "counts_probes es m"
  shows "counts_probes (Probed i b # es) (snd (checkRoute b i m))"
proof -
  have "fail_count (snd (checkRoute b i m)) j = int (failing j (Probed i b # es) mod 3)" for j
    unfolding failing_Probed if_distrib [of "\<lambda>n. int (n mod 3)"] mod3_Suc
    using assms by (simp add: counts_probes_def checkRoute_failures)
  with assms show ?thesis by (simp add: counts_probes_def)
qed

lemma counts_probes_routes: "counts_probes es m \<Longrightarrow> counts_probes es (m\<lparr>hm_Routes := rts\<rparr>)"
  by (simp add: counts_probes_def)

lemma counts_probes_other: "counts_probes es m \<Longrightarrow> \<forall>i b. e \<noteq> Probed i b \<Longrightarrow> counts_probes (e # es) m"
  by (simp add: counts_probes_def failing_other)

lemma hm_trace_counts: "hm_trace rts es s \<Longrightarrow> counts_probes es (fst s)"
proof (induction rule: hm_trace.induct)
  case start
  show ?case by (simp add: counts_probes_def NewHealthMonitor_def failing_def)
next
  case (next_event es s e s')
  from next_event.hyps(2) next_event.IH show ?case
    by (cases rule: hm_step.cases)
      (auto intro: counts_probes_Probed counts_probes_other counts_probes_routes)
qed

section \<open>Properties\<close>

definition demo_routes :: RouteRegistry where
  "demo_routes = \<lparr>routes = fmupd ''sbx-1'' \<lparr>u_Scheme = ''http'', u_User = None, u_Host = ''10.0.0.7:8081'', u_Path = [],
     u_RawQuery = [], u_Fragment = []\<rparr> fmempty\<rparr>"

definition demo_down :: hm_env where
  "demo_down = \<lparr>urlString = u_Host, newRequest = (\<lambda>_. True), getStatus = (\<lambda>_ _. None)\<rparr>"

text \<open>
  One pass of the monitor does, for every route and whatever the order of the walk,
  what it should: a healthy route stays and its failures are forgotten, an unhealthy one
  is counted, and it is removed when the count reaches the threshold.
\<close>

theorem check_once_effect:
  assumes "distinct order" and "set order = fset (fmdom (routes (hm_Routes m)))" and "Reg_Get (hm_Routes m) i = Some u"
  shows "let m' = snd (CheckOnce env order m) in
         if probe env i u then Reg_Get (hm_Routes m') i = Some u \<and> failures m' i = None
         else if FailThreshold m \<le> fail_count m i + 1 then Reg_Get (hm_Routes m') i = None \<and> failures m' i = None
         else Reg_Get (hm_Routes m') i = Some u \<and> failures m' i = Some (fail_count m i + 1)"
  using CheckOnce_effect(2,3) [where j = i and env = env, OF assms(1,2)] assms(3) by (auto simp: Let_def evicted_def)

theorem check_once_effect_witness:
  "failures (snd (CheckOnce demo_down [''sbx-1''] (NewHealthMonitor demo_routes))) ''sbx-1'' = Some 1"
proof -
  obtain u where "Reg_Get (hm_Routes (NewHealthMonitor demo_routes)) ''sbx-1'' = Some u"
    by (simp add: NewHealthMonitor_def demo_routes_def Reg_Get_def)
  from check_once_effect [OF _ _ this, of "[''sbx-1'']" demo_down] show ?thesis
    by (simp add: NewHealthMonitor_def demo_routes_def demo_down_def probe_def Let_def split: if_splits)
qed

text \<open>
  C22. When the monitor evicts: in every interleaving of its probes with the admin API, a
  probe removes the route of its sandbox exactly when it failed and the run of failed
  probes of this identifier that it ends has a length divisible by three; no probe changes
  any other route. So a route is never lost before three probes of the identifier have
  failed in a row. The run is counted by identifier and goes on when the route is
  unregistered or replaced, so that the first failed probe of a new route can evict it (the
  witness is such a trace), where the comment of \<open>HealthMonitor\<close> speaks of consecutive failures of
  the backend.
\<close>

theorem eviction_rule:
  assumes "hm_trace rts es (m, p)" and "hm_step (m, p) (Probed i b) (m', p')"
  shows "Reg_Get (hm_Routes m') =
     (Reg_Get (hm_Routes m))(i := if \<not> b \<and> 3 dvd length (takeWhile Not (probes i (Probed i b # es))) then None
                                 else Reg_Get (hm_Routes m) i)"
proof -
  have c: "counts_probes es m" using hm_trace_counts [OF assms(1)] by simp
  have m': "m' = snd (checkRoute b i m)" using assms(2) by (auto elim: hm_step_probed)
  have "3 \<le> fail_count m i + 1 \<longleftrightarrow> 3 dvd Suc (failing i es)"
    using c mod3_Suc [of "failing i es"] unfolding counts_probes_def dvd_eq_mod_eq_0 by (auto split: if_splits)
  then show ?thesis
    using c unfolding m' by (auto simp: fun_eq_iff checkRoute_routes counts_probes_def failing_def)
qed

definition demo_other_url :: URL where
  "demo_other_url = \<lparr>u_Scheme = ''http'', u_User = None, u_Host = ''10.0.0.9:8081'', u_Path = [], u_RawQuery = [], u_Fragment = []\<rparr>"

definition demo_failing :: "nat \<Rightarrow> HealthMonitor" where
  "demo_failing n = ((\<lambda>m. snd (checkRoute False ''sbx-1'' m)) ^^ n) (NewHealthMonitor demo_routes)"

lemma demo_failing_routes:
  "hm_Routes (demo_failing 0) = demo_routes" "hm_Routes (demo_failing 1) = demo_routes" "hm_Routes (demo_failing 2) = demo_routes"
  by (simp_all add: demo_failing_def numeral_2_eq_2 checkRoute_def recordFailure_def NewHealthMonitor_def Let_def)

lemma demo_tick:
  assumes "hm_trace demo_routes es (m, [])" and "routes (hm_Routes m) = fmupd ''sbx-1'' u fmempty"
  shows "hm_trace demo_routes (Tick # es) (m, [(''sbx-1'', u)])"
proof -
  have "hm_step (m, []) Tick (m, snapshot (Reg_List (hm_Routes m)) [''sbx-1''])"
    using assms(2) by (intro hm_step.intros) simp_all
  from next_event [OF assms(1) this] assms(2) show ?thesis by (simp add: snapshot_def)
qed

lemma demo_pass:
  assumes "hm_trace demo_routes es (m, [])" and "hm_Routes m = demo_routes"
  shows "hm_trace demo_routes (Probed ''sbx-1'' False # Tick # es) (snd (checkRoute False ''sbx-1'' m), [])"
  using next_event [OF demo_tick [OF assms(1)] probed] assms(2) by (simp add: demo_routes_def)

text \<open>Two failed probes of the old route, then the route is removed and registered with another target.\<close>

definition demo_trace :: "hm_event list" where
  "demo_trace = [Tick, AdminSet ''sbx-1'' (Some demo_other_url), AdminUnregister ''sbx-1'',
     Probed ''sbx-1'' False, Tick, Probed ''sbx-1'' False, Tick]"

lemma demo_replaced:
  "\<exists>m. hm_trace demo_routes demo_trace (m, [(''sbx-1'', demo_other_url)]) \<and> Reg_Get (hm_Routes m) ''sbx-1'' = Some demo_other_url"
proof -
  have "hm_trace demo_routes [] (demo_failing 0, [])" by (simp add: demo_failing_def start)
  then have "hm_trace demo_routes [Probed ''sbx-1'' False, Tick] (demo_failing 1, [])"
    using demo_pass [OF _ demo_failing_routes(1)] by (simp add: demo_failing_def)
  then have t: "hm_trace demo_routes [Probed ''sbx-1'' False, Tick, Probed ''sbx-1'' False, Tick] (demo_failing 2, [])"
    using demo_pass [OF _ demo_failing_routes(2)] by (simp add: demo_failing_def numeral_2_eq_2)
  let ?m1 = "(demo_failing 2)\<lparr>hm_Routes := snd (Reg_Unregister (hm_Routes (demo_failing 2)) ''sbx-1'')\<rparr>"
  let ?m2 = "?m1\<lparr>hm_Routes := \<lparr>routes = fmupd ''sbx-1'' demo_other_url fmempty\<rparr>\<rparr>"
  have "Reg_Set (hm_Routes ?m1) ''sbx-1'' (Some demo_other_url) = Some \<lparr>routes = fmupd ''sbx-1'' demo_other_url fmempty\<rparr>"
    by (auto simp: demo_failing_routes demo_routes_def Reg_Set_def Reg_Unregister_def demo_other_url_def Let_def intro: fmap_ext)
  from next_event [OF next_event [OF t admin_unregister] admin_set [OF this]]
  have "hm_trace demo_routes (tl demo_trace) (?m2, [])" by (simp add: demo_trace_def)
  then have "hm_trace demo_routes demo_trace (?m2, [(''sbx-1'', demo_other_url)])"
    using demo_tick [of "tl demo_trace" ?m2 demo_other_url] by (simp add: demo_trace_def)
  then show ?thesis by (intro exI [of _ ?m2]) (simp add: Reg_Get_def demo_other_url_def)
qed

theorem eviction_rule_witness:
  "\<exists>m m'. hm_trace demo_routes demo_trace (m, [(''sbx-1'', demo_other_url)]) \<and> Reg_Get (hm_Routes m) ''sbx-1'' = Some demo_other_url \<and>
     hm_step (m, [(''sbx-1'', demo_other_url)]) (Probed ''sbx-1'' False) (m', []) \<and> Reg_Get (hm_Routes m') ''sbx-1'' = None"
proof -
  from demo_replaced obtain m where m: "hm_trace demo_routes demo_trace (m, [(''sbx-1'', demo_other_url)])"
    "Reg_Get (hm_Routes m) ''sbx-1'' = Some demo_other_url" by blast
  have "length (takeWhile Not (probes ''sbx-1'' (Probed ''sbx-1'' False # demo_trace))) = 3" by (simp add: demo_trace_def)
  then have "Reg_Get (hm_Routes (snd (checkRoute False ''sbx-1'' m))) ''sbx-1'' = None"
    using eviction_rule [OF m(1) probed, of False] by simp
  with m probed [of m "''sbx-1''" demo_other_url "[]" False] show ?thesis by blast
qed

end
