(* ===== verification/Commands.thy ===== *)
theory Commands
  imports Sql_Open Sandbox_Claims Proxy Admin Health_Monitor
begin

text \<open>
  How the commands put the components together: \<open>cmd/envd-proxy/main.go\<close> (one listener
  for the proxy and the route API over one table of routes, and the monitor beside it) and
  \<open>cmd/kubebox/main.go\<close> (the store over the boundary the environment selects). What
  \<open>cmd/kubebox\<close> then serves is in the theory \<open>Control_Plane\<close>, the signals and the shutdown are in
  \<open>Lifecycle\<close>; a \<open>log.Fatal\<close> is an error.
\<close>

section \<open>envd-proxy\<close>

datatype edge_error = TokenSecretTooShort | AdminSecretMissing | InitTokenIssuer

text \<open>
  The three handlers share one registry by pointer: it is the one of the monitor here, and
  the proxy and the admin handler are built on it for each request.
\<close>

record Edge =
  ed_Addr :: string
  ed_Issuer :: TokenIssuer
  ed_adminSecret :: string
  ed_Monitor :: HealthMonitor

abbreviation ed_Routes :: "Edge \<Rightarrow> RouteRegistry" where
  "ed_Routes e \<equiv> hm_Routes (ed_Monitor e)"

definition edge_main :: "(string \<Rightarrow> string) \<Rightarrow> (edge_error, Edge) result" where
  "edge_main getenv =
     (let tokenSecret = getenv ''KUBEBOX_TOKEN_SECRET'';
          adminSecret = getenv ''KUBEBOX_ADMIN_SECRET'';
          addr = (if getenv ''KUBEBOX_ADDR'' = [] then '':8080'' else getenv ''KUBEBOX_ADDR'')
      in if length tokenSecret < 32 then Inl TokenSecretTooShort
         else if adminSecret = [] then Inl AdminSecretMissing
         else (case NewTokenIssuer tokenSecret of
                 None \<Rightarrow> Inl InitTokenIssuer
               | Some issuer \<Rightarrow>
                   Inr \<lparr>ed_Addr = addr, ed_Issuer = issuer, ed_adminSecret = adminSecret,
                        ed_Monitor = NewHealthMonitor NewRouteRegistry\<rparr>))"

definition edge_proxy :: "Edge \<Rightarrow> Proxy" where
  "edge_proxy e = \<lparr>Issuer = ed_Issuer e, Routes = ed_Routes e\<rparr>"

definition edge_handler ::
  "(string \<Rightarrow> URL option) \<Rightarrow> (URL \<Rightarrow> string) \<Rightarrow> time \<Rightarrow> (OutRequest \<Rightarrow> Response option) \<Rightarrow> Edge \<Rightarrow> Request
     \<Rightarrow> Response \<times> OutRequest option \<times> Edge" where
  "edge_handler parse encodeURL now backend e r =
     (if rq_Path r = ''/healthz'' \<or> HasPrefix (rq_Path r) ''/internal/'' then
        (case Admin_ServeHTTP parse encodeURL (NewAdmin (ed_Routes e) (ed_adminSecret e)) r of
           (resp, a) \<Rightarrow> (resp, None, e\<lparr>ed_Monitor := (ed_Monitor e)\<lparr>hm_Routes := ad_Routes a\<rparr>\<rparr>))
      else (case Proxy_Handler (edge_proxy e) now backend r of (resp, out) \<Rightarrow> (resp, out, e)))"

text \<open>Requests, and the passes of the monitor: a snapshot at each tick, then one probe at a time.\<close>

inductive edge_step ::
  "(string \<Rightarrow> URL option) \<Rightarrow> (URL \<Rightarrow> string) \<Rightarrow> Edge \<times> (string \<times> URL) list \<Rightarrow> Edge \<times> (string \<times> URL) list \<Rightarrow> bool"
  for parse encodeURL where
  es_request: "edge_handler parse encodeURL now backend e r = (resp, out, e') \<Longrightarrow> edge_step parse encodeURL (e, p) (e', p)"
| es_tick: "hm_step (ed_Monitor e, p) Tick (m', p') \<Longrightarrow> edge_step parse encodeURL (e, p) (e\<lparr>ed_Monitor := m'\<rparr>, p')"
| es_probed: "hm_step (ed_Monitor e, p) (Probed i b) (m', p') \<Longrightarrow> edge_step parse encodeURL (e, p) (e\<lparr>ed_Monitor := m'\<rparr>, p')"

inductive_cases hm_step_tick: "hm_step (m, p) Tick s'"

section \<open>kubebox\<close>

text \<open>
  \<open>openGovernanceStore\<close>: the in-memory store (\<open>Inl\<close>) or a SQL store (\<open>Inr\<close>); the
  method table that goes with it is the dynamic dispatch of the interface.
\<close>

definition openGovernanceStore ::
  "DbEnv \<Rightarrow> (string \<Rightarrow> DsnURL option) \<Rightarrow> sql_db \<Rightarrow> outcome list \<Rightarrow> (string \<Rightarrow> string)
     \<Rightarrow> (sql_open_error, MemoryGovernanceStore + SQLStore) result" where
  "openGovernanceStore E parse d os getenv =
     (let dsn = getenv ''KUBEBOX_DATABASE_URL'' in
      if dsn = [] then Inr (Inl NewMemoryGovernanceStore)
      else (case fst (OpenSQLStore E parse d os dsn []) of Inl err \<Rightarrow> Inl err | Inr st \<Rightarrow> Inr (Inr st)))"

datatype kubebox_error = OpenGovernance sql_open_error | NilGovernance | InitialQuota sandbox_error

definition kubebox_store :: "'g GovernanceStore \<Rightarrow> 'g \<Rightarrow> (kubebox_error, 'g Store) result" where
  "kubebox_store G g =
     (case NewStoreWithGovernance (Some g) of
        None \<Rightarrow> Inl NilGovernance
      | Some s \<Rightarrow>
          (case Store_SetQuota G s ''default'' ''local-dev'' 50 of
             (Some err, _) \<Rightarrow> Inl (InitialQuota err)
           | (None, s) \<Rightarrow> Inr s))"

definition kubebox_main ::
  "DbEnv \<Rightarrow> (string \<Rightarrow> DsnURL option) \<Rightarrow> sql_db \<Rightarrow> outcome list \<Rightarrow> (string \<Rightarrow> string)
     \<Rightarrow> (kubebox_error, string \<times> (MemoryGovernanceStore Store + SQLStore Store)) result" where
  "kubebox_main E parse d os getenv =
     (case openGovernanceStore E parse d os getenv of
        Inl err \<Rightarrow> Inl (OpenGovernance err)
      | Inr boundary \<Rightarrow>
          let addr = (if getenv ''KUBEBOX_ADDR'' = [] then '':8080'' else getenv ''KUBEBOX_ADDR'')
          in (case boundary of
                Inl g \<Rightarrow> map_sum id (\<lambda>s. (addr, Inl s)) (kubebox_store memory_governance g)
              | Inr g \<Rightarrow> map_sum id (\<lambda>s. (addr, Inr s)) (kubebox_store sql_governance g)))"

section \<open>Lemmas\<close>

definition edge_inv :: "(string \<Rightarrow> string) \<Rightarrow> Edge \<Rightarrow> bool" where
  "edge_inv getenv e \<longleftrightarrow> ed_adminSecret e = getenv ''KUBEBOX_ADMIN_SECRET'' \<and> ed_adminSecret e \<noteq> [] \<and>
     secret (ed_Issuer e) = getenv ''KUBEBOX_TOKEN_SECRET'' \<and> 32 \<le> length (secret (ed_Issuer e)) \<and> reg_inv (ed_Routes e)"

lemma Reg_New: "Reg_Get NewRouteRegistry i = None"
  by (simp add: Reg_Get_def NewRouteRegistry_def)

lemma edge_inv_main: "edge_main getenv = Inr e \<Longrightarrow> edge_inv getenv e \<and> (\<forall>i. Reg_Get (ed_Routes e) i = None)"
  by (auto simp: edge_main_def edge_inv_def NewTokenIssuer_def NewHealthMonitor_def reg_inv_New Let_def Reg_New
      split: if_splits)

lemma checkRoute_reg_inv: "reg_inv (hm_Routes m) \<Longrightarrow> reg_inv (hm_Routes (snd (checkRoute b i m)))"
  using reg_inv_Unregister [of "hm_Routes m" i]
  by (auto simp: checkRoute_def recordFailure_def resetFailures_def Let_def split: prod.split)

lemma edge_inv_handler:
  assumes "edge_handler parse enc now backend e r = (resp, out, e')" and "edge_inv getenv e"
  shows "edge_inv getenv e'"
proof -
  have "reg_inv (ad_Routes (snd (Admin_ServeHTTP parse enc (NewAdmin (ed_Routes e) (ed_adminSecret e)) r)))"
    using assms(2) by (intro Admin_reg_inv) (simp add: edge_inv_def NewAdmin_def)
  with assms show ?thesis by (auto simp: edge_handler_def edge_inv_def split: if_splits prod.splits)
qed

lemma edge_inv_step: "edge_step parse enc s s' \<Longrightarrow> edge_inv getenv (fst s) \<Longrightarrow> edge_inv getenv (fst s')"
proof (induction rule: edge_step.induct)
  case (es_request now backend e r resp out e' p)
  then show ?case by (auto intro: edge_inv_handler)
qed (auto simp: edge_inv_def checkRoute_reg_inv elim!: hm_step_tick hm_step_probed)

lemma edge_inv_steps: "(edge_step parse enc)\<^sup>*\<^sup>* s s' \<Longrightarrow> edge_inv getenv (fst s) \<Longrightarrow> edge_inv getenv (fst s')"
  by (induction rule: rtranclp_induct) (auto intro: edge_inv_step)

lemma handler_without_secret:
  assumes "edge_handler parse enc now backend e r = (resp, out, e')"
    and "Header_Get (rq_Header r) ''X-Kubebox-Admin-Token'' \<noteq> ed_adminSecret e"
  shows "e' = e"
proof -
  have "\<not> authorized (NewAdmin (ed_Routes e) (ed_adminSecret e)) r" using assms(2) by (simp add: authorized_iff NewAdmin_def)
  from Admin_unauthorized [OF this, of parse enc] assms(1) show ?thesis
    by (auto simp: edge_handler_def Admin_ServeHTTP_def NewAdmin_def split: if_splits prod.splits)
qed

text \<open>The store of kubebox is a reachable store with the first quota set.\<close>

lemma kubebox_store_reachable:
  assumes "kubebox_store G g = Inr s"
  shows "reachable_store G s \<and> gov s \<noteq> None \<and>
     (\<exists>q. Store_GetQuota s ''default'' ''local-dev'' = Some q \<and> q_ConcurrentLimit q = 50 \<and> q_CurrentCount q = 0)"
proof -
  obtain s0 where s0: "NewStoreWithGovernance (Some g) = Some s0" by (simp add: NewStoreWithGovernance_def)
  with assms have s: "Store_SetQuota G s0 ''default'' ''local-dev'' 50 = (None, s)"
    by (auto simp: kubebox_store_def split: prod.splits option.splits)
  have "reachable_store G s0" using s0 by (auto simp: reachable_store_def store_start_def)
  moreover have "store_step G s0 (snd (Store_SetQuota G s0 ''default'' ''local-dev'' 50))" by (rule step_SetQuota)
  ultimately have "reachable_store G s" using s by (auto intro: reachable_steps)
  moreover have "gov s \<noteq> None" "\<exists>q. Store_GetQuota s ''default'' ''local-dev'' = Some q \<and> q_ConcurrentLimit q = 50 \<and> q_CurrentCount q = 0"
    using s s0 by (auto simp: NewStoreWithGovernance_def Store_SetQuota_def Store_GetQuota_def Let_def split: prod.splits option.splits)
  ultimately show ?thesis by blast
qed

text \<open>An example: a listener with one route, and a request to remove it without the secret.\<close>

definition demo_getenv :: "string \<Rightarrow> string" where
  "demo_getenv k = (if k = ''KUBEBOX_TOKEN_SECRET'' then replicate 32 (CHR ''s'') else if k = ''KUBEBOX_ADMIN_SECRET'' then ''admin'' else [])"

definition demo_delete :: Request where
  "demo_delete = \<lparr>rq_Method = ''DELETE'', rq_Path = ''/internal/v1/routes/sbx-1'', rq_EscapedPath = ''/internal/v1/routes/sbx-1'', rq_RawQuery = [],
     rq_Query = Map.empty, rq_Header = Map.empty, rq_Body = [], rq_BodyErr = False, rq_ClientIP = None\<rparr>"

definition demo_register :: Request where
  "demo_register = \<lparr>rq_Method = ''POST'', rq_Path = ''/internal/v1/routes'', rq_EscapedPath = ''/internal/v1/routes'', rq_RawQuery = [],
     rq_Query = Map.empty, rq_Header = [''X-Kubebox-Admin-Token'' \<mapsto> [''admin'']],
     rq_Body = json_object [(''sandboxId'', json_string ''sbx-1''), (''target'', json_string ''http://10.0.0.7:8081'')],
     rq_BodyErr = False, rq_ClientIP = None\<rparr>"

definition demo_edge :: Edge where
  "demo_edge = \<lparr>ed_Addr = '':8080'', ed_Issuer = \<lparr>secret = replicate 32 (CHR ''s'')\<rparr>, ed_adminSecret = ''admin'',
     ed_Monitor = NewHealthMonitor NewRouteRegistry\<rparr>"

lemma demo_edge_start: "edge_main demo_getenv = Inr demo_edge"
  by (simp add: edge_main_def demo_getenv_def demo_edge_def NewTokenIssuer_def Let_def)

lemma demo_registered:
  "\<exists>resp e. edge_handler (\<lambda>_. Some demo_url) (\<lambda>_. ''{}'') 0 (\<lambda>_. None) demo_edge demo_register = (resp, None, e) \<and>
     Reg_Get (ed_Routes e) ''sbx-1'' \<noteq> None"
proof -
  let ?body = "json_object [(''sandboxId'', json_string ''sbx-1''), (''target'', json_string ''http://10.0.0.7:8081'')]"
  have "length ?body \<le> 60" by code_simp
  then have body: "readLimited 65536 demo_register = Some ?body" by (simp add: readLimited_def demo_register_def)
  have "authorized (NewAdmin NewRouteRegistry ''admin'') demo_register" "HasPrefix (rq_Path demo_register) ''/internal/''"
    "rq_Path demo_register = ''/internal/v1/routes''" "rq_Method demo_register = ''POST''"
    by (simp_all add: authorized_iff demo_register_def NewAdmin_def header_defs CanonicalHeaderKey_def) code_simp+
  with body show ?thesis
    using unmarshalRegister_map [of "''sbx-1''" "''http://10.0.0.7:8081''"]
    by (simp add: edge_handler_def Admin_ServeHTTP_def handleRoutes_def handleRegister_def demo_edge_def utf8_valid_ascii
        NewHealthMonitor_def Reg_Set_def demo_url_def Reg_Get_def NewAdmin_def)
qed

section \<open>Claims\<close>

text \<open>
  C15. The public listener of envd-proxy, in every state it reaches from its start by requests
  and probes: a request without the configured admin secret changes no route, and a request
  that is forwarded goes to a route that was registered for the sandbox in its path, is not
  for the route API, carries a credential of this issuer for that sandbox and scope, and is
  forwarded without it; it changes no route either.
\<close>

theorem public_listener:
  assumes "edge_main getenv = Inr e0" and "(edge_step parse enc)\<^sup>*\<^sup>* (e0, []) (e, p)"
    and "edge_handler parse enc now backend e r = (resp, out, e')"
  shows "(Header_Get (rq_Header r) ''X-Kubebox-Admin-Token'' \<noteq> getenv ''KUBEBOX_ADMIN_SECRET'' \<longrightarrow> ed_Routes e' = ed_Routes e) \<and>
     (\<forall>o1. out = Some o1 \<longrightarrow>
        (\<exists>i bp u env. parsePath (rq_Path r) = Some (i, bp) \<and> \<not> HasPrefix (rq_Path r) ''/internal/'' \<and>
           Reg_Get (ed_Routes e) i = Some u \<and> valid_target u \<and> o_Scheme o1 = u_Scheme u \<and> o_Host o1 = u_Host u \<and>
           Validate \<lparr>secret = getenv ''KUBEBOX_TOKEN_SECRET''\<rparr> now (bearer r) i (scopeFor (rq_Method r) bp) = Inr env \<and>
           o_Header o1 ''Authorization'' = None) \<and> e' = e)"
proof -
  have inv: "edge_inv getenv e" using edge_inv_steps [OF assms(2)] edge_inv_main [OF assms(1)] by simp
  have "\<exists>i bp u env. parsePath (rq_Path r) = Some (i, bp) \<and> \<not> HasPrefix (rq_Path r) ''/internal/'' \<and>
      Reg_Get (ed_Routes e) i = Some u \<and> valid_target u \<and> o_Scheme o1 = u_Scheme u \<and> o_Host o1 = u_Host u \<and>
      Validate \<lparr>secret = getenv ''KUBEBOX_TOKEN_SECRET''\<rparr> now (bearer r) i (scopeFor (rq_Method r) bp) = Inr env \<and>
      o_Header o1 ''Authorization'' = None" and "e' = e" if "out = Some o1" for o1
  proof -
    from assms(3) that have path: "\<not> HasPrefix (rq_Path r) ''/internal/''" and "e' = e"
      and "snd (Proxy_Handler (edge_proxy e) now backend r) = Some o1"
      by (auto simp: edge_handler_def split: if_splits prod.splits)
    from this(3) obtain i bp u env where f: "parsePath (rq_Path r) = Some (i, bp)" "Reg_Get (ed_Routes e) i = Some u"
      "Validate (ed_Issuer e) now (bearer r) i (scopeFor (rq_Method r) bp) = Inr env" "o1 = outgoing u i bp (c_Scopes env) r"
      by (auto simp: edge_proxy_def elim: Proxy_Handler_forwarded)
    have "valid_target u" using rt.stored_valid [of "ed_Routes e" i u] f(2) inv by (simp add: edge_inv_def)
    moreover have "ed_Issuer e = \<lparr>secret = getenv ''KUBEBOX_TOKEN_SECRET''\<rparr>"
      using inv by (cases "ed_Issuer e") (simp add: edge_inv_def)
    ultimately show "\<exists>i bp u env. parsePath (rq_Path r) = Some (i, bp) \<and> \<not> HasPrefix (rq_Path r) ''/internal/'' \<and>
      Reg_Get (ed_Routes e) i = Some u \<and> valid_target u \<and> o_Scheme o1 = u_Scheme u \<and> o_Host o1 = u_Host u \<and>
      Validate \<lparr>secret = getenv ''KUBEBOX_TOKEN_SECRET''\<rparr> now (bearer r) i (scopeFor (rq_Method r) bp) = Inr env \<and>
      o_Header o1 ''Authorization'' = None"
      using f path outgoing_Authorization [of u i bp "c_Scopes env" r] by (auto simp: outgoing_def)
    show "e' = e" by fact
  qed
  moreover have "ed_Routes e' = ed_Routes e" if "Header_Get (rq_Header r) ''X-Kubebox-Admin-Token'' \<noteq> getenv ''KUBEBOX_ADMIN_SECRET''"
    using handler_without_secret [OF assms(3)] that inv by (simp add: edge_inv_def)
  ultimately show ?thesis by blast
qed

theorem public_listener_witness:
  "\<exists>e resp out e'. (edge_step (\<lambda>_. Some demo_url) (\<lambda>_. ''{}''))\<^sup>*\<^sup>* (demo_edge, []) (e, []) \<and> Reg_Get (ed_Routes e) ''sbx-1'' \<noteq> None \<and>
     edge_handler (\<lambda>_. Some demo_url) (\<lambda>_. ''{}'') 1 (\<lambda>_. None) e demo_delete = (resp, out, e') \<and> ed_Routes e' = ed_Routes e"
proof -
  from demo_registered obtain resp1 e where e: "edge_handler (\<lambda>_. Some demo_url) (\<lambda>_. ''{}'') 0 (\<lambda>_. None) demo_edge demo_register = (resp1, None, e)"
    "Reg_Get (ed_Routes e) ''sbx-1'' \<noteq> None" by blast
  then have steps: "(edge_step (\<lambda>_. Some demo_url) (\<lambda>_. ''{}''))\<^sup>*\<^sup>* (demo_edge, []) (e, [])" by (blast intro: es_request)
  obtain resp out e' where h: "edge_handler (\<lambda>_. Some demo_url) (\<lambda>_. ''{}'') 1 (\<lambda>_. None) e demo_delete = (resp, out, e')"
    by (metis surjective_pairing)
  have "Header_Get (rq_Header demo_delete) ''X-Kubebox-Admin-Token'' \<noteq> demo_getenv ''KUBEBOX_ADMIN_SECRET''"
    by (simp add: demo_delete_def demo_getenv_def header_defs)
  with public_listener [OF demo_edge_start steps h] e(2) steps h show ?thesis by blast
qed

end
