(* ===== verification/Control_Plane.thy ===== *)
theory Control_Plane
  imports Sandbox_Http Commands
begin

text \<open>
  The running control plane: what \<open>cmd/kubebox/main.go\<close> serves is the handler of
  \<open>internal/sandbox/http.go\<close> over the store with its first quota. The store is locked in
  every method, so requests are handled one after the other.
\<close>

section \<open>Serving\<close>

text \<open>\<open>http.ListenAndServe(addr, sandbox.NewHandler(store))\<close>, one request at a time.\<close>

inductive serve_step :: "'g GovernanceStore \<Rightarrow> (time \<Rightarrow> string) \<Rightarrow> 'g Store \<Rightarrow> 'g Store \<Rightarrow> bool" for G enc where
  serve: "sequence s \<noteq> - 1 \<Longrightarrow> sandbox_Handler G enc s r now now' = (resp, s') \<Longrightarrow> serve_step G enc s s'"

abbreviation serve_steps :: "'g GovernanceStore \<Rightarrow> (time \<Rightarrow> string) \<Rightarrow> 'g Store \<Rightarrow> 'g Store \<Rightarrow> bool" where
  "serve_steps G enc \<equiv> (serve_step G enc)\<^sup>*\<^sup>*"

text \<open>The calls of the store a request can lead to: no quota is set and no deletion completed.\<close>

lemma Handler_calls:
  assumes "sandbox_Handler G enc s r now now' = (resp, s')"
  obtains "s' = s" | w k req where "s' = snd (Create G s w k req now)" | i where "s' = snd (Drain G s i now now')"
proof -
  have "snd (http_create G enc s r now) = s \<or> (\<exists>w k req. snd (http_create G enc s r now) = snd (Create G s w k req now))"
    by (cases "decodeCreate (rq_Body r)") (auto simp: http_create_def Let_def split: prod.split sum.split, (metis snd_conv)+)
  moreover have "snd (http_instance G enc s r now now') = s \<or> (\<exists>i. snd (http_instance G enc s r now now') = snd (Drain G s i now now'))"
    by (auto simp: http_instance_def Let_def split: prod.split sum.split) (metis snd_conv)+
  moreover have "s' \<in> {s, snd (http_create G enc s r now), snd (http_instance G enc s r now now')}"
    using assms by (auto simp: sandbox_Handler_def map_prod_def split: mux_result.splits prod.splits if_splits)
  ultimately show thesis using that by auto
qed

lemma serve_store_steps: "serve_steps G enc s s' \<Longrightarrow> store_steps G s s'"
proof (induction rule: rtranclp_induct)
  case (step t u)
  from step.hyps(2) obtain r now now' resp where "sequence t \<noteq> - 1" "sandbox_Handler G enc t r now now' = (resp, u)"
    by (auto elim: serve_step.cases)
  with sandbox_Handler_step [of t G enc r now now'] have "store_steps G t u" by simp
  with step.IH show ?case by simp
qed simp

section \<open>The invariant of the control plane\<close>

text \<open>
  \<open>rows\<close> are the limits the boundary had when serving began. They stay, no sandbox is
  deleted for good, and every sandbox belongs to an owner with a row.
\<close>

definition plane_inv ::
  "(string \<Rightarrow> string \<Rightarrow> 'k) \<Rightarrow> ('g \<Rightarrow> 'k \<Rightarrow> (int \<times> int) option) \<Rightarrow> ('g \<Rightarrow> bool) \<Rightarrow> ('k \<Rightarrow> int option) \<Rightarrow> 'g Store \<Rightarrow> bool" where
  "plane_inv bucket quota ginv rows s \<longleftrightarrow> store_wf s \<and>
     (\<exists>g. gov s = Some g \<and> ginv g \<and> (\<forall>k. map_option fst (quota g k) = rows k)) \<and>
     (\<forall>i sb. sandboxes s i = Some sb \<longrightarrow> sb_Phase sb \<noteq> PhaseDeleted \<and> rows (bucket (sb_TenantID sb) (sb_OwnerID sb)) \<noteq> None)"

context atomic_governance
begin

lemma plane_inv_Create:
  assumes inv: "plane_inv bucket quota ginv rows s" and ne: "sequence s \<noteq> - 1"
  shows "plane_inv bucket quota ginv rows (snd (Create G s w k req now))"
proof -
  obtain res s' where c: "Create G s w k req now = (res, s')" by fastforce
  from inv obtain g where g: "gov s = Some g" "ginv g" "\<And>k. map_option fst (quota g k) = rows k" and wf: "store_wf s"
    and sbs: "\<And>i sb. sandboxes s i = Some sb \<Longrightarrow> sb_Phase sb \<noteq> PhaseDeleted \<and> rows (bucket (sb_TenantID sb) (sb_OwnerID sb)) \<noteq> None"
    by (auto simp: plane_inv_def)
  have wf': "store_wf s'" using wf_Create [OF wf ne, of G w k req now] c by simp
  from c have "plane_inv bucket quota ginv rows s'"
  proof (cases rule: Create_effect)
    case same
    with inv show ?thesis by simp
  next
    case refused
    with g show ?thesis by simp
  next
    case (failed g0 g' err)
    with g have "ReserveAllocation G g (r_TenantID req) w (allocationName (sequence s + 1)) (sandboxName (sequence s + 1)) now = (Some err, g')" by simp
    with reserve_err [OF g(2) this] reserve_ginv [OF g(2)] have "quota g' = quota g" "ginv g'" by (blast, metis snd_conv)
    with failed(5) g(3) wf' sbs show ?thesis by (auto simp: plane_inv_def)
  next
    case (ok g1 q)
    from ok(8) [OF g(1)] obtain g' where g': "g1 = Some g'"
      and r: "ReserveAllocation G g (r_TenantID req) w (allocationName (sequence s + 1)) (sandboxName (sequence s + 1)) now = (None, g')" by blast
    from reserve_ok [OF g(2) r] obtain l n where q: "quota g (bucket (r_TenantID req) w) = Some (l, n)"
      "quota g' = (quota g)(bucket (r_TenantID req) w \<mapsto> (l, n + 1))" by blast
    have "map_option fst (quota g' k) = rows k" for k using g(3) [of k] q by auto
    moreover have "rows (bucket (r_TenantID req) w) \<noteq> None" using g(3) [of "bucket (r_TenantID req) w"] q(1) by (metis map_option_is_None option.distinct(1))
    moreover have "ginv g'" using reserve_ginv [OF g(2)] r by (metis snd_conv)
    ultimately show ?thesis
      using wf' sbs by (auto simp: plane_inv_def ok(4) g' new_sandbox_def split: if_splits)
  qed
  with c show ?thesis by simp
qed

lemma plane_inv_Drain:
  assumes inv: "plane_inv bucket quota ginv rows s"
  shows "plane_inv bucket quota ginv rows (snd (Drain G s i now now'))"
proof -
  obtain res s' where d: "Drain G s i now now' = (res, s')" by fastforce
  from inv obtain g where g: "gov s = Some g" "ginv g" "\<And>k. map_option fst (quota g k) = rows k" and wf: "store_wf s"
    and sbs: "\<And>i sb. sandboxes s i = Some sb \<Longrightarrow> sb_Phase sb \<noteq> PhaseDeleted \<and> rows (bucket (sb_TenantID sb) (sb_OwnerID sb)) \<noteq> None"
    by (auto simp: plane_inv_def)
  have wf': "store_wf s'" using wf_Drain [OF wf, of G i now now'] d by simp
  from wf d have "plane_inv bucket quota ginv rows s'"
  proof (cases rule: Drain_effect)
    case (failed sb g0 g' err)
    with g have r: "ReleaseAllocation G g (sb_TenantID sb) (sb_OwnerID sb) (sb_AllocationID sb) now = (Some err, g')" by simp
    with release_err [OF g(2) r] release_ginv [OF g(2)] have "quota g' = quota g" "ginv g'" by (blast, metis snd_conv)
    with failed(6) g(3) wf' sbs show ?thesis by (auto simp: plane_inv_def)
  next
    case (ok sb al g1)
    from ok(10) [OF g(1)] obtain g' where g': "g1 = Some g'"
      and r: "ReleaseAllocation G g (sb_TenantID sb) (sb_OwnerID sb) (sb_AllocationID sb) now = (None, g')" by blast
    have "map_option fst (quota g' k) = rows k" for k using release_ok [OF g(2) r] g(3) [of k] by auto
    moreover have "ginv g'" using release_ginv [OF g(2)] r by (metis snd_conv)
    ultimately show ?thesis
      using wf' sbs ok(1) by (auto simp: plane_inv_def ok(8) g' drained_def draining_def split: if_splits)
  qed (use inv in simp_all)
  with d show ?thesis by simp
qed

lemma plane_inv_serve: "serve_step G enc s s' \<Longrightarrow> plane_inv bucket quota ginv rows s \<Longrightarrow> plane_inv bucket quota ginv rows s'"
proof (induction rule: serve_step.induct)
  case (serve s r now now' resp s')
  from serve(2) show ?case
    by (cases rule: Handler_calls) (use serve plane_inv_Create plane_inv_Drain in auto)
qed

lemma plane_inv_serves: "serve_steps G enc s s' \<Longrightarrow> plane_inv bucket quota ginv rows s \<Longrightarrow> plane_inv bucket quota ginv rows s'"
  by (induction rule: rtranclp_induct) (auto intro: plane_inv_serve)

end

section \<open>The control plane of kubebox\<close>

abbreviation dev_row :: string where
  "dev_row \<equiv> nul_key ''default'' ''local-dev''"

abbreviation kubebox_inv :: "MemoryGovernanceStore Store \<Rightarrow> bool" where
  "kubebox_inv s \<equiv> plane_inv nul_key mem_quota mem_inv [dev_row \<mapsto> 50] s \<and> (\<exists>m. mem_inv m \<and> governed nul_key mem_quota mem_ledger s m)"

lemma kubebox_start:
  assumes "kubebox_main E parse d os getenv = Inr (addr, Inl s0)"
  obtains s where "NewStoreWithGovernance (Some NewMemoryGovernanceStore) = Some s"
    "Store_SetQuota memory_governance s ''default'' ''local-dev'' 50 = (None, s0)"
proof -
  from assms have "kubebox_store memory_governance NewMemoryGovernanceStore = Inr s0"
    by (auto simp: kubebox_main_def openGovernanceStore_def Let_def map_sum_def split: sum.splits if_splits)
  then show thesis using that by (auto simp: kubebox_store_def split: option.splits prod.splits)
qed

lemma kubebox_inv_start:
  assumes "kubebox_main E parse d os getenv = Inr (addr, Inl s0)"
  shows "kubebox_inv s0"
proof -
  from assms obtain s where s: "NewStoreWithGovernance (Some NewMemoryGovernanceStore) = Some s"
    "Store_SetQuota memory_governance s ''default'' ''local-dev'' 50 = (None, s0)" by (rule kubebox_start)
  have step: "store_step memory_governance s s0" using step_SetQuota [of memory_governance s "''default''" "''local-dev''" 50] s(2) by simp
  have inv: "store_inv s" using s(1) by (rule store_inv_NewStoreWithGovernance)
  have "governed nul_key mem_quota mem_ledger s NewMemoryGovernanceStore"
    using s(1) by (rule mg.governed_start) (simp add: mem_quota_def NewMemoryGovernanceStore_def)
  with mg.governed_step [OF step _ mem_inv_New] inv have gv: "\<exists>m. mem_inv m \<and> governed nul_key mem_quota mem_ledger s0 m" by (simp add: store_inv_def)
  then obtain m where m: "mem_inv m" "gov s0 = Some m" by (auto simp: governed_def)
  have "sandboxes s0 = Map.empty" and "\<And>k. map_option fst (mem_quota m k) = [dev_row \<mapsto> 50] k"
    using s m(2)
    by (auto simp: NewStoreWithGovernance_def Store_SetQuota_def memory_governance_def mem_SetQuota_def NewMemoryGovernanceStore_def
        mem_quota_def nul_key_def Let_def)
  moreover have "store_wf s0" using wf_step [OF step] inv by (simp add: store_inv_def)
  ultimately show ?thesis using m gv by (auto simp: plane_inv_def)
qed

lemma kubebox_inv_serves:
  assumes "kubebox_main E parse d os getenv = Inr (addr, Inl s0)" and "serve_steps memory_governance enc s0 s"
  shows "kubebox_inv s"
proof -
  have inv: "kubebox_inv s0" using assms(1) by (rule kubebox_inv_start)
  then have "store_wf s0" by (simp add: plane_inv_def)
  with mg.governed_steps [OF serve_store_steps [OF assms(2)]] inv have "\<exists>m. mem_inv m \<and> governed nul_key mem_quota mem_ledger s m" by blast
  with mg.plane_inv_serves [OF assms(2)] inv show ?thesis by blast
qed

lemma dev_row_only: "nul_key t w = dev_row \<longleftrightarrow> t = ''default'' \<and> w = ''local-dev''"
proof
  assume eq: "nul_key t w = dev_row"
  have no: "NUL \<notin> set ''local-dev''" by (simp add: NUL_def)
  have "NUL \<notin> set w"
  proof
    assume "NUL \<in> set w"
    then have "2 \<le> length (filter (\<lambda>ch. ch = NUL) (nul_key t w))"
      using filter_False [of w] by (cases "filter (\<lambda>ch. ch = NUL) w") (auto simp: nul_key_def filter_empty_conv)
    moreover have "length (filter (\<lambda>ch. ch = NUL) dev_row) = 1" by (simp add: nul_key_def NUL_def)
    ultimately show False using eq by simp
  qed
  from nul_key_inject [OF this no, of t "''default''"] eq show "t = ''default'' \<and> w = ''local-dev''" unfolding nul_key_def by blast
qed simp

lemma kubebox_owner:
  assumes "kubebox_inv s" and "sandboxes s i = Some sb"
  shows "sb_TenantID sb = ''default'' \<and> sb_OwnerID sb = ''local-dev'' \<and> sb_Phase sb \<noteq> PhaseDeleted"
proof -
  have "[dev_row \<mapsto> (50 :: int)] (nul_key (sb_TenantID sb) (sb_OwnerID sb)) \<noteq> None" "sb_Phase sb \<noteq> PhaseDeleted"
    using assms unfolding plane_inv_def by blast+
  then show ?thesis using dev_row_only by (auto split: if_splits)
qed

lemma finite_sandboxes: "store_wf s \<Longrightarrow> finite (dom (sandboxes s))"
  by (rule finite_subset [of _ "range sandboxName"]) (auto dest!: wf_sandbox simp: sandbox_entry_ok_def)

text \<open>What the boundary of the control plane has for an owner.\<close>

abbreviation ready_ids :: "'g Store \<Rightarrow> string set" where
  "ready_ids s \<equiv> {i. \<exists>sb. sandboxes s i = Some sb \<and> sb_Phase sb = PhaseReady}"

lemma kubebox_quota:
  assumes inv: "kubebox_inv s"
  obtains m where "gov s = Some m" "mem_inv m"
    "\<forall>t w. mem_quota m (nul_key t w) = (if t = ''default'' \<and> w = ''local-dev'' then Some (50, int (card (ready_ids s))) else None)"
proof -
  from inv have wf: "store_wf s" by (simp add: plane_inv_def)
  from inv obtain m where m: "mem_inv m" "governed nul_key mem_quota mem_ledger s m" by blast
  from inv obtain g where g: "gov s = Some g" "\<forall>k. map_option fst (mem_quota g k) = [dev_row \<mapsto> 50] k" unfolding plane_inv_def by blast
  have gm: "g = m" using g(1) m(2) by (simp add: governed_def)
  with g(2) have "map_option fst (mem_quota m dev_row) = Some 50" by (metis fun_upd_same)
  then obtain c where q: "mem_quota m dev_row = Some (50, c)" by auto
  have "ready_ids s = ready_of s (\<lambda>t w. nul_key t w = dev_row)"
    using kubebox_owner [OF inv] by (auto simp: ready_of_def)
  moreover have "int (card (live_of s (\<lambda>al. nul_key (a_TenantID al) (a_OwnerID al) = dev_row))) = c"
    using m(2) q by (simp add: governed_def)
  ultimately have c: "int (card (ready_ids s)) = c"
    using card_live_ready [OF wf, of "\<lambda>t w. nul_key t w = dev_row"] by simp
  have "mem_quota m (nul_key t w) = (if t = ''default'' \<and> w = ''local-dev'' then Some (50, int (card (ready_ids s))) else None)" for t w
  proof (cases "nul_key t w = dev_row")
    case True
    with q c show ?thesis unfolding dev_row_only [symmetric] by simp
  next
    case False
    then have "map_option fst (mem_quota m (nul_key t w)) = None" using g(2) gm by (metis fun_upd_other)
    with False show ?thesis unfolding dev_row_only [symmetric] by simp
  qed
  with g(1) gm m(1) show thesis by (intro that [of m]) blast+
qed

section \<open>Requests for one sandbox\<close>

lemma plain_sandboxName: "proper (sandboxName n)" "CHR ''%'' \<notin> set (sandboxName n)"
proof -
  have "CHR ''/'' \<notin> set (itoa m)" "CHR ''%'' \<notin> set (itoa m)" for m
    using itoa_digits [of "CHR ''/''" m] itoa_digits [of "CHR ''%''" m] by auto
  then show "proper (sandboxName n)" "CHR ''%'' \<notin> set (sandboxName n)" by (auto simp: proper_def sandboxName_def pad08_def)
qed

lemma instance_dispatch:
  assumes "proper i" and "CHR ''%'' \<notin> set i" and "rq_EscapedPath r = ''/api/v1/sandboxes/'' @ i"
  shows "ServeMux sandbox_patterns r = Dispatch ''/api/v1/sandboxes/''"
proof -
  define path where "path = ''/api/v1/sandboxes/'' @ i"
  have "path = abs_path [''api'', ''v1'', ''sandboxes'', i]" by (simp add: path_def abs_path_def)
  moreover have "list_all proper [''api'', ''v1'', ''sandboxes'', i]" using assms(1) by (simp add: proper_def)
  ultimately have clean: "Clean path = path" using Clean_abs_path by metis
  have "last path \<noteq> CHR ''/''" using assms(1) by (auto simp: path_def proper_def dest: last_in_set)
  moreover have "path \<noteq> []" "hd path = CHR ''/''" by (simp_all add: path_def)
  ultimately have "cleanPath path = path" using clean by (simp add: cleanPath_def)
  moreover have "mux_match sandbox_patterns path = Some ''/api/v1/sandboxes/''"
  proof -
    have "path = concat (map ((#) (CHR ''/'')) [''api'', ''v1'', ''sandboxes'', i])" by (simp add: path_def)
    moreover have "\<forall>c \<in> set [''api'', ''v1'', ''sandboxes'', i]. c \<noteq> [] \<and> CHR ''/'' \<notin> set c \<and> CHR ''%'' \<notin> set c"
      using assms(1,2) by (simp add: proper_def)
    ultimately have seg: "mux_segments path = [''api'', ''v1'', ''sandboxes'', i]" using mux_segments_plain by metis
    have pats: "mux_segments ''/healthz'' = [''healthz'']" "mux_segments ''/api/v1/sandboxes'' = [''api'', ''v1'', ''sandboxes'']"
      "mux_segments ''/api/v1/sandboxes/'' = [''api'', ''v1'', ''sandboxes'', ''/'']" by code_simp+
    show ?thesis by (simp add: mux_match_def mux_matches_def sandbox_patterns_def seg pats)
  qed
  moreover have "rq_EscapedPath r = path" unfolding path_def by (rule assms(3))
  ultimately show ?thesis by (simp add: ServeMux_def)
qed

text \<open>A request for a sandbox by its identifier, as a client writes it.\<close>

definition for_sandbox :: "string \<Rightarrow> string \<Rightarrow> Request \<Rightarrow> bool" where
  "for_sandbox m i r \<longleftrightarrow> rq_Method r = m \<and> rq_Path r = ''/api/v1/sandboxes/'' @ i \<and> rq_EscapedPath r = rq_Path r"

lemma Handler_instance:
  assumes "for_sandbox m i r" and "proper i" and "CHR ''%'' \<notin> set i"
  shows "sandbox_Handler G enc s r now now' =
    (if m = ''GET'' then
       (case Store_Get s i of Inl err \<Rightarrow> (Served (writeStoreError err), s) | Inr sb \<Rightarrow> (Served (writeJSON StatusOK (json_Sandbox enc sb)), s))
     else if m = ''DELETE'' then
       (case Drain G s i now now' of
          (Inl err, s') \<Rightarrow> (Served (writeStoreError err), s')
        | (Inr sb, s') \<Rightarrow> (Served (writeJSON StatusAccepted (json_Sandbox enc sb)), s'))
     else (Served (jsonError StatusMethodNotAllowed ''method not allowed''), s))"
proof -
  have "ServeMux sandbox_patterns r = Dispatch ''/api/v1/sandboxes/''"
    using assms by (intro instance_dispatch [of i]) (simp_all add: for_sandbox_def)
  moreover have "TrimPrefix (rq_Path r) ''/api/v1/sandboxes/'' = i"
    using TrimPrefix_append assms(1) unfolding for_sandbox_def by metis
  moreover have "i \<noteq> []" "\<not> Contains i ''/''" using assms(2) Contains_single [of i "CHR ''/''"] by (simp_all add: proper_def)
  moreover have "rq_Method r = m" using assms(1) by (simp add: for_sandbox_def)
  ultimately show ?thesis
    by (simp add: sandbox_Handler_def http_instance_def Let_def split: sum.split prod.split)
qed

lemma mem_release_succeeds:
  assumes "t \<noteq> []" and "w \<noteq> []" and "a \<noteq> []" and "mem_quota m (nul_key t w) = Some (l, c)" and "0 < c"
    and "mem_ledger m a = Some ''RESERVED''"
  shows "fst (mem_ReleaseAllocation m t w a now) = None"
  using assms
  by (cases "m_quotas m (nul_key t w)"; cases "m_allocations m a")
    (simp_all add: mem_ReleaseAllocation_def mem_quota_def mem_ledger_def nul_key_def)

text \<open>In the control plane a ready sandbox can be drained: the boundary has its allocation.\<close>

lemma kubebox_Drain:
  assumes "kubebox_inv s" and "sandboxes s i = Some sb"
  shows "\<exists>sb' s'. Drain memory_governance s i now now' = (Inr sb', s') \<and> same_identity sb sb' \<and> sb_Phase sb' = PhaseDraining"
proof -
  obtain res s' where d: "Drain memory_governance s i now now' = (res, s')" by fastforce
  from assms(1) obtain m where gv: "governed nul_key mem_quota mem_ledger s m" and wf: "store_wf s" by (auto simp: plane_inv_def)
  note own = kubebox_owner [OF assms]
  from wf d show ?thesis
  proof (cases rule: Drain_effect)
    case same
    with d assms(2) own show ?thesis by auto
  next
    case (corrupt sb1)
    with gv show ?thesis by (simp add: governed_def)
  next
    case (failed sb1 g g' err)
    from wf_sandbox_alloc [OF wf failed(1)] failed(2) obtain al where al: "allocations s (sb_AllocationID sb1) = Some al"
      "a_Status al = AllocationReserved" "a_TenantID al = sb_TenantID sb1" "a_OwnerID al = sb_OwnerID sb1" by metis
    have g: "g = m" using failed(3) gv by (simp add: governed_def)
    have led: "mem_ledger m (sb_AllocationID sb1) = Some ''RESERVED''" using gv al(1,2) by (auto simp: governed_def status_text_def)
    let ?k = "nul_key (sb_TenantID sb1) (sb_OwnerID sb1)"
    have "sb_AllocationID sb1 \<in> live_of s (\<lambda>al. nul_key (a_TenantID al) (a_OwnerID al) = ?k)" using al by (simp add: live_of_def)
    with live_of_finite [OF wf] have "0 < card (live_of s (\<lambda>al. nul_key (a_TenantID al) (a_OwnerID al) = ?k))" by (auto simp: card_gt_0_iff)
    moreover have "int (card (live_of s (\<lambda>al. nul_key (a_TenantID al) (a_OwnerID al) = ?k))) =
        (case mem_quota m ?k of None \<Rightarrow> 0 | Some (l, c) \<Rightarrow> c)" using gv unfolding governed_def by blast
    ultimately have "0 < (case mem_quota m ?k of None \<Rightarrow> 0 | Some (l, c) \<Rightarrow> c)" by linarith
    then obtain l c where "mem_quota m ?k = Some (l, c)" "0 < c" by (auto split: option.splits)
    moreover have "sb1 = sb" using failed(1) assms(2) by simp
    moreover have "sb_AllocationID sb \<noteq> []" using wf_sandbox [OF wf assms(2)] by (auto simp: sandbox_entry_ok_def allocationName_def)
    ultimately have "fst (mem_ReleaseAllocation m (sb_TenantID sb1) (sb_OwnerID sb1) (sb_AllocationID sb1) now) = None"
      using led own by (intro mem_release_succeeds [of _ _ _ m l c]) simp_all
    with failed(4) g show ?thesis by (simp add: memory_governance_def)
  next
    case (ok sb1 al g)
    with d assms(2) show ?thesis by (auto simp: draining_def same_identity_def)
  qed
qed

section \<open>Creations\<close>

lemma created_response:
  assumes "sandbox_Handler G enc s r now now' = (Served resp, s')" and "rs_Status resp = 201"
  obtains req sb where "ServeMux sandbox_patterns r = Dispatch ''/api/v1/sandboxes''" "rq_Method r = ''POST''"
    "decodeCreate (rq_Body r) = Some req" "resp = writeJSON StatusCreated (json_Sandbox enc sb)"
    "Create G s (Header_Get (rq_Header r) ''X-Owner-ID'') (Header_Get (rq_Header r) ''Idempotency-Key'') req now = (Inr sb, s')"
proof -
  have st: "error_status err \<noteq> 201" for err by (cases err) (simp_all add: error_status_def status_defs)
  from assms(1) show thesis
  proof (cases rule: sandbox_Handler_Served)
    case 1
    with assms(2) show thesis by (simp add: http_health_def status_defs)
  next
    case 2
    with assms(2) st have "\<exists>req sb. rq_Method r = ''POST'' \<and> decodeCreate (rq_Body r) = Some req \<and>
        resp = writeJSON StatusCreated (json_Sandbox enc sb) \<and>
        Create G s (Header_Get (rq_Header r) ''X-Owner-ID'') (Header_Get (rq_Header r) ''Idempotency-Key'') req now = (Inr sb, s')"
      by (auto simp: http_create_def writeStoreError_def status_defs Let_def split: if_splits option.splits prod.splits sum.splits)
    with 2 that show thesis by blast
  next
    case 3
    with assms(2) st show thesis
      by (auto simp: http_instance_def writeStoreError_def status_defs Let_def split: if_splits prod.splits sum.splits)
  qed
qed

lemma Create_returned:
  assumes "store_wf s" and "sequence s \<noteq> - 1" and "Create G s w k req now = (Inr sb, s')"
  shows "sandboxes s' (sb_ID sb) = Some sb" and "\<exists>n. sb_ID sb = sandboxName n"
    and "withDefaults req' = withDefaults req \<Longrightarrow> Create G s' w k req' t = (Inr sb, s')"
proof -
  from Create_Inr_record [OF assms(3)] obtain r where v: "valid_create w k req"
    and r: "idempotency s' (idem_key req k) = Some r" "i_Status r = IdempotencySucceeded"
      "i_RequestHash r = requestHash (withDefaults req)" "i_OwnerID r = w" "sandboxes s' (i_ResourceID r) = Some sb" by auto
  have wf: "store_wf s'" using wf_Create [OF assms(1,2), of G w k req now] assms(3) by simp
  from wf_sandbox [OF wf r(5)] obtain n where n: "i_ResourceID r = sandboxName n" "sb_ID sb = i_ResourceID r" by (auto simp: sandbox_entry_ok_def)
  with r(5) show "sandboxes s' (sb_ID sb) = Some sb" "\<exists>n. sb_ID sb = sandboxName n" by auto
  show "Create G s' w k req' t = (Inr sb, s')" if "withDefaults req' = withDefaults req"
    using Create_repeat [OF r(1)] v r same_defaults [OF that] that by simp
qed

section \<open>The answer to a request\<close>

text \<open>
  The status the control plane owes a request, from what it holds: a key in use answers for
  its own request and conflicts with any other, a new one needs the owner with the quota and
  one of its 50 slots.
\<close>

definition create_status :: "'g Store \<Rightarrow> string \<Rightarrow> string \<Rightarrow> CreateRequest \<Rightarrow> int" where
  "create_status s owner key req =
     (if owner = [] \<or> key = [] \<or> r_TenantID req = [] \<or> r_Template req = [] then 400
      else (case idempotency s (r_TenantID req @ NUL # key) of
              Some prior \<Rightarrow> if i_RequestHash prior = requestHash (withDefaults req) \<and> i_OwnerID prior = owner then 201 else 409
            | None \<Rightarrow>
                if r_TenantID req \<noteq> ''default'' \<or> owner \<noteq> ''local-dev'' then 500
                else if 50 \<le> card (ready_ids s) then 429
                else 201))"

definition answer_status :: "'g Store \<Rightarrow> Request \<Rightarrow> string \<Rightarrow> int" where
  "answer_status s r pattern =
     (if pattern = ''/healthz'' then 200
      else if pattern = ''/api/v1/sandboxes'' then
        if rq_Method r \<noteq> ''POST'' then 405
        else (case decodeCreate (rq_Body r) of
                None \<Rightarrow> 400
              | Some req \<Rightarrow> create_status s (Header_Get (rq_Header r) ''X-Owner-ID'') (Header_Get (rq_Header r) ''Idempotency-Key'') req)
      else
        let i = TrimPrefix (rq_Path r) ''/api/v1/sandboxes/'' in
        if i = [] \<or> CHR ''/'' \<in> set i then 404
        else if rq_Method r \<notin> {''GET'', ''DELETE''} then 405
        else if sandboxes s i = None then 404
        else if rq_Method r = ''GET'' then 200 else 202)"

lemma mem_reserve_outcome:
  assumes "t \<noteq> []" and "w \<noteq> []" and "a \<noteq> []" and "sb \<noteq> []"
  shows "fst (mem_ReserveAllocation m t w a sb now) =
    (case mem_quota m (nul_key t w) of
       None \<Rightarrow> Some persistence_error.ErrQuotaNotConfigured
     | Some (l, c) \<Rightarrow> if l \<le> c then Some persistence_error.ErrQuotaExceeded else None)"
  using assms by (simp add: mem_ReserveAllocation_def mem_quota_def nul_key_def Let_def split: option.split)

lemma kubebox_Create:
  assumes inv: "kubebox_inv s" and c: "Create memory_governance s w k req now = (res, s')"
  shows "(case res of Inl err \<Rightarrow> error_status err | Inr _ \<Rightarrow> 201) = create_status s w k req \<and> (is_ok res \<or> sandboxes s' = sandboxes s)"
proof -
  from inv have wf: "store_wf s" by (simp add: plane_inv_def)
  from inv obtain m where m: "gov s = Some m" "mem_inv m" "\<forall>t w. mem_quota m (nul_key t w) =
      (if t = ''default'' \<and> w = ''local-dev'' then Some (50, int (card (ready_ids s))) else None)" by (rule kubebox_quota)
  show ?thesis
  proof (cases "valid_create w k req")
    case False
    with c have "res = Inl ErrInvalidRequest" "s' = s" by (simp_all add: Create_invalid)
    with False show ?thesis by (auto simp: create_status_def valid_create_def error_status_def status_defs)
  next
    case v: True
    show ?thesis
    proof (cases "idempotency s (idem_key req k)")
      case (Some prior)
      from wf_idem [OF wf Some] m(1) have st: "i_Status prior = IdempotencySucceeded" "sandboxes s (i_ResourceID prior) \<noteq> None"
        by (cases "i_Status prior"; auto simp: idem_entry_ok_def)+
      with c Some v show ?thesis
        by (auto simp: Create_prior create_status_def valid_create_def error_status_def status_defs split: if_splits)
    next
      case None
      let ?R = "mem_ReserveAllocation m (r_TenantID req) w (allocationName (sequence s + 1)) (sandboxName (sequence s + 1)) now"
      have out: "fst ?R = (if r_TenantID req \<noteq> ''default'' \<or> w \<noteq> ''local-dev'' then Some persistence_error.ErrQuotaNotConfigured
          else if 50 \<le> card (ready_ids s) then Some persistence_error.ErrQuotaExceeded else None)"
        using v by (subst mem_reserve_outcome) (auto simp: valid_create_def allocationName_def sandboxName_def m(3))
      have "res = (case fst ?R of Some err \<Rightarrow> Inl (mapGovError err) | None \<Rightarrow> Inr (new_sandbox (sequence s + 1) w k req now))"
        "fst ?R \<noteq> None \<Longrightarrow> sandboxes s' = sandboxes s"
        using c v None m(1) by (auto simp: Create_fresh reserveSlot_def begin_create_def memory_governance_def Let_def split: prod.splits option.splits)
      with out v None show ?thesis
        by (auto simp: create_status_def valid_create_def error_status_def status_defs mapGovError_def split: if_splits)
    qed
  qed
qed

lemma kubebox_instance:
  assumes inv: "kubebox_inv s" and h: "http_instance memory_governance enc s r now now' = (resp, s')"
  shows "rs_Status resp = answer_status s r ''/api/v1/sandboxes/'' \<and> (rs_Status resp = 202 \<or> sandboxes s' = sandboxes s)"
proof -
  define i where "i = TrimPrefix (rq_Path r) ''/api/v1/sandboxes/''"
  have sl: "Contains i ''/'' \<longleftrightarrow> CHR ''/'' \<in> set i" by (rule Contains_single)
  have get: "Store_Get s i = (case sandboxes s i of None \<Rightarrow> Inl ErrNotFound | Some sb \<Rightarrow> Inr sb)"
    using kubebox_owner [OF inv, of i] by (auto simp: Store_Get_def split: option.split)
  obtain res s1 where d: "Drain memory_governance s i now now' = (res, s1)" by fastforce
  have none: "res = Inl ErrNotFound \<and> s1 = s" if "sandboxes s i = None" using d that by (simp add: Drain_def)
  have some: "is_ok res" if "sandboxes s i = Some sb" for sb using kubebox_Drain [OF inv that, of now now'] d by auto
  show ?thesis
    using h none some d get
    unfolding http_instance_def i_def [symmetric] answer_status_def Let_def sl
    by (cases "sandboxes s i"; cases res) (auto simp: writeStoreError_def error_status_def status_defs split: if_splits)
qed

section \<open>An example\<close>

definition demo_plane :: "MemoryGovernanceStore Store" where
  "demo_plane = snd (Store_SetQuota memory_governance demo_governed_start ''default'' ''local-dev'' 50)"

definition demo_dev_request :: Request where
  "demo_dev_request =
     \<lparr>rq_Method = ''POST'', rq_Path = ''/api/v1/sandboxes'', rq_EscapedPath = ''/api/v1/sandboxes'', rq_RawQuery = [], rq_Query = Map.empty,
      rq_Header = [''X-Owner-Id'' \<mapsto> [''local-dev''], ''Idempotency-Key'' \<mapsto> [''k1'']],
      rq_Body = json_object [(''tenantId'', json_string ''default''), (''template'', json_string ''python'')], rq_BodyErr = False, rq_ClientIP = None\<rparr>"

abbreviation demo_dev_create :: CreateRequest where
  "demo_dev_create \<equiv> \<lparr>r_TenantID = ''default'', r_Template = ''python'', r_RuntimeClass = [], r_TTLSeconds = 0, r_Resources = None\<rparr>"

lemma demo_plane_start: "kubebox_main sure_db (\<lambda>_. None) empty_db [] (\<lambda>_. []) = Inr ('':8080'', Inl demo_plane)"
  by (simp add: kubebox_main_def openGovernanceStore_def kubebox_store_def demo_plane_def demo_governed_start_def NewStoreWithGovernance_def
      Store_SetQuota_def memory_governance_def mem_SetQuota_def NewMemoryGovernanceStore_def Let_def)

lemma demo_plane_sequence: "sequence demo_plane = 0"
  by (simp add: demo_plane_def demo_governed_start_def NewStoreWithGovernance_def Store_SetQuota_def memory_governance_def mem_SetQuota_def
      NewMemoryGovernanceStore_def Let_def)

lemma demo_plane_create:
  "fst (Create memory_governance demo_plane ''local-dev'' ''k1'' demo_dev_create 100) = Inr (new_sandbox 1 ''local-dev'' ''k1'' demo_dev_create 100)"
  unfolding demo_plane_def demo_governed_start_def
  by (simp add: NewStoreWithGovernance_def Store_SetQuota_def mem_SetQuota_def NewMemoryGovernanceStore_def memory_governance_def
      Create_fresh reserveSlot_def begin_create_def commit_create_def mem_ReserveAllocation_def
      quotaKey_def Let_def valid_create_def allocationName_def sandboxName_def)

lemma demo_plane_serves:
  "\<exists>resp s. sandbox_Handler memory_governance (\<lambda>_. []) demo_plane demo_dev_request 100 100 = (Served resp, s) \<and> rs_Status resp = 201"
proof -
  have dec: "decodeCreate (rq_Body demo_dev_request) = Some demo_dev_create" unfolding demo_dev_request_def by code_simp
  have hd: "Header_Get (rq_Header demo_dev_request) ''X-Owner-ID'' = ''local-dev''"
    "Header_Get (rq_Header demo_dev_request) ''Idempotency-Key'' = ''k1''" "rq_Method demo_dev_request = ''POST''"
    by (simp_all add: demo_dev_request_def Header_Get_def Header_Values_def canonical_consts)
  have "cleanPath ''/api/v1/sandboxes'' = ''/api/v1/sandboxes''" "mux_match sandbox_patterns ''/api/v1/sandboxes'' = Some ''/api/v1/sandboxes''"
    by code_simp+
  then have "ServeMux sandbox_patterns demo_dev_request = Dispatch ''/api/v1/sandboxes''" by (simp add: ServeMux_def demo_dev_request_def)
  with dec hd demo_plane_create show ?thesis
    by (cases "Create memory_governance demo_plane ''local-dev'' ''k1'' demo_dev_create 100")
      (simp add: sandbox_Handler_def http_create_def status_defs)
qed

section \<open>Claims\<close>

text \<open>
  C3. The running control plane keeps to its quota: started without a database, whatever
  requests it serves, every sandbox it has belongs to the owner \<open>local-dev\<close> of the tenant
  \<open>default\<close>, for whom the limit of 50 was set at the start, and at most 50 of them are
  ready at any time.
\<close>

theorem control_plane_limit:
  assumes "kubebox_main E parse d os getenv = Inr (addr, Inl s0)" and "serve_steps memory_governance enc s0 s"
  shows "finite (dom (sandboxes s)) \<and>
    (\<forall>i sb. sandboxes s i = Some sb \<longrightarrow> sb_TenantID sb = ''default'' \<and> sb_OwnerID sb = ''local-dev'') \<and>
    card {i. \<exists>sb. sandboxes s i = Some sb \<and> sb_Phase sb = PhaseReady} \<le> 50"
proof -
  have inv: "kubebox_inv s" using assms by (rule kubebox_inv_serves)
  then have wf: "store_wf s" by (simp add: plane_inv_def)
  from inv obtain m where m: "mem_inv m" "\<forall>t w. mem_quota m (nul_key t w) =
      (if t = ''default'' \<and> w = ''local-dev'' then Some (50, int (card (ready_ids s))) else None)" by (rule kubebox_quota)
  then have "mem_quota m dev_row = Some (50, int (card (ready_ids s)))" by simp
  from mg.within_limit [OF m(1) this] have "card (ready_ids s) \<le> 50" by linarith
  with finite_sandboxes [OF wf] kubebox_owner [OF inv] show ?thesis by blast
qed

theorem control_plane_limit_witness:
  "\<exists>s i sb. serve_steps memory_governance (\<lambda>_. []) demo_plane s \<and> sandboxes s i = Some sb \<and> sb_OwnerID sb = ''local-dev'' \<and>
     card {i. \<exists>sb. sandboxes s i = Some sb \<and> sb_Phase sb = PhaseReady} \<le> 50"
proof -
  from demo_plane_serves obtain resp s where
    h: "sandbox_Handler memory_governance (\<lambda>_. []) demo_plane demo_dev_request 100 100 = (Served resp, s)" "rs_Status resp = 201" by blast
  have seq: "sequence demo_plane \<noteq> - 1" by (simp add: demo_plane_sequence)
  from h obtain w k req sb where c: "Create memory_governance demo_plane w k req 100 = (Inr sb, s)" by (rule created_response)
  have "store_wf demo_plane" using kubebox_inv_start [OF demo_plane_start] by (simp add: plane_inv_def)
  from Create_returned(1) [OF this seq c] have sb: "sandboxes s (sb_ID sb) = Some sb" .
  have steps: "serve_steps memory_governance (\<lambda>_. []) demo_plane s" using serve [OF seq h(1)] by auto
  from control_plane_limit [OF demo_plane_start steps] sb steps show ?thesis by blast
qed

text \<open>
  C37. What the running control plane answers, without a database and whatever it has served
  before: a path that is not clean is redirected to the clean one, an unknown one not found,
  both without an effect; every other request gets exactly the status that \<open>answer_status\<close> gives for
  what the control plane holds. In particular 201 for a creation that fits and for its
  repetition, 409 for a key in use with another request or owner, 429 when 50 sandboxes are ready,
  404 for an unknown sandbox, and 500 for a creation by an owner without a quota. Any answer but
  201 and 202 leaves the sandboxes as they are.
\<close>

theorem kubebox_http_answers:
  assumes "kubebox_main E parse d os getenv = Inr (addr, Inl s0)" and "serve_steps memory_governance enc s0 s"
    and "sandbox_Handler memory_governance enc s r now now' = (out, s')"
  shows "case out of
      MovedPermanently p \<Rightarrow> p = cleanPath (rq_EscapedPath r) \<and> p \<noteq> rq_EscapedPath r \<and> s' = s
    | PageNotFound \<Rightarrow> mux_match sandbox_patterns (rq_EscapedPath r) = None \<and> s' = s
    | Served resp \<Rightarrow> \<exists>pattern. mux_match sandbox_patterns (rq_EscapedPath r) = Some pattern \<and>
        rs_Status resp = answer_status s r pattern \<and> (rs_Status resp \<notin> {201, 202} \<longrightarrow> sandboxes s' = sandboxes s)"
proof (cases out)
  case (MovedPermanently p)
  with assms(3) show ?thesis
    by (auto simp: sandbox_Handler_def ServeMux_def Let_def map_prod_def split: mux_result.splits prod.splits if_splits option.splits)
next
  case PageNotFound
  with assms(3) show ?thesis
    by (auto simp: sandbox_Handler_def ServeMux_def Let_def map_prod_def split: mux_result.splits prod.splits if_splits option.splits)
next
  case (Served resp)
  have inv: "kubebox_inv s" using assms(1,2) by (rule kubebox_inv_serves)
  have mux: "mux_match sandbox_patterns (rq_EscapedPath r) = Some p" if "ServeMux sandbox_patterns r = Dispatch p" for p
    using that by (auto simp: ServeMux_def Let_def split: if_splits option.splits)
  from assms(3) [unfolded Served] show ?thesis
  proof (cases rule: sandbox_Handler_Served)
    case 1
    with Served mux assms(3) show ?thesis by (auto simp: http_health_def answer_status_def status_defs sandbox_Handler_def)
  next
    case 2
    have "rs_Status resp = answer_status s r ''/api/v1/sandboxes'' \<and> (rs_Status resp \<noteq> 201 \<longrightarrow> sandboxes s' = sandboxes s)"
    proof (cases "rq_Method r = ''POST''")
      case True
      show ?thesis
      proof (cases "decodeCreate (rq_Body r)")
        case None
        with True 2(2) show ?thesis by (auto simp: http_create_def answer_status_def status_defs)
      next
        case (Some req)
        obtain res s1 where c: "Create memory_governance s (Header_Get (rq_Header r) ''X-Owner-ID'') (Header_Get (rq_Header r) ''Idempotency-Key'') req now = (res, s1)"
          by fastforce
        from kubebox_Create [OF inv c] True Some 2(2) c show ?thesis
          by (cases res) (auto simp: http_create_def answer_status_def writeStoreError_def status_defs)
      qed
    next
      case False
      with 2(2) show ?thesis by (auto simp: http_create_def answer_status_def status_defs)
    qed
    with Served mux [OF 2(1)] show ?thesis by auto
  next
    case 3
    with kubebox_instance [OF inv 3(2)] Served mux [OF 3(1)] show ?thesis by auto
  qed
qed

theorem kubebox_http_answers_witness:
  "\<exists>resp s. sandbox_Handler memory_governance (\<lambda>_. []) demo_plane
       (demo_dev_request\<lparr>rq_Header := [''X-Owner-Id'' \<mapsto> [''alice''], ''Idempotency-Key'' \<mapsto> [''k1'']]\<rparr>) 100 100 = (Served resp, s) \<and>
     rs_Status resp = 500 \<and> sandboxes s = sandboxes demo_plane"
proof -
  let ?r = "demo_dev_request\<lparr>rq_Header := [''X-Owner-Id'' \<mapsto> [''alice''], ''Idempotency-Key'' \<mapsto> [''k1'']]\<rparr>"
  obtain out s where h: "sandbox_Handler memory_governance (\<lambda>_. []) demo_plane ?r 100 100 = (out, s)" by fastforce
  have path: "rq_EscapedPath ?r = ''/api/v1/sandboxes''" "rq_Method ?r = ''POST''" by (simp_all add: demo_dev_request_def)
  have mux: "cleanPath ''/api/v1/sandboxes'' = ''/api/v1/sandboxes''" "mux_match sandbox_patterns ''/api/v1/sandboxes'' = Some ''/api/v1/sandboxes''"
    by code_simp+
  have dec: "decodeCreate (rq_Body ?r) = Some demo_dev_create" unfolding demo_dev_request_def by code_simp
  have "idempotency demo_plane = Map.empty"
    by (simp add: demo_plane_def demo_governed_start_def NewStoreWithGovernance_def Store_SetQuota_def memory_governance_def
        mem_SetQuota_def NewMemoryGovernanceStore_def Let_def)
  then have "answer_status demo_plane ?r ''/api/v1/sandboxes'' = 500"
    using dec path(2) by (simp add: answer_status_def create_status_def Header_Get_def Header_Values_def canonical_consts)
  with kubebox_http_answers [OF demo_plane_start rtranclp.rtrancl_refl h] path(1) mux h show ?thesis
    by (cases out) auto
qed

text \<open>
  C7. What the API creates it serves: when the running control plane answers a request with
  201, the sandbox of the response can be read at once under its identifier with the same
  body, the same request sent again gets the same response and changes nothing, and a
  deletion of it is accepted and answers with this sandbox draining.
\<close>

theorem http_sandbox_roundtrip:
  assumes "kubebox_main E parse d os getenv = Inr (addr, Inl s0)" and "serve_steps memory_governance enc s0 s" and "sequence s \<noteq> - 1"
    and "sandbox_Handler memory_governance enc s r now now' = (Served resp, s')" and "rs_Status resp = 201"
  shows "\<exists>sb. resp = writeJSON 201 (json_Sandbox enc sb) \<and>
    (for_sandbox ''GET'' (sb_ID sb) q \<longrightarrow>
       sandbox_Handler memory_governance enc s' q t t' = (Served (writeJSON 200 (json_Sandbox enc sb)), s')) \<and>
    sandbox_Handler memory_governance enc s' r t t' = (Served resp, s') \<and>
    (for_sandbox ''DELETE'' (sb_ID sb) q \<longrightarrow>
       (\<exists>sb' s''. sandbox_Handler memory_governance enc s' q t t' = (Served (writeJSON 202 (json_Sandbox enc sb')), s'') \<and>
          same_identity sb sb' \<and> sb_Phase sb' = PhaseDraining))"
proof -
  have inv: "kubebox_inv s" using assms(1,2) by (rule kubebox_inv_serves)
  have inv': "kubebox_inv s'" using assms(1) rtranclp.rtrancl_into_rtrancl [OF assms(2) serve [OF assms(3,4)]] by (rule kubebox_inv_serves)
  from assms(4,5) obtain req sb where f: "ServeMux sandbox_patterns r = Dispatch ''/api/v1/sandboxes''" "rq_Method r = ''POST''"
    "decodeCreate (rq_Body r) = Some req" "resp = writeJSON StatusCreated (json_Sandbox enc sb)"
    "Create memory_governance s (Header_Get (rq_Header r) ''X-Owner-ID'') (Header_Get (rq_Header r) ''Idempotency-Key'') req now = (Inr sb, s')"
    by (rule created_response)
  note c = Create_returned [OF _ assms(3) f(5)]
  have wf: "store_wf s" using inv by (simp add: plane_inv_def)
  have p: "proper (sb_ID sb)" "CHR ''%'' \<notin> set (sb_ID sb)" using c(2) [OF wf] plain_sandboxName by auto
  have "sb_Phase sb \<noteq> PhaseDeleted" using kubebox_owner [OF inv' c(1) [OF wf]] by blast
  with c(1) [OF wf] have get: "Store_Get s' (sb_ID sb) = Inr sb" by (simp add: Store_Get_def)
  have "sandbox_Handler memory_governance enc s' r t t' = (Served resp, s')"
    using f c(3) [OF wf refl, of t] by (simp add: sandbox_Handler_def http_create_def)
  moreover from kubebox_Drain [OF inv' c(1) [OF wf], of t t'] obtain sb' s'' where
    "Drain memory_governance s' (sb_ID sb) t t' = (Inr sb', s'')" "same_identity sb sb'" "sb_Phase sb' = PhaseDraining" by blast
  ultimately show ?thesis
    using f(4) get p by (intro exI [of _ sb]) (auto simp: Handler_instance status_defs)
qed

theorem http_sandbox_roundtrip_witness:
  "\<exists>resp s sb. sandbox_Handler memory_governance (\<lambda>_. []) demo_plane demo_dev_request 100 100 = (Served resp, s) \<and>
     resp = writeJSON 201 (json_Sandbox (\<lambda>_. []) sb) \<and>
     sandbox_Handler memory_governance (\<lambda>_. []) s demo_dev_request 200 200 = (Served resp, s)"
proof -
  from demo_plane_serves obtain resp s where
    h: "sandbox_Handler memory_governance (\<lambda>_. []) demo_plane demo_dev_request 100 100 = (Served resp, s)" "rs_Status resp = 201" by blast
  have "sequence demo_plane \<noteq> - 1" by (simp add: demo_plane_sequence)
  from http_sandbox_roundtrip [OF demo_plane_start rtranclp.rtrancl_refl this h, of demo_dev_request 200 200] h(1) show ?thesis by blast
qed

end
