(* ===== verification/Operator.thy ===== *)
theory Operator
  imports Go_Crypto "HOL-Library.Sublist"
begin

text \<open>
  The Kubernetes operator: \<open>internal/operator/reconciler.go\<close>, \<open>kube_client.go\<close>,
  \<open>controller.go\<close>, \<open>webhook.go\<close> and the types of \<open>internal/kubeapi\<close>.

  Everything outside the operator (the API server behind the controller-runtime client,
  the route registrar, the clock) is an argument, a record of answers. An answer may
  depend on the whole history of calls made before it, so that any environment is covered,
  other writers included; the operations extend the history.
\<close>

section \<open>Types of the API\<close>

type_synonym labels = "string \<rightharpoonup> string"

definition label :: "labels \<Rightarrow> string \<Rightarrow> string" where
  "label ls k = (case ls k of None \<Rightarrow> [] | Some v \<Rightarrow> v)"

record SandboxClaimSpec =
  ClassRef :: string
  SpecTemplate :: string
  SpecTTLSeconds :: int
  SpecDesiredState :: string
  SpecIdempotencyKey :: string

record SandboxClaimStatus =
  StatusPhase :: string
  SandboxRef :: string
  StatusProxyEndpoint :: string
  StatusAllocationID :: string
  StatusExpiresAt :: "time option"

record SandboxClaim =
  ObjNamespace :: string
  ObjName :: string
  ObjUID :: string
  ObjLabels :: labels
  Finalizers :: "string list"
  DeletionTimestamp :: "time option"
  Spec :: SandboxClaimSpec
  ObjStatus :: SandboxClaimStatus

record ConditionRec =
  cond_Type :: string
  cond_Status :: string

text \<open>The parts of a Kubernetes pod the operator writes or reads.\<close>

record SecurityContext =
  RunAsNonRoot :: bool
  ReadOnlyRootFilesystem :: bool
  AllowPrivilegeEscalation :: bool
  DropCapabilities :: "string list"

record OwnerReference =
  own_APIVersion :: string
  own_Kind :: string
  own_Name :: string
  own_UID :: string
  own_Controller :: bool
  own_BlockOwnerDeletion :: bool

record KubePod =
  kp_Namespace :: string
  kp_Name :: string
  kp_Labels :: labels
  kp_OwnerReferences :: "OwnerReference list"
  kp_RuntimeClassName :: "string option"
  kp_Image :: string
  kp_Command :: "string list"
  kp_Args :: "string list"
  kp_Env :: "(string \<times> string) list"
  kp_Ports :: "(string \<times> int) list"
  kp_EmptyDirMounts :: "(string \<times> string) list"
  kp_AutomountServiceAccountToken :: bool
  kp_PodRunAsNonRoot :: bool
  kp_SecurityContext :: SecurityContext
  kp_DeletionTimestamp :: "time option"
  kp_Conditions :: "ConditionRec list"
  kp_ContainerReady :: "bool list" \<comment> \<open>\<open>Ready\<close> of each container status\<close>
  kp_PodIP :: string

datatype kube_error = IsNotFound | IsAlreadyExists | KubeError string

section \<open>The environment\<close>

datatype event =
    EvPodGet string string
  | EvPodCreate KubePod
  | EvPodDelete string string
  | EvRegister string string
  | EvUnregister string
  | EvUpdate SandboxClaim
  | EvStatusUpdate SandboxClaim

record Env =
  env_GetClaim :: "event list \<Rightarrow> string \<Rightarrow> string \<Rightarrow> (kube_error, SandboxClaim) result"
  env_PodGet :: "event list \<Rightarrow> string \<Rightarrow> string \<Rightarrow> (kube_error, KubePod) result"
  env_PodCreate :: "event list \<Rightarrow> KubePod \<Rightarrow> kube_error option"
  env_PodDelete :: "event list \<Rightarrow> string \<Rightarrow> string \<Rightarrow> kube_error option"
  env_Register :: "event list \<Rightarrow> string \<Rightarrow> string \<Rightarrow> string option"
  env_Unregister :: "event list \<Rightarrow> string \<Rightarrow> string option"
  env_Update :: "event list \<Rightarrow> SandboxClaim \<Rightarrow> kube_error option"
  env_StatusUpdate :: "event list \<Rightarrow> SandboxClaim \<Rightarrow> kube_error option"
  env_Now :: "event list \<Rightarrow> time"

section \<open>The reconciler's pods\<close>

record Pod =
  pod_Namespace :: string
  pod_Name :: string
  pod_RuntimeClass :: string
  pod_SandboxID :: string
  pod_OwnerUID :: string
  pod_IP :: string
  pod_Labels :: labels
  pod_Ready :: bool
  pod_Healthy :: bool
  pod_Deleted :: bool

datatype op_error = ErrInvalidClaim | ErrPodNotFound | ErrPodAlreadyExists | PodIsDeleted | OtherError string

definition valueOrEmpty :: "string option \<Rightarrow> string" where
  "valueOrEmpty v = (case v of None \<Rightarrow> [] | Some s \<Rightarrow> s)"

definition podFromKube :: "KubePod \<Rightarrow> Pod" where
  "podFromKube o' =
     (let step = (\<lambda>(ready, healthy) c.
            (if cond_Type c = ''Ready'' then cond_Status c = ''True'' else ready,
             if cond_Type c = ''Initialized'' then cond_Status c = ''True'' else healthy));
          (ready, healthy) = foldl step (False, False) (kp_Conditions o');
          healthy = (if kp_ContainerReady o' \<noteq> [] then healthy \<and> hd (kp_ContainerReady o') else healthy)
      in \<lparr>pod_Namespace = kp_Namespace o', pod_Name = kp_Name o',
          pod_RuntimeClass = valueOrEmpty (kp_RuntimeClassName o'),
          pod_SandboxID = [], pod_OwnerUID = [], pod_IP = kp_PodIP o', pod_Labels = kp_Labels o',
          pod_Ready = ready, pod_Healthy = healthy, pod_Deleted = (kp_DeletionTimestamp o' \<noteq> None)\<rparr>)"

fun pod_error :: "kube_error \<Rightarrow> op_error" where
  "pod_error IsNotFound = ErrPodNotFound"
| "pod_error IsAlreadyExists = OtherError ''already exists''"
| "pod_error (KubeError t) = OtherError t"

definition Pods_Get :: "Env \<Rightarrow> event list \<Rightarrow> string \<Rightarrow> string \<Rightarrow> (op_error, Pod) result \<times> event list" where
  "Pods_Get E h ns name =
     ((case env_PodGet E h ns name of Inl e \<Rightarrow> Inl (pod_error e) | Inr o' \<Rightarrow> Inr (podFromKube o')),
      h @ [EvPodGet ns name])"

definition kubePod :: "Pod \<Rightarrow> KubePod" where
  "kubePod pod =
     (let sandboxID = (if pod_SandboxID pod = [] then pod_Name pod else pod_SandboxID pod) in
      \<lparr>kp_Namespace = pod_Namespace pod, kp_Name = pod_Name pod, kp_Labels = pod_Labels pod,
       kp_OwnerReferences =
         (if pod_OwnerUID pod \<noteq> [] \<and> label (pod_Labels pod) ''kubebox.io/claim'' \<noteq> []
          then [\<lparr>own_APIVersion = ''sandbox.kubebox.io/v1alpha1'', own_Kind = ''SandboxClaim'',
                 own_Name = label (pod_Labels pod) ''kubebox.io/claim'', own_UID = pod_OwnerUID pod,
                 own_Controller = True, own_BlockOwnerDeletion = True\<rparr>]
          else []),
       kp_RuntimeClassName = Some (pod_RuntimeClass pod), kp_Image = ''kubebox-envd:dev'',
       kp_Command = [''/usr/local/bin/envd''],
       kp_Args = [''--sandbox-id'', sandboxID, ''--root'', ''/sandbox'', ''--grpc-addr'', '':50051'', ''--http-addr'', '':8080''],
       kp_Env = [(''KUBEBOX_SANDBOX_ID'', sandboxID), (''KUBEBOX_SANDBOX_ROOT'', ''/sandbox'')],
       kp_Ports = [(''grpc'', 50051), (''http'', 8080)],
       kp_EmptyDirMounts = [(''sandbox'', ''/sandbox'')],
       kp_AutomountServiceAccountToken = False, kp_PodRunAsNonRoot = True,
       kp_SecurityContext = \<lparr>RunAsNonRoot = True, ReadOnlyRootFilesystem = True, AllowPrivilegeEscalation = False,
                             DropCapabilities = [''ALL'']\<rparr>,
       kp_DeletionTimestamp = None, kp_Conditions = [], kp_ContainerReady = [], kp_PodIP = []\<rparr>)"

definition Pods_Create :: "Env \<Rightarrow> event list \<Rightarrow> Pod \<Rightarrow> op_error option \<times> event list" where
  "Pods_Create E h pod =
     ((case env_PodCreate E h (kubePod pod) of
         None \<Rightarrow> None
       | Some IsAlreadyExists \<Rightarrow> Some ErrPodAlreadyExists
       | Some IsNotFound \<Rightarrow> Some (OtherError ''not found'')
       | Some (KubeError t) \<Rightarrow> Some (OtherError t)),
      h @ [EvPodCreate (kubePod pod)])"

definition Pods_Delete :: "Env \<Rightarrow> event list \<Rightarrow> string \<Rightarrow> string \<Rightarrow> op_error option \<times> event list" where
  "Pods_Delete E h ns name = (map_option pod_error (env_PodDelete E h ns name), h @ [EvPodDelete ns name])"

section \<open>The reconciler\<close>

record Claim =
  cl_Namespace :: string
  cl_Name :: string
  cl_UID :: string
  cl_TenantID :: string
  cl_OwnerID :: string
  cl_IdempotencyKey :: string
  cl_Template :: string
  cl_RuntimeClass :: string
  cl_TTLSeconds :: int
  cl_DesiredState :: string
  cl_Phase :: string
  cl_PodName :: string
  cl_PodIP :: string
  cl_SandboxID :: string
  cl_ProxyEndpoint :: string
  cl_ExpiresAt :: time

definition ClaimProvisioning :: string where "ClaimProvisioning = ''Provisioning''"
definition ClaimReady :: string where "ClaimReady = ''Ready''"
definition ClaimDraining :: string where "ClaimDraining = ''Draining''"
definition ClaimDeleted :: string where "ClaimDeleted = ''Deleted''"
definition ClaimFailed :: string where "ClaimFailed = ''Failed''"

lemmas phase_defs = ClaimProvisioning_def ClaimReady_def ClaimDraining_def ClaimDeleted_def ClaimFailed_def

definition DeterministicPodName :: "string \<Rightarrow> string \<Rightarrow> string" where
  "DeterministicPodName tenantID idempotencyKey =
     ''sbx-'' @ take 20 (EncodeToHex (Sum256 (tenantID @ NUL # idempotencyKey)))"

definition ValidateRuntimeClass :: "string \<Rightarrow> string option" where
  "ValidateRuntimeClass rc = (if rc \<in> {''runc'', ''gvisor'', ''kata''} then None else Some rc)"

text \<open>
  The interface to the pods, \<open>PodClient\<close>, over any state of the outside: a call gives its
  answer and the state after it. A reconciliation gives its result, the claim as it left
  it, and the state.
\<close>

record 'h PodClient =
  pc_Get :: "'h \<Rightarrow> string \<Rightarrow> string \<Rightarrow> (op_error, Pod) result \<times> 'h"
  pc_Create :: "'h \<Rightarrow> Pod \<Rightarrow> op_error option \<times> 'h"
  pc_Delete :: "'h \<Rightarrow> string \<Rightarrow> string \<Rightarrow> op_error option \<times> 'h"

record 'h Reconciler =
  rec_Pods :: "'h PodClient option"
  rec_Now :: "'h \<Rightarrow> time" \<comment> \<open>\<open>time.Now\<close> when it is not set\<close>

type_synonym 'h reconciled = "(op_error, bool) result \<times> Claim \<times> 'h"

definition delete_with :: "'h PodClient \<Rightarrow> 'h \<Rightarrow> Claim \<Rightarrow> 'h reconciled" where
  "delete_with P h claim =
     (let claim = claim\<lparr>cl_Phase := ClaimDraining\<rparr>;
          claim = (if cl_PodName claim = []
                   then claim\<lparr>cl_PodName := DeterministicPodName (cl_TenantID claim) (cl_IdempotencyKey claim)\<rparr> else claim)
      in case pc_Delete P h (cl_Namespace claim) (cl_PodName claim) of
           (err, h) \<Rightarrow>
             if err \<noteq> None \<and> err \<noteq> Some ErrPodNotFound then (Inl (the err), claim, h)
             else (Inr False, claim\<lparr>cl_Phase := ClaimDeleted, cl_ProxyEndpoint := [], cl_ExpiresAt := zero_time\<rparr>, h))"

definition claimPod :: "Claim \<Rightarrow> Pod" where
  "claimPod claim =
     \<lparr>pod_Namespace = cl_Namespace claim, pod_Name = cl_PodName claim, pod_RuntimeClass = cl_RuntimeClass claim,
      pod_SandboxID = cl_Name claim, pod_OwnerUID = cl_UID claim, pod_IP = [],
      pod_Labels = [''kubebox.io/tenant'' \<mapsto> cl_TenantID claim, ''kubebox.io/owner'' \<mapsto> cl_OwnerID claim,
                    ''kubebox.io/claim'' \<mapsto> cl_Name claim, ''kubebox.io/workload'' \<mapsto> ''sandbox''],
      pod_Ready = False, pod_Healthy = False, pod_Deleted = False\<rparr>"

text \<open>The end of \<open>Reconcile\<close>, once it has a pod.\<close>

definition follow_pod :: "time \<Rightarrow> Claim \<Rightarrow> Pod \<Rightarrow> 'h \<Rightarrow> 'h reconciled" where
  "follow_pod now claim pod h =
     (if pod_Deleted pod then (Inl PodIsDeleted, claim\<lparr>cl_Phase := ClaimFailed\<rparr>, h)
      else if \<not> pod_Ready pod \<or> \<not> pod_Healthy pod then (Inr True, claim, h)
      else
        let claim = claim\<lparr>cl_Phase := ClaimReady, cl_SandboxID := cl_Name claim, cl_PodIP := pod_IP pod,
                          cl_ProxyEndpoint := ''envd-proxy.sandbox-system.svc:8080''\<rparr>
        in (Inr False,
            if IsZero (cl_ExpiresAt claim) then claim\<lparr>cl_ExpiresAt := Add now (seconds (cl_TTLSeconds claim))\<rparr> else claim,
            h))"

definition claim_defaults :: "time \<Rightarrow> Claim \<Rightarrow> Claim" where
  "claim_defaults now claim =
     (let claim = (if cl_RuntimeClass claim = [] then claim\<lparr>cl_RuntimeClass := ''gvisor''\<rparr> else claim);
          claim = (if cl_TTLSeconds claim \<le> 0 then claim\<lparr>cl_TTLSeconds := 1800\<rparr> else claim)
      in if cl_DesiredState claim \<noteq> ''Deleted'' \<and> \<not> IsZero (cl_ExpiresAt claim) \<and> \<not> Before now (cl_ExpiresAt claim)
         then claim\<lparr>cl_DesiredState := ''Deleted''\<rparr> else claim)"

definition reconcile_with :: "'h PodClient \<Rightarrow> time \<Rightarrow> 'h \<Rightarrow> Claim \<Rightarrow> 'h reconciled" where
  "reconcile_with P now h claim =
     (let claim = claim_defaults now claim
      in if cl_DesiredState claim = ''Deleted'' then delete_with P h claim
         else if cl_Phase claim = ClaimDeleted then (Inr False, claim, h)
         else
           let claim = claim\<lparr>cl_Phase := ClaimProvisioning,
                             cl_PodName := DeterministicPodName (cl_TenantID claim) (cl_IdempotencyKey claim)\<rparr>
           in case pc_Get P h (cl_Namespace claim) (cl_PodName claim) of
                (Inr pod, h) \<Rightarrow> follow_pod now claim pod h
              | (Inl err, h) \<Rightarrow>
                  if err \<noteq> ErrPodNotFound then (Inl err, claim, h)
                  else (case pc_Create P h (claimPod claim) of
                          (cerr, h) \<Rightarrow>
                            if cerr \<noteq> None \<and> cerr \<noteq> Some ErrPodAlreadyExists
                            then (Inl (the cerr), claim\<lparr>cl_Phase := ClaimFailed\<rparr>, h)
                            else (case pc_Get P h (cl_Namespace claim) (cl_PodName claim) of
                                    (Inl err, h) \<Rightarrow> (Inl err, claim, h)
                                  | (Inr pod, h) \<Rightarrow> follow_pod now claim pod h)))"

text \<open>The method itself: without a claim or a pod client it refuses.\<close>

definition Reconciler_Reconcile :: "'h Reconciler \<Rightarrow> 'h \<Rightarrow> Claim option \<Rightarrow> (op_error, bool) result \<times> Claim option \<times> 'h" where
  "Reconciler_Reconcile r h claim =
     (case (rec_Pods r, claim) of
        (Some P, Some c) \<Rightarrow> (case reconcile_with P (rec_Now r h) h c of (res, c, h) \<Rightarrow> (res, Some c, h))
      | _ \<Rightarrow> (Inl ErrInvalidClaim, claim, h))"

section \<open>The contract of the pod client\<close>

text \<open>
  The reconciler reaches the outside through its pod client only. \<open>log\<close> is the sequence of
  calls the outside has seen, \<open>sent\<close> what a pod is sent as; a call adds itself to it.
\<close>

locale pod_client =
  fixes P :: "'h PodClient"
    and log :: "'h \<Rightarrow> event list"
    and sent :: "Pod \<Rightarrow> KubePod"
  assumes get_log: "log (snd (pc_Get P h ns n)) = log h @ [EvPodGet ns n]"
    and create_log: "log (snd (pc_Create P h pod)) = log h @ [EvPodCreate (sent pod)]"
    and delete_log: "log (snd (pc_Delete P h ns n)) = log h @ [EvPodDelete ns n]"
begin

text \<open>
  The calls of one reconciliation: none, one deletion, or reads with at most one creation
  between them.
\<close>

lemma reconcile_calls:
  assumes "reconcile_with P now h c = (res, c', h')"
  shows "log h' = log h \<or> (\<exists>ns n. log h' = log h @ [EvPodDelete ns n]) \<or>
    (\<exists>ns n pod. log h' \<in> {log h @ [EvPodGet ns n], log h @ [EvPodGet ns n, EvPodCreate (sent pod)],
       log h @ [EvPodGet ns n, EvPodCreate (sent pod), EvPodGet ns n]})"
proof -
  have del: "\<exists>ns n. log h' = log h @ [EvPodDelete ns n]" if "delete_with P h d = (res, c', h')" for d
    using that delete_log [of h] by (auto simp: delete_with_def Let_def split: prod.splits if_splits) (metis snd_conv)+
  have follow: "g' = g" if "follow_pod now d pod g = (res, c', g')" for d pod and g g' :: 'h
    using that by (auto simp: follow_pod_def Let_def split: if_splits)
  define d where "d = claim_defaults now c"
  define q where "q = d\<lparr>cl_Phase := ClaimProvisioning, cl_PodName := DeterministicPodName (cl_TenantID d) (cl_IdempotencyKey d)\<rparr>"
  obtain r1 h1 where g1: "pc_Get P h (cl_Namespace q) (cl_PodName q) = (r1, h1)" by fastforce
  obtain r2 h2 where cr: "pc_Create P h1 (claimPod q) = (r2, h2)" by fastforce
  obtain r3 h3 where g2: "pc_Get P h2 (cl_Namespace q) (cl_PodName q) = (r3, h3)" by fastforce
  have l1: "log h1 = log h @ [EvPodGet (cl_Namespace q) (cl_PodName q)]" using get_log [of h "cl_Namespace q" "cl_PodName q"] g1 by simp
  have l2: "log h2 = log h @ [EvPodGet (cl_Namespace q) (cl_PodName q), EvPodCreate (sent (claimPod q))]"
    using create_log [of h1 "claimPod q"] cr l1 by simp
  have l3: "log h3 = log h @ [EvPodGet (cl_Namespace q) (cl_PodName q), EvPodCreate (sent (claimPod q)), EvPodGet (cl_Namespace q) (cl_PodName q)]"
    using get_log [of h2 "cl_Namespace q" "cl_PodName q"] g2 l2 by simp
  note R = assms [unfolded reconcile_with_def Let_def, folded d_def, folded q_def]
  from R del [of d] follow g1 cr g2 have "h' = h \<or> (\<exists>ns n. log h' = log h @ [EvPodDelete ns n]) \<or> h' \<in> {h1, h2, h3}"
    by (auto split: if_splits sum.splits)
  then show ?thesis using l1 l2 l3 by blast
qed

end

section \<open>The pods of the cluster\<close>

text \<open>\<open>KubePodClient\<close>, the pod client over the API server, and the reconciler over it.\<close>

definition KubePodClient :: "Env \<Rightarrow> event list PodClient" where
  "KubePodClient E = \<lparr>pc_Get = Pods_Get E, pc_Create = Pods_Create E, pc_Delete = Pods_Delete E\<rparr>"

lemma KubePodClient_calls [simp]:
  "pc_Get (KubePodClient E) = Pods_Get E" "pc_Create (KubePodClient E) = Pods_Create E" "pc_Delete (KubePodClient E) = Pods_Delete E"
  by (simp_all add: KubePodClient_def)

interpretation kpc: pod_client "KubePodClient E" "\<lambda>h. h" kubePod for E
  by unfold_locales (simp_all add: Pods_Get_def Pods_Create_def Pods_Delete_def)

definition Reconcile :: "Env \<Rightarrow> event list \<Rightarrow> Claim \<Rightarrow> event list reconciled" where
  Reconcile_kube: "Reconcile E h claim = reconcile_with (KubePodClient E) (env_Now E h) h claim"

definition reconcileDelete :: "Env \<Rightarrow> event list \<Rightarrow> Claim \<Rightarrow> event list reconciled" where
  reconcileDelete_kube: "reconcileDelete E h claim = delete_with (KubePodClient E) h claim"

lemma reconcileDelete_def:
  "reconcileDelete E h claim =
     (let claim = claim\<lparr>cl_Phase := ClaimDraining\<rparr>;
          claim = (if cl_PodName claim = []
                   then claim\<lparr>cl_PodName := DeterministicPodName (cl_TenantID claim) (cl_IdempotencyKey claim)\<rparr> else claim)
      in case Pods_Delete E h (cl_Namespace claim) (cl_PodName claim) of
           (err, h) \<Rightarrow>
             if err \<noteq> None \<and> err \<noteq> Some ErrPodNotFound then (Inl (the err), claim, h)
             else (Inr False, claim\<lparr>cl_Phase := ClaimDeleted, cl_ProxyEndpoint := [], cl_ExpiresAt := zero_time\<rparr>, h))"
  unfolding reconcileDelete_kube delete_with_def KubePodClient_calls ..

lemma Reconcile_def:
  "Reconcile E h claim =
     (let now = env_Now E h;
          claim = claim_defaults now claim
      in if cl_DesiredState claim = ''Deleted'' then reconcileDelete E h claim
         else if cl_Phase claim = ClaimDeleted then (Inr False, claim, h)
         else
           let claim = claim\<lparr>cl_Phase := ClaimProvisioning,
                             cl_PodName := DeterministicPodName (cl_TenantID claim) (cl_IdempotencyKey claim)\<rparr>
           in case Pods_Get E h (cl_Namespace claim) (cl_PodName claim) of
                (Inr pod, h) \<Rightarrow> follow_pod now claim pod h
              | (Inl err, h) \<Rightarrow>
                  if err \<noteq> ErrPodNotFound then (Inl err, claim, h)
                  else (case Pods_Create E h (claimPod claim) of
                          (cerr, h) \<Rightarrow>
                            if cerr \<noteq> None \<and> cerr \<noteq> Some ErrPodAlreadyExists
                            then (Inl (the cerr), claim\<lparr>cl_Phase := ClaimFailed\<rparr>, h)
                            else (case Pods_Get E h (cl_Namespace claim) (cl_PodName claim) of
                                    (Inl err, h) \<Rightarrow> (Inl err, claim, h)
                                  | (Inr pod, h) \<Rightarrow> follow_pod now claim pod h)))"
  unfolding Reconcile_kube reconcile_with_def reconcileDelete_kube KubePodClient_calls Let_def ..

lemma Reconciler_over_kube:
  "Reconciler_Reconcile \<lparr>rec_Pods = Some (KubePodClient E), rec_Now = env_Now E\<rparr> h (Some c) =
     (case Reconcile E h c of (res, c, h) \<Rightarrow> (res, Some c, h))"
  by (simp add: Reconciler_Reconcile_def Reconcile_kube)

section \<open>The controller\<close>

definition claimFinalizer :: string where "claimFinalizer = ''sandbox.kubebox.io/finalizer''"
definition ownerLabel :: string where "ownerLabel = ''kubebox.io/owner''"

record SandboxClaimReconciler =
  Registrar :: bool \<comment> \<open>whether a registrar is configured\<close>

definition runtimeClassFromClassRef :: "string \<Rightarrow> string" where
  "runtimeClassFromClassRef c = (if c = [] then ''gvisor'' else if c = ''runc'' \<or> c = ''gvisor'' \<or> c = ''kata'' then c else ''gvisor'')"

definition containsString :: "string list \<Rightarrow> string \<Rightarrow> bool" where
  "containsString vs x = list_ex (\<lambda>v. v = x) vs"

definition removeString :: "string list \<Rightarrow> string \<Rightarrow> string list" where
  "removeString vs x = filter (\<lambda>v. v \<noteq> x) vs"

definition claimOf :: "SandboxClaim \<Rightarrow> Claim" where
  "claimOf obj =
     (let owner = label (ObjLabels obj) ownerLabel;
          owner = (if owner = [] then label (ObjLabels obj) ''kubebox.io/owner-id'' else owner)
      in \<lparr>cl_Namespace = ObjNamespace obj, cl_Name = ObjName obj, cl_UID = ObjUID obj,
          cl_TenantID = label (ObjLabels obj) ''kubebox.io/tenant'', cl_OwnerID = owner,
          cl_IdempotencyKey = SpecIdempotencyKey (Spec obj), cl_Template = SpecTemplate (Spec obj),
          cl_RuntimeClass = runtimeClassFromClassRef (ClassRef (Spec obj)), cl_TTLSeconds = SpecTTLSeconds (Spec obj),
          cl_DesiredState = (if DeletionTimestamp obj \<noteq> None then ''Deleted'' else SpecDesiredState (Spec obj)),
          cl_Phase = StatusPhase (ObjStatus obj), cl_PodName = label (ObjLabels obj) ''kubebox.io/pod-name'', cl_PodIP = [],
          cl_SandboxID = SandboxRef (ObjStatus obj), cl_ProxyEndpoint = [],
          cl_ExpiresAt = (case StatusExpiresAt (ObjStatus obj) of None \<Rightarrow> zero_time | Some t \<Rightarrow> t)\<rparr>)"

definition syncRoute :: "Env \<Rightarrow> SandboxClaimReconciler \<Rightarrow> event list \<Rightarrow> Claim \<Rightarrow> string option \<times> event list" where
  "syncRoute E r h claim =
     (if \<not> Registrar r then (None, h)
      else if cl_Phase claim = ClaimReady then
        if cl_PodIP claim = [] then (Some ''pod IP not yet available'', h)
        else
          let target = ''http://'' @ cl_PodIP claim @ '':8080''
          in (env_Register E h (cl_SandboxID claim) target, h @ [EvRegister (cl_SandboxID claim) target])
      else if cl_Phase claim = ClaimDeleted then
        if cl_SandboxID claim = [] then (None, h)
        else (env_Unregister E h (cl_SandboxID claim), h @ [EvUnregister (cl_SandboxID claim)])
      else (None, h))"

datatype requeue = NoRequeue | RequeueAfter duration

datatype ctrl_error = ClientError kube_error | ReconcileError op_error

definition statusOf :: "Claim \<Rightarrow> SandboxClaim \<Rightarrow> SandboxClaim" where
  "statusOf claim obj = obj\<lparr>ObjStatus := (ObjStatus obj)\<lparr>StatusPhase := cl_Phase claim, SandboxRef := cl_SandboxID claim,
     StatusProxyEndpoint := cl_ProxyEndpoint claim,
     StatusExpiresAt := (if IsZero (cl_ExpiresAt claim) then None else Some (cl_ExpiresAt claim))\<rparr>\<rparr>"

definition requeue_after :: "Env \<Rightarrow> event list \<Rightarrow> Claim \<Rightarrow> requeue" where
  "requeue_after E h claim =
     (if cl_Phase claim = ClaimProvisioning then RequeueAfter (500 * Millisecond)
      else if cl_Phase claim = ClaimReady \<and> \<not> IsZero (cl_ExpiresAt claim) then
        let delay = Sub (cl_ExpiresAt claim) (env_Now E h)
        in RequeueAfter (if delay \<le> 0 then Second else if delay > 30 * Second then 30 * Second else delay)
      else NoRequeue)"

text \<open>
  The part of \<open>Reconcile\<close> after the status has been written. An update that succeeds
  leaves the object as it was sent: the API server refuses one of an older version.
\<close>

definition finish :: "Env \<Rightarrow> event list \<Rightarrow> Claim \<Rightarrow> SandboxClaim \<Rightarrow> string option \<Rightarrow> (ctrl_error, requeue) result \<times> event list" where
  "finish E h claim obj routeErr =
     (if routeErr \<noteq> None then (Inr (RequeueAfter (5 * Second)), h)
      else if cl_Phase claim = ClaimDeleted \<and> containsString (Finalizers obj) claimFinalizer then
        let obj = obj\<lparr>Finalizers := removeString (Finalizers obj) claimFinalizer\<rparr> in
        (case env_Update E h obj of
           Some e \<Rightarrow> (Inl (ClientError e), h @ [EvUpdate obj])
         | None \<Rightarrow> (Inr (requeue_after E (h @ [EvUpdate obj]) claim), h @ [EvUpdate obj]))
      else (Inr (requeue_after E h claim), h))"

definition write_status :: "Env \<Rightarrow> event list \<Rightarrow> Claim \<Rightarrow> SandboxClaim \<Rightarrow> string option \<Rightarrow> (ctrl_error, requeue) result \<times> event list" where
  "write_status E h claim obj routeErr =
     (let obj = statusOf claim obj in
      case env_StatusUpdate E h obj of
        Some e \<Rightarrow> (Inl (ClientError e), h @ [EvStatusUpdate obj])
      | None \<Rightarrow> finish E (h @ [EvStatusUpdate obj]) claim obj routeErr)"

definition Controller_Reconcile ::
  "Env \<Rightarrow> SandboxClaimReconciler \<Rightarrow> event list \<Rightarrow> string \<Rightarrow> string \<Rightarrow> (ctrl_error, requeue) result \<times> event list" where
  "Controller_Reconcile E r h ns name =
     (case env_GetClaim E h ns name of
        Inl IsNotFound \<Rightarrow> (Inr NoRequeue, h)
      | Inl e \<Rightarrow> (Inl (ClientError e), h)
      | Inr obj \<Rightarrow>
          (case Reconcile E h (claimOf obj) of
             (Inl e, _, h) \<Rightarrow> (Inl (ReconcileError e), h)
           | (Inr _, claim, h) \<Rightarrow>
               (case syncRoute E r h claim of
                  (routeErr, h) \<Rightarrow>
                    if cl_Phase claim \<noteq> ClaimDeleted \<and> DeletionTimestamp obj = None \<and> \<not> containsString (Finalizers obj) claimFinalizer
                    then
                      let obj = obj\<lparr>Finalizers := Finalizers obj @ [claimFinalizer]\<rparr> in
                      (case env_Update E h obj of
                         Some e \<Rightarrow> (Inl (ClientError e), h @ [EvUpdate obj])
                       | None \<Rightarrow> write_status E (h @ [EvUpdate obj]) claim obj routeErr)
                    else write_status E h claim obj routeErr)))"

section \<open>The admission webhook\<close>

definition validateClassRef :: "string \<Rightarrow> string option" where
  "validateClassRef c = (if c = [] then None else ValidateRuntimeClass c)"

definition ValidateCreate :: "SandboxClaim \<Rightarrow> string option" where
  "ValidateCreate obj = validateClassRef (ClassRef (Spec obj))"

definition ValidateUpdate :: "SandboxClaim \<Rightarrow> SandboxClaim \<Rightarrow> string option" where
  "ValidateUpdate old new = validateClassRef (ClassRef (Spec new))"

definition ValidateDelete :: "SandboxClaim \<Rightarrow> string option" where
  "ValidateDelete obj = None"

end
