(* ===== verification/Operator_Claims.thy ===== *)
theory Operator_Claims
  imports Operator
begin

text \<open>
  What the operator does to the cluster and to the route table, in any environment: the
  events of one reconciliation and the answers they rest on.
\<close>

section \<open>Outcomes of the reconciler\<close>

definition provisioned :: "time \<Rightarrow> Claim \<Rightarrow> Claim" where
  "provisioned now c = (claim_defaults now c)\<lparr>cl_Phase := ClaimProvisioning,
     cl_PodName := DeterministicPodName (cl_TenantID c) (cl_IdempotencyKey c)\<rparr>"

lemma claim_defaults_same [simp]:
  "cl_Namespace (claim_defaults now c) = cl_Namespace c"
  "cl_Name (claim_defaults now c) = cl_Name c"
  "cl_UID (claim_defaults now c) = cl_UID c"
  "cl_TenantID (claim_defaults now c) = cl_TenantID c"
  "cl_OwnerID (claim_defaults now c) = cl_OwnerID c"
  "cl_IdempotencyKey (claim_defaults now c) = cl_IdempotencyKey c"
  "cl_Phase (claim_defaults now c) = cl_Phase c"
  "cl_PodName (claim_defaults now c) = cl_PodName c"
  "cl_SandboxID (claim_defaults now c) = cl_SandboxID c"
  "cl_PodIP (claim_defaults now c) = cl_PodIP c"
  by (simp_all add: claim_defaults_def Let_def)

lemma phases_distinct:
  "ClaimReady \<noteq> ClaimDeleted" "ClaimProvisioning \<noteq> ClaimDeleted" "ClaimProvisioning \<noteq> ClaimReady"
  by (simp_all add: phase_defs)

text \<open>The pod a claim is deleted with: the one its label names, if it has one.\<close>

definition doomed_pod :: "Claim \<Rightarrow> string" where
  "doomed_pod c = (if cl_PodName c = [] then DeterministicPodName (cl_TenantID c) (cl_IdempotencyKey c) else cl_PodName c)"

lemma doomed_pod_defaults [simp]: "doomed_pod (claim_defaults now c) = doomed_pod c"
  by (simp add: doomed_pod_def)

lemma reconcileDelete_result:
  assumes "reconcileDelete E h c = (res, c', h')"
  shows "h' = h @ [EvPodDelete (cl_Namespace c) (doomed_pod c)] \<and>
     (\<forall>b. res = Inr b \<longrightarrow> cl_Phase c' = ClaimDeleted \<and> cl_SandboxID c' = cl_SandboxID c \<and>
        env_PodDelete E h (cl_Namespace c) (doomed_pod c) \<in> {None, Some IsNotFound})"
proof -
  have nf: "pod_error e = ErrPodNotFound \<longleftrightarrow> e = IsNotFound" for e by (cases e) auto
  show ?thesis
    using assms
    by (cases "env_PodDelete E h (cl_Namespace c) (doomed_pod c)")
      (auto simp: reconcileDelete_def Let_def Pods_Delete_def doomed_pod_def nf split: if_splits)
qed

lemma follow_pod_result:
  assumes "follow_pod now c pod h = (res, c', h')"
  shows "h' = h \<and> cl_Phase c' \<in> {cl_Phase c, ClaimReady, ClaimFailed} \<and>
     (\<forall>b. res = Inr b \<longrightarrow> cl_Phase c' = cl_Phase c \<or>
        cl_Phase c' = ClaimReady \<and> pod_Ready pod \<and> pod_Healthy pod \<and> \<not> pod_Deleted pod \<and>
        cl_SandboxID c' = cl_Name c \<and> cl_PodIP c' = pod_IP pod)"
  using assms by (auto simp: follow_pod_def Let_def split: if_splits)

text \<open>The history when a pod has been read: at once, or after it was created.\<close>

definition pod_history :: "event list \<Rightarrow> Claim \<Rightarrow> event list \<Rightarrow> bool" where
  "pod_history h p h1 \<longleftrightarrow> h1 = h \<or>
     h1 = h @ [EvPodGet (cl_Namespace p) (cl_PodName p), EvPodCreate (kubePod (claimPod p))]"

definition created_after :: "Env \<Rightarrow> event list \<Rightarrow> Claim \<Rightarrow> event list \<Rightarrow> bool" where
  "created_after E h p h' \<longleftrightarrow>
     (\<forall>kp. EvPodCreate kp \<in> set (drop (length h) h') \<longrightarrow>
        kp = kubePod (claimPod p) \<and> env_PodGet E h (cl_Namespace p) (cl_PodName p) = Inl IsNotFound) \<and>
     length (filter (\<lambda>ev. \<exists>kp. ev = EvPodCreate kp) (drop (length h) h')) \<le> 1"

lemma Reconcile_outcome:
  assumes "Reconcile E h c = (res, c', h')"
  obtains (deleted) "h' = h @ [EvPodDelete (cl_Namespace c) (doomed_pod c)]"
      "\<forall>b. res = Inr b \<longrightarrow> cl_Phase c' = ClaimDeleted \<and> cl_SandboxID c' = cl_SandboxID c \<and>
         env_PodDelete E h (cl_Namespace c) (doomed_pod c) \<in> {None, Some IsNotFound}"
  | (gone) "cl_Phase c = ClaimDeleted" "h' = h" "c' = claim_defaults (env_Now E h) c"
  | (failed) e where "res = Inl e" "created_after E h (provisioned (env_Now E h) c) h'" "\<exists>evs. h' = h @ evs \<and>
      (\<forall>ev \<in> set evs. \<exists>a b kp. ev = EvPodGet a b \<or> ev = EvPodCreate kp)"
  | (followed) h1 kp where "pod_history h (provisioned (env_Now E h) c) h1"
      "created_after E h (provisioned (env_Now E h) c) h'"
      "env_PodGet E h1 (cl_Namespace c) (cl_PodName (provisioned (env_Now E h) c)) = Inr kp"
      "follow_pod (env_Now E h) (provisioned (env_Now E h) c) (podFromKube kp)
         (h1 @ [EvPodGet (cl_Namespace c) (cl_PodName (provisioned (env_Now E h) c))]) = (res, c', h')"
proof -
  define d where "d = claim_defaults (env_Now E h) c"
  define p where "p = provisioned (env_Now E h) c"
  have p: "p = d\<lparr>cl_Phase := ClaimProvisioning, cl_PodName := DeterministicPodName (cl_TenantID d) (cl_IdempotencyKey d)\<rparr>"
    by (simp add: p_def provisioned_def d_def)
  have ns: "cl_Namespace p = cl_Namespace c" by (simp add: p d_def)
  have nf: "pod_error e = ErrPodNotFound \<longleftrightarrow> e = IsNotFound" for e by (cases e) auto
  let ?get = "EvPodGet (cl_Namespace c) (cl_PodName p)" and ?new = "EvPodCreate (kubePod (claimPod p))"
  consider (del) "cl_DesiredState d = ''Deleted''" | (gn) "cl_DesiredState d \<noteq> ''Deleted''" "cl_Phase d = ClaimDeleted"
    | (prov) "cl_DesiredState d \<noteq> ''Deleted''" "cl_Phase d \<noteq> ClaimDeleted" by blast
  then show thesis
  proof cases
    case del
    then have "reconcileDelete E h d = (res, c', h')" using assms by (simp add: Reconcile_def Let_def d_def)
    from reconcileDelete_result [OF this] show thesis by (intro deleted) (simp_all add: d_def)
  next
    case gn
    then show thesis using assms by (intro gone) (auto simp: Reconcile_def Let_def d_def)
  next
    case prov
    note R = assms [unfolded Reconcile_def Let_def, folded d_def, folded p]
    show thesis
    proof (cases "env_PodGet E h (cl_Namespace c) (cl_PodName p)")
      case (Inr kp)
      with prov R ns have f: "follow_pod (env_Now E h) p (podFromKube kp) (h @ [?get]) = (res, c', h')" by (simp add: Pods_Get_def)
      then have "h' = h @ [?get]" by (rule conjunct1 [OF follow_pod_result])
      with f Inr show thesis by (intro followed [of h kp]) (simp_all add: p_def [symmetric] pod_history_def created_after_def)
    next
      case (Inl e)
      show thesis
      proof (cases "e = IsNotFound")
        case False
        with Inl prov R ns show thesis
          by (intro failed [of "pod_error e"]) (auto simp: Pods_Get_def nf created_after_def)
      next
        case missing: True
        obtain cerr where cr: "Pods_Create E (h @ [?get]) (claimPod p) = (cerr, h @ [?get, ?new])" by (simp add: Pods_Create_def)
        show thesis
        proof (cases "cerr \<noteq> None \<and> cerr \<noteq> Some ErrPodAlreadyExists")
          case True
          with Inl missing prov R ns cr show thesis
            by (intro failed [of "the cerr"]) (auto simp: Pods_Get_def created_after_def p_def [symmetric])
        next
          case ok: False
          show thesis
          proof (cases "env_PodGet E (h @ [?get, ?new]) (cl_Namespace c) (cl_PodName p)")
            case (Inl e')
            with \<open>env_PodGet E h _ _ = _\<close> missing ok prov R ns cr show thesis
              by (intro failed [of "pod_error e'"]) (auto simp: Pods_Get_def created_after_def p_def [symmetric])
          next
            case (Inr kp)
            with \<open>env_PodGet E h _ _ = _\<close> missing ok prov R ns cr
            have f: "follow_pod (env_Now E h) p (podFromKube kp) (h @ [?get, ?new, ?get]) = (res, c', h')" by (auto simp: Pods_Get_def)
            then have "h' = h @ [?get, ?new, ?get]" by (rule conjunct1 [OF follow_pod_result])
            with f Inr \<open>env_PodGet E h _ _ = _\<close> missing show thesis
              by (intro followed [of "h @ [?get, ?new]" kp]) (simp_all add: p_def [symmetric] pod_history_def created_after_def ns)
          qed
        qed
      qed
    qed
  qed
qed

section \<open>Events of the controller\<close>

lemma syncRoute_events:
  assumes "syncRoute E r h c = (re, h')"
  shows "(h' = h \<and> \<not> (Registrar r \<and> cl_Phase c = ClaimDeleted \<and> cl_SandboxID c \<noteq> [])) \<or>
     (cl_Phase c = ClaimReady \<and> cl_PodIP c \<noteq> [] \<and> h' = h @ [EvRegister (cl_SandboxID c) (''http://'' @ cl_PodIP c @ '':8080'')]) \<or>
     (cl_Phase c = ClaimDeleted \<and> h' = h @ [EvUnregister (cl_SandboxID c)] \<and> env_Unregister E h (cl_SandboxID c) = re)"
  using assms phases_distinct by (auto simp: syncRoute_def Let_def split: if_splits)

definition status_events :: "Claim \<Rightarrow> SandboxClaim \<Rightarrow> string option \<Rightarrow> event list \<Rightarrow> bool" where
  "status_events c obj re evs \<longleftrightarrow> evs = [EvStatusUpdate (statusOf c obj)] \<or>
     (\<exists>o'. evs = [EvStatusUpdate (statusOf c obj), EvUpdate o'] \<and> re = None \<and> cl_Phase c = ClaimDeleted)"

definition retries :: "string option \<Rightarrow> (ctrl_error, requeue) result \<Rightarrow> bool" where
  \<comment> \<open>after a route error a run that ends well asks for another\<close>
  "retries re x \<longleftrightarrow> (re \<noteq> None \<longrightarrow> (\<forall>q. x = Inr q \<longrightarrow> q = RequeueAfter (5 * Second)))"

lemma write_status_events:
  assumes "write_status E h c obj re = (x, h')"
  shows "\<exists>evs. h' = h @ evs \<and> status_events c obj re evs \<and> retries re x"
  using assms
  by (auto simp: write_status_def finish_def Let_def status_events_def retries_def split: option.splits if_splits)

definition added :: "SandboxClaim \<Rightarrow> event list \<Rightarrow> bool" where
  "added obj evs \<longleftrightarrow> evs = [] \<or> evs = [EvUpdate (obj\<lparr>Finalizers := Finalizers obj @ [claimFinalizer]\<rparr>)]"

lemma controller_events:
  assumes "Controller_Reconcile E r h ns name = (x, h')" and "h' \<noteq> h"
  obtains (failed) obj e c where "env_GetClaim E h ns name = Inr obj" "Reconcile E h (claimOf obj) = (Inl e, c, h')"
  | (finished) obj b c h1 re h2 adds evs obj' where "env_GetClaim E h ns name = Inr obj" "Reconcile E h (claimOf obj) = (Inr b, c, h1)"
      "syncRoute E r h1 c = (re, h2)" "h' = h2 @ adds @ evs" "added obj adds" "evs = [] \<or> status_events c obj' re evs" "retries re x"
proof -
  obtain obj where obj: "env_GetClaim E h ns name = Inr obj"
    using assms by (cases "env_GetClaim E h ns name") (auto simp: Controller_Reconcile_def split: kube_error.splits)
  obtain res c h1 where rec: "Reconcile E h (claimOf obj) = (res, c, h1)" by (cases "Reconcile E h (claimOf obj)")
  show thesis
  proof (cases res)
    case (Inl e)
    with obj rec assms(1) show thesis by (intro failed [of obj e c]) (auto simp: Controller_Reconcile_def)
  next
    case (Inr b)
    obtain re h2 where sync: "syncRoute E r h1 c = (re, h2)" by fastforce
    let ?new = "obj\<lparr>Finalizers := Finalizers obj @ [claimFinalizer]\<rparr>"
    note all = obj rec [unfolded Inr] sync
    show thesis
    proof (cases "cl_Phase c \<noteq> ClaimDeleted \<and> DeletionTimestamp obj = None \<and> \<not> containsString (Finalizers obj) claimFinalizer")
      case True
      show thesis
      proof (cases "env_Update E h2 ?new")
        case None
        with True all assms(1) have "write_status E (h2 @ [EvUpdate ?new]) c ?new re = (x, h')"
          by (simp add: Controller_Reconcile_def Let_def)
        from write_status_events [OF this] obtain evs where "h' = h2 @ [EvUpdate ?new] @ evs" "status_events c ?new re evs" "retries re x" by auto
        with all show thesis by (intro finished [of obj b c h1 re h2 "[EvUpdate ?new]" evs ?new]) (simp_all add: added_def)
      next
        case (Some e)
        with True all assms(1) have "h' = h2 @ [EvUpdate ?new] @ []" "retries re x" by (auto simp: Controller_Reconcile_def retries_def Let_def)
        with all show thesis by (intro finished [of obj b c h1 re h2 "[EvUpdate ?new]" "[]" ?new]) (simp_all add: added_def)
      qed
    next
      case False
      with all assms(1) have "write_status E h2 c obj re = (x, h')"
        by (auto simp: Controller_Reconcile_def Let_def)
      from write_status_events [OF this] obtain evs where "h' = h2 @ [] @ evs" "status_events c obj re evs" "retries re x" by auto
      with all show thesis by (intro finished [of obj b c h1 re h2 "[]" evs obj]) (simp_all add: added_def)
    qed
  qed
qed

text \<open>The events of a run are those after the history it started with.\<close>

definition run_events :: "event list \<Rightarrow> event list \<Rightarrow> event list" where
  "run_events h h' = drop (length h) h'"

lemma run_events_append [simp]: "run_events h (h @ evs) = evs"
  by (simp add: run_events_def)

text \<open>The reconciler extends the history by pod events.\<close>

definition pod_event :: "event \<Rightarrow> bool" where
  "pod_event ev \<longleftrightarrow> (\<exists>a b kp. ev = EvPodGet a b \<or> ev = EvPodCreate kp \<or> ev = EvPodDelete a b)"

lemma Reconcile_events:
  assumes "Reconcile E h c = (res, c', h1)"
  shows "\<exists>evs. h1 = h @ evs \<and> (\<forall>ev \<in> set evs. pod_event ev)"
  using kpc.reconcile_calls [OF assms [unfolded Reconcile_kube]] by (auto simp: pod_event_def)

text \<open>What a run creates, the reconciler created.\<close>

lemma created_after_new:
  assumes "created_after E h p (h @ evs)" and "EvPodCreate kp \<in> set evs"
  shows "kp = kubePod (claimPod p) \<and> env_PodGet E h (cl_Namespace p) (cl_PodName p) = Inl IsNotFound \<and>
     length (filter (\<lambda>ev. \<exists>q. ev = EvPodCreate q) evs) = 1"
proof -
  have "filter (\<lambda>ev. \<exists>q. ev = EvPodCreate q) evs \<noteq> []" using assms(2) by (auto simp: filter_empty_conv)
  then have "1 \<le> length (filter (\<lambda>ev. \<exists>q. ev = EvPodCreate q) evs)" by (simp add: Suc_le_eq)
  with assms show ?thesis by (simp add: created_after_def)
qed

lemma Reconcile_creations:
  assumes "Reconcile E h c = (res, c', h @ evs)" and "EvPodCreate kp \<in> set evs"
  shows "kp = kubePod (claimPod (provisioned (env_Now E h) c)) \<and>
     env_PodGet E h (cl_Namespace (provisioned (env_Now E h) c)) (cl_PodName (provisioned (env_Now E h) c)) = Inl IsNotFound \<and>
     length (filter (\<lambda>ev. \<exists>q. ev = EvPodCreate q) evs) = 1"
  using assms(1)
proof (cases rule: Reconcile_outcome)
  case (failed e)
  from created_after_new [OF failed(2) assms(2)] show ?thesis .
next
  case (followed h1 k)
  from created_after_new [OF followed(2) assms(2)] show ?thesis .
qed (use assms(2) in auto)

lemma controller_creations:
  assumes "Controller_Reconcile E r h ns name = (x, h')" and "EvPodCreate kp \<in> set (run_events h h')"
  shows "\<exists>obj. env_GetClaim E h ns name = Inr obj \<and> kp = kubePod (claimPod (provisioned (env_Now E h) (claimOf obj))) \<and>
     env_PodGet E h (cl_Namespace (provisioned (env_Now E h) (claimOf obj))) (cl_PodName (provisioned (env_Now E h) (claimOf obj))) = Inl IsNotFound \<and>
     length (filter (\<lambda>ev. \<exists>q. ev = EvPodCreate q) (run_events h h')) = 1"
proof -
  have ne: "h' \<noteq> h" using assms(2) by (auto simp: run_events_def)
  from assms(1) ne show ?thesis
  proof (cases rule: controller_events)
    case (failed obj e c)
    from Reconcile_events [OF failed(2)] obtain evs where "h' = h @ evs" by blast
    with failed assms(2) Reconcile_creations [of E h "claimOf obj" "Inl e" c evs kp] show ?thesis by auto
  next
    case (finished obj b c h1 re h2 adds evs obj')
    from Reconcile_events [OF finished(2)] obtain pevs where pevs: "h1 = h @ pevs" by blast
    from syncRoute_events [OF finished(3)] obtain revs where revs: "h2 = h1 @ revs" "\<forall>ev \<in> set revs. \<nexists>q. ev = EvPodCreate q" by auto
    have run: "run_events h h' = pevs @ revs @ adds @ evs" using finished(4) pevs revs(1) by simp
    have rest: "\<forall>ev \<in> set (revs @ adds @ evs). \<nexists>q. ev = EvPodCreate q"
      using revs(2) finished(5,6) by (auto simp: added_def status_events_def)
    then have "filter (\<lambda>ev. \<exists>q. ev = EvPodCreate q) (revs @ adds @ evs) = []" by (intro filter_False) blast
    then have filt: "filter (\<lambda>ev. \<exists>q. ev = EvPodCreate q) (run_events h h') = filter (\<lambda>ev. \<exists>q. ev = EvPodCreate q) pevs"
      unfolding run by (simp only: filter_append) simp
    have "EvPodCreate kp \<in> set pevs" using assms(2) rest unfolding run by auto
    from Reconcile_creations [OF finished(2) [unfolded pevs] this] finished(1) filt show ?thesis by simp
  qed
qed

text \<open>A claim is ready when its pod was read as ready, healthy and not being deleted.\<close>

lemma ready_outcome:
  assumes "Reconcile E h (claimOf obj) = (Inr b, c, h1)" and "cl_Phase c = ClaimReady"
  obtains h3 kp where "pod_history h (provisioned (env_Now E h) (claimOf obj)) h3"
    "h1 = h3 @ [EvPodGet (ObjNamespace obj) (DeterministicPodName (label (ObjLabels obj) ''kubebox.io/tenant'') (SpecIdempotencyKey (Spec obj)))]"
    "env_PodGet E h3 (ObjNamespace obj) (DeterministicPodName (label (ObjLabels obj) ''kubebox.io/tenant'') (SpecIdempotencyKey (Spec obj))) = Inr kp"
    "pod_Ready (podFromKube kp)" "pod_Healthy (podFromKube kp)" "kp_DeletionTimestamp kp = None"
    "cl_SandboxID c = ObjName obj" "cl_PodIP c = kp_PodIP kp"
  using assms(1)
proof (cases rule: Reconcile_outcome)
  case (followed h3 kp)
  let ?p = "provisioned (env_Now E h) (claimOf obj)"
  have ps: "podFromKube kp = (podFromKube kp)\<lparr>pod_IP := kp_PodIP kp, pod_Deleted := kp_DeletionTimestamp kp \<noteq> None\<rparr>"
    by (simp add: podFromKube_def Let_def split: prod.split)
  from follow_pod_result [OF followed(4)] assms(2) phases_distinct have f: "pod_Ready (podFromKube kp)" "pod_Healthy (podFromKube kp)"
    "\<not> pod_Deleted (podFromKube kp)" "cl_SandboxID c = cl_Name ?p" "cl_PodIP c = pod_IP (podFromKube kp)"
    "h1 = h3 @ [EvPodGet (cl_Namespace (claimOf obj)) (cl_PodName ?p)]"
    by (auto simp: provisioned_def)
  have "pod_IP (podFromKube kp) = kp_PodIP kp" "pod_Deleted (podFromKube kp) \<longleftrightarrow> kp_DeletionTimestamp kp \<noteq> None"
    by (subst ps, simp)+
  moreover have "cl_Namespace (claimOf obj) = ObjNamespace obj" "cl_Name ?p = ObjName obj"
    "cl_PodName ?p = DeterministicPodName (label (ObjLabels obj) ''kubebox.io/tenant'') (SpecIdempotencyKey (Spec obj))"
    by (simp_all add: provisioned_def claimOf_def Let_def)
  ultimately show thesis using f followed(1,3) by (intro that [of h3 kp]) auto
qed (use assms(2) phases_distinct in auto)

text \<open>A run that writes a claim without the finalizer has seen its pod and its route off.\<close>

definition route_event :: "event \<Rightarrow> bool" where
  "route_event ev \<longleftrightarrow> (\<exists>i t. ev = EvRegister i t \<or> ev = EvUnregister i)"

lemma after_sync:
  assumes "added obj adds" and "evs = [] \<or> status_events c obj' re evs"
  shows "\<forall>ev \<in> set (adds @ evs). \<not> route_event ev"
  using assms by (auto simp: added_def status_events_def route_event_def)

lemma finalizer_removal:
  assumes "Controller_Reconcile E r h ns name = (x, h')" and "EvUpdate o' \<in> set (run_events h h')"
    and "claimFinalizer \<notin> set (Finalizers o')"
  obtains obj c h1 h2 rest pevs where "env_GetClaim E h ns name = Inr obj"
    "h1 = h @ [EvPodDelete (ObjNamespace obj) (doomed_pod (claimOf obj))] \<and>
       env_PodDelete E h (ObjNamespace obj) (doomed_pod (claimOf obj)) \<in> {None, Some IsNotFound} \<or>
       StatusPhase (ObjStatus obj) = ClaimDeleted"
    "cl_Phase c = ClaimDeleted" "cl_SandboxID c = SandboxRef (ObjStatus obj)" "syncRoute E r h1 c = (None, h2)"
    "h' = h2 @ rest" "\<forall>ev \<in> set rest. \<not> route_event ev" "h1 = h @ pevs" "\<forall>ev \<in> set pevs. pod_event ev"
    "rest \<noteq> []" "last rest = EvUpdate o'"
proof -
  have ne: "h' \<noteq> h" using assms(2) by (auto simp: run_events_def)
  from assms(1) ne show thesis
  proof (cases rule: controller_events)
    case (failed obj e c)
    from Reconcile_events [OF failed(2)] assms(2) show thesis by (auto simp: pod_event_def)
  next
    case (finished obj b c h1 re h2 adds evs obj')
    from Reconcile_events [OF finished(2)] obtain pevs where pevs: "h1 = h @ pevs" "\<forall>ev \<in> set pevs. pod_event ev" by blast
    from syncRoute_events [OF finished(3)] obtain revs where revs: "h2 = h1 @ revs" "\<forall>ev \<in> set revs. \<nexists>q. ev = EvUpdate q" by auto
    have "run_events h h' = pevs @ revs @ adds @ evs" using finished(4) pevs(1) revs(1) by simp
    with assms(2,3) pevs(2) revs(2) finished(5) have "EvUpdate o' \<in> set evs" by (auto simp: pod_event_def added_def)
    with finished(6) have re: "re = None" and ph: "cl_Phase c = ClaimDeleted" and up: "adds @ evs \<noteq> []" "last (adds @ evs) = EvUpdate o'"
      by (auto simp: status_events_def)
    from finished(2) have "(h1 = h @ [EvPodDelete (ObjNamespace obj) (doomed_pod (claimOf obj))] \<and>
        env_PodDelete E h (ObjNamespace obj) (doomed_pod (claimOf obj)) \<in> {None, Some IsNotFound} \<or>
        StatusPhase (ObjStatus obj) = ClaimDeleted) \<and> cl_SandboxID c = SandboxRef (ObjStatus obj)"
    proof (cases rule: Reconcile_outcome)
      case deleted
      moreover have "cl_Namespace (claimOf obj) = ObjNamespace obj" "cl_SandboxID (claimOf obj) = SandboxRef (ObjStatus obj)"
        by (simp_all add: claimOf_def Let_def)
      ultimately show ?thesis by auto
    next
      case gone
      then show ?thesis by (simp add: claimOf_def Let_def)
    next
      case (followed h3 kp)
      with follow_pod_result [OF followed(4)] ph phases_distinct show ?thesis by (auto simp: provisioned_def)
    qed simp
    with ph finished(1,3,4) re after_sync [OF finished(5,6)] pevs up show thesis by (intro that [of obj h1 c h2 "adds @ evs" pevs]) simp_all
  qed
qed

section \<open>An example environment\<close>

definition demo_claim :: "string \<Rightarrow> time option \<Rightarrow> SandboxClaim" where
  "demo_claim phase deletion =
     \<lparr>ObjNamespace = ''team'', ObjName = ''box'', ObjUID = ''u1'', ObjLabels = [''kubebox.io/tenant'' \<mapsto> ''acme'', ''kubebox.io/owner'' \<mapsto> ''alice''],
      Finalizers = [claimFinalizer], DeletionTimestamp = deletion,
      Spec = \<lparr>ClassRef = ''kata'', SpecTemplate = ''python'', SpecTTLSeconds = 600, SpecDesiredState = [], SpecIdempotencyKey = ''k1''\<rparr>,
      ObjStatus = \<lparr>StatusPhase = phase, SandboxRef = ''box'', StatusProxyEndpoint = [], StatusAllocationID = [], StatusExpiresAt = None\<rparr>\<rparr>"

definition demo_pod :: KubePod where
  "demo_pod = (kubePod (claimPod (claimOf (demo_claim [] None))))
     \<lparr>kp_Conditions := [\<lparr>cond_Type = ''Ready'', cond_Status = ''True''\<rparr>, \<lparr>cond_Type = ''Initialized'', cond_Status = ''True''\<rparr>],
      kp_ContainerReady := [True], kp_PodIP := ''10.0.0.7''\<rparr>"

text \<open>The pod is missing until it has been created; every call succeeds.\<close>

definition demo_env :: "time option \<Rightarrow> Env" where
  "demo_env deletion =
     \<lparr>env_GetClaim = \<lambda>_ _ _. Inr (demo_claim [] deletion),
      env_PodGet = \<lambda>h _ _. if list_ex (\<lambda>ev. case ev of EvPodCreate _ \<Rightarrow> True | _ \<Rightarrow> False) h then Inr demo_pod else Inl IsNotFound,
      env_PodCreate = \<lambda>_ _. None, env_PodDelete = \<lambda>_ _ _. None, env_Register = \<lambda>_ _ _. None, env_Unregister = \<lambda>_ _. None,
      env_Update = \<lambda>_ _. None, env_StatusUpdate = \<lambda>_ _. None, env_Now = \<lambda>_. 1000\<rparr>"

section \<open>Claims\<close>

text \<open>
  C38. The finalizer is the last thing to go: when a reconciliation writes a claim without
  the finalizer, this is its last call. Before it, unless the claim was already marked
  deleted, it asked the cluster first of all to delete the pod and found it deleted or missing;
  and, with a registrar and a sandbox, it removed the route successfully. The pod is the one
  that the claim's label \<open>kubebox.io/pod-name\<close> names and, only without this label, the one the operator
  creates for the claim: its author decides which pod is deleted.
\<close>

theorem finalizer_removed_last:
  assumes "Controller_Reconcile E r h ns name = (x, h')" and "EvUpdate o' \<in> set (run_events h h')"
    and "claimFinalizer \<notin> set (Finalizers o')"
  shows "\<exists>obj h'' pod. env_GetClaim E h ns name = Inr obj \<and> h' = h'' @ [EvUpdate o'] \<and>
     pod = (let named = label (ObjLabels obj) ''kubebox.io/pod-name'' in
            if named = [] then DeterministicPodName (label (ObjLabels obj) ''kubebox.io/tenant'') (SpecIdempotencyKey (Spec obj)) else named) \<and>
     (prefix (h @ [EvPodDelete (ObjNamespace obj) pod]) h'' \<and> env_PodDelete E h (ObjNamespace obj) pod \<in> {None, Some IsNotFound} \<or>
      StatusPhase (ObjStatus obj) = ClaimDeleted) \<and>
     (Registrar r \<and> SandboxRef (ObjStatus obj) \<noteq> [] \<longrightarrow>
        (\<exists>h1. prefix (h1 @ [EvUnregister (SandboxRef (ObjStatus obj))]) h'' \<and> env_Unregister E h1 (SandboxRef (ObjStatus obj)) = None))"
proof -
  from assms obtain obj c h1 h2 rest where f: "env_GetClaim E h ns name = Inr obj"
    "h1 = h @ [EvPodDelete (ObjNamespace obj) (doomed_pod (claimOf obj))] \<and>
       env_PodDelete E h (ObjNamespace obj) (doomed_pod (claimOf obj)) \<in> {None, Some IsNotFound} \<or>
       StatusPhase (ObjStatus obj) = ClaimDeleted"
    "cl_Phase c = ClaimDeleted" "cl_SandboxID c = SandboxRef (ObjStatus obj)" "syncRoute E r h1 c = (None, h2)"
    "h' = h2 @ rest" "rest \<noteq> []" "last rest = EvUpdate o'" by (rule finalizer_removal)
  let ?h = "h2 @ butlast rest" and ?pod = "doomed_pod (claimOf obj)"
  have last: "h' = ?h @ [EvUpdate o']" using f(6-8) by (metis append.assoc append_butlast_last_id)
  have pod: "?pod = (let named = label (ObjLabels obj) ''kubebox.io/pod-name'' in
      if named = [] then DeterministicPodName (label (ObjLabels obj) ''kubebox.io/tenant'') (SpecIdempotencyKey (Spec obj)) else named)"
    by (simp add: doomed_pod_def claimOf_def Let_def)
  have "prefix h1 ?h" using syncRoute_events [OF f(5)] by auto
  then have del: "prefix (h @ [EvPodDelete (ObjNamespace obj) ?pod]) ?h \<and> env_PodDelete E h (ObjNamespace obj) ?pod \<in> {None, Some IsNotFound} \<or>
      StatusPhase (ObjStatus obj) = ClaimDeleted" using f(2) by auto
  have route: "\<exists>h1. prefix (h1 @ [EvUnregister (cl_SandboxID c)]) ?h \<and> env_Unregister E h1 (cl_SandboxID c) = None"
    if "Registrar r" "cl_SandboxID c \<noteq> []"
    using syncRoute_events [OF f(5)] that f(3) phases_distinct by (intro exI [of _ h1]) auto
  show ?thesis
    by (intro exI [of _ obj] exI [of _ ?h] exI [of _ ?pod] conjI, fact f(1), fact last, fact pod, fact del)
      (use route f(4) in simp)
qed

lemma demo_deletion:
  "\<exists>x o' pod. Controller_Reconcile (demo_env (Some 5)) \<lparr>Registrar = True\<rparr> [] ''team'' ''box'' =
     (x, [EvPodDelete ''team'' pod, EvUnregister ''box'', EvStatusUpdate (statusOf ((claimOf (demo_claim [] (Some 5)))
        \<lparr>cl_PodName := pod, cl_Phase := ClaimDeleted, cl_ProxyEndpoint := [], cl_ExpiresAt := zero_time, cl_DesiredState := ''Deleted''\<rparr>) (demo_claim [] (Some 5))),
        EvUpdate o']) \<and> Finalizers o' = []"
  by (simp add: Controller_Reconcile_def demo_env_def Reconcile_def reconcileDelete_def Pods_Delete_def syncRoute_def write_status_def finish_def
      claimOf_def demo_claim_def claim_defaults_def statusOf_def containsString_def removeString_def phase_defs label_def ownerLabel_def
      runtimeClassFromClassRef_def time_defs Let_def)

theorem finalizer_removed_last_witness:
  "\<exists>x h'' o'. Controller_Reconcile (demo_env (Some 5)) \<lparr>Registrar = True\<rparr> [] ''team'' ''box'' = (x, h'' @ [EvUpdate o']) \<and>
     claimFinalizer \<notin> set (Finalizers o') \<and> prefix [EvPodDelete ''team'' (DeterministicPodName ''acme'' ''k1'')] h'' \<and> EvUnregister ''box'' \<in> set h''"
proof -
  from demo_deletion obtain x o' h' where d: "Controller_Reconcile (demo_env (Some 5)) \<lparr>Registrar = True\<rparr> [] ''team'' ''box'' = (x, h')"
    "EvUpdate o' \<in> set (run_events [] h')" "Finalizers o' = []" by (auto simp: run_events_def)
  have obj: "env_GetClaim (demo_env (Some 5)) [] ''team'' ''box'' = Inr (demo_claim [] (Some 5))" by (simp add: demo_env_def)
  have sb: "SandboxRef (ObjStatus (demo_claim [] (Some 5))) = ''box''" "StatusPhase (ObjStatus (demo_claim [] (Some 5))) \<noteq> ClaimDeleted"
    "ObjNamespace (demo_claim [] (Some 5)) = ''team''" "label (ObjLabels (demo_claim [] (Some 5))) ''kubebox.io/pod-name'' = []"
    "label (ObjLabels (demo_claim [] (Some 5))) ''kubebox.io/tenant'' = ''acme''" "SpecIdempotencyKey (Spec (demo_claim [] (Some 5))) = ''k1''"
    by (simp_all add: demo_claim_def label_def phase_defs)
  have "claimFinalizer \<notin> set (Finalizers o')" using d(3) by simp
  from finalizer_removed_last [OF d(1,2) this] obj sb obtain h'' h1 where
    "h' = h'' @ [EvUpdate o']" "prefix [EvPodDelete ''team'' (DeterministicPodName ''acme'' ''k1'')] h''" "prefix (h1 @ [EvUnregister ''box'']) h''"
    by (auto simp: Let_def)
  with d show ?thesis by (auto simp: prefix_def)
qed

text \<open>
  Routes are registered for ready pods only: when a reconciliation registers a route,
  the identifier is the claim's name, the target is port 8080 of the address of the pod
  with the deterministic name, and that pod was read as ready, healthy and not being
  deleted.
\<close>

theorem route_registered_when_ready:
  assumes "Controller_Reconcile E r h ns name = (x, h')" and "EvRegister i t \<in> set (run_events h h')"
  shows "\<exists>obj h1 kp pod. env_GetClaim E h ns name = Inr obj \<and>
     pod = DeterministicPodName (label (ObjLabels obj) ''kubebox.io/tenant'') (SpecIdempotencyKey (Spec obj)) \<and>
     prefix (h1 @ [EvPodGet (ObjNamespace obj) pod]) h' \<and> env_PodGet E h1 (ObjNamespace obj) pod = Inr kp \<and>
     pod_Ready (podFromKube kp) \<and> pod_Healthy (podFromKube kp) \<and> kp_DeletionTimestamp kp = None \<and>
     i = ObjName obj \<and> kp_PodIP kp \<noteq> [] \<and> t = ''http://'' @ kp_PodIP kp @ '':8080''"
proof -
  have ne: "h' \<noteq> h" using assms(2) by (auto simp: run_events_def)
  from assms(1) ne show ?thesis
  proof (cases rule: controller_events)
    case (failed obj e c)
    from Reconcile_events [OF failed(2)] assms(2) show ?thesis by (auto simp: pod_event_def)
  next
    case (finished obj b c h1 re h2 adds evs obj')
    from Reconcile_events [OF finished(2)] obtain pevs where pevs: "h1 = h @ pevs" "\<forall>ev \<in> set pevs. pod_event ev" by blast
    from syncRoute_events [OF finished(3)] obtain revs where revs: "h2 = h1 @ revs" by auto
    have "run_events h h' = pevs @ revs @ adds @ evs" using finished(4) pevs(1) revs by simp
    with assms(2) pevs(2) finished(5,6) have "EvRegister i t \<in> set revs" by (auto simp: pod_event_def added_def status_events_def)
    with syncRoute_events [OF finished(3)] revs have ph: "cl_Phase c = ClaimReady" and ip: "cl_PodIP c \<noteq> []"
      and i: "i = cl_SandboxID c" "t = ''http://'' @ cl_PodIP c @ '':8080''" by auto
    obtain h3 kp where f: "pod_history h (provisioned (env_Now E h) (claimOf obj)) h3"
      "h1 = h3 @ [EvPodGet (ObjNamespace obj) (DeterministicPodName (label (ObjLabels obj) ''kubebox.io/tenant'') (SpecIdempotencyKey (Spec obj)))]"
      "env_PodGet E h3 (ObjNamespace obj) (DeterministicPodName (label (ObjLabels obj) ''kubebox.io/tenant'') (SpecIdempotencyKey (Spec obj))) = Inr kp"
      "pod_Ready (podFromKube kp)" "pod_Healthy (podFromKube kp)" "kp_DeletionTimestamp kp = None"
      "cl_SandboxID c = ObjName obj" "cl_PodIP c = kp_PodIP kp"
      using finished(2) ph by (rule ready_outcome)
    with i ip finished(1,4) revs show ?thesis by (intro exI [of _ obj] exI [of _ h3] exI [of _ kp]) auto
  qed
qed

text \<open>The reconciliation of a new claim in the example: the pod is created, read, and its route registered.\<close>

abbreviation demo_name :: string where
  "demo_name \<equiv> DeterministicPodName ''acme'' ''k1''"

lemma demo_pod_ready:
  "pod_Ready (podFromKube demo_pod)" "pod_Healthy (podFromKube demo_pod)" "\<not> pod_Deleted (podFromKube demo_pod)"
  "pod_IP (podFromKube demo_pod) = ''10.0.0.7''"
  by (simp_all add: podFromKube_def demo_pod_def kubePod_def Let_def)

lemma demo_creation:
  "\<exists>x kp rest. Controller_Reconcile (demo_env None) \<lparr>Registrar = True\<rparr> [] ''team'' ''box'' =
     (x, [EvPodGet ''team'' demo_name, EvPodCreate kp, EvPodGet ''team'' demo_name,
          EvRegister ''box'' ''http://10.0.0.7:8080''] @ rest)"
  using demo_pod_ready
  by (simp add: Controller_Reconcile_def demo_env_def Reconcile_def Pods_Get_def Pods_Create_def follow_pod_def syncRoute_def write_status_def finish_def
      claimOf_def demo_claim_def claim_defaults_def statusOf_def containsString_def phase_defs label_def ownerLabel_def
      runtimeClassFromClassRef_def time_defs Let_def)

theorem route_registered_when_ready_witness:
  "\<exists>x h' kp. Controller_Reconcile (demo_env None) \<lparr>Registrar = True\<rparr> [] ''team'' ''box'' = (x, h') \<and>
     EvRegister ''box'' ''http://10.0.0.7:8080'' \<in> set (run_events [] h') \<and> pod_Ready (podFromKube kp) \<and>
     ''http://10.0.0.7:8080'' = ''http://'' @ kp_PodIP kp @ '':8080''"
proof -
  from demo_creation obtain x h' where d: "Controller_Reconcile (demo_env None) \<lparr>Registrar = True\<rparr> [] ''team'' ''box'' = (x, h')"
    "EvRegister ''box'' ''http://10.0.0.7:8080'' \<in> set (run_events [] h')" by (auto simp: run_events_def)
  from route_registered_when_ready [OF d] obtain kp where "pod_Ready (podFromKube kp)" "''http://10.0.0.7:8080'' = ''http://'' @ kp_PodIP kp @ '':8080''" by blast
  with d show ?thesis by blast
qed

text \<open>
  C39. Pods are created sandboxed and once: a reconciliation creates at most one pod, only
  after it was read as missing, under the deterministic name of the claim's tenant and
  key, owned by the claim, in an admitted runtime class, without root, privilege
  escalation, capabilities or a service account token.
\<close>

theorem pods_created_sandboxed:
  assumes "Controller_Reconcile E r h ns name = (x, h')" and "EvPodCreate kp \<in> set (run_events h h')"
  shows "\<exists>obj. env_GetClaim E h ns name = Inr obj \<and>
     kp_Name kp = DeterministicPodName (label (ObjLabels obj) ''kubebox.io/tenant'') (SpecIdempotencyKey (Spec obj)) \<and>
     kp_Namespace kp = ObjNamespace obj \<and> env_PodGet E h (kp_Namespace kp) (kp_Name kp) = Inl IsNotFound \<and>
     kp_RuntimeClassName kp \<in> Some ` {''runc'', ''gvisor'', ''kata''} \<and>
     (ObjUID obj \<noteq> [] \<and> ObjName obj \<noteq> [] \<longrightarrow> map own_UID (kp_OwnerReferences kp) = [ObjUID obj] \<and>
        take 2 (kp_Args kp) = [''--sandbox-id'', ObjName obj]) \<and>
     RunAsNonRoot (kp_SecurityContext kp) \<and> \<not> AllowPrivilegeEscalation (kp_SecurityContext kp) \<and>
     ReadOnlyRootFilesystem (kp_SecurityContext kp) \<and>
     DropCapabilities (kp_SecurityContext kp) = [''ALL''] \<and> \<not> kp_AutomountServiceAccountToken kp \<and>
     length (filter (\<lambda>ev. \<exists>q. ev = EvPodCreate q) (run_events h h')) = 1"
proof -
  from controller_creations [OF assms] obtain obj where obj: "env_GetClaim E h ns name = Inr obj"
    and kp: "kp = kubePod (claimPod (provisioned (env_Now E h) (claimOf obj)))"
    and nf: "env_PodGet E h (cl_Namespace (provisioned (env_Now E h) (claimOf obj))) (cl_PodName (provisioned (env_Now E h) (claimOf obj))) = Inl IsNotFound"
    and one: "length (filter (\<lambda>ev. \<exists>q. ev = EvPodCreate q) (run_events h h')) = 1" by blast
  have rc: "cl_RuntimeClass (claim_defaults t (claimOf obj)) \<in> {''runc'', ''gvisor'', ''kata''}" for t
    by (simp add: claim_defaults_def claimOf_def runtimeClassFromClassRef_def Let_def)
  have fields: "cl_Namespace (claimOf obj) = ObjNamespace obj" "cl_Name (claimOf obj) = ObjName obj" "cl_UID (claimOf obj) = ObjUID obj"
    "cl_TenantID (claimOf obj) = label (ObjLabels obj) ''kubebox.io/tenant''" "cl_IdempotencyKey (claimOf obj) = SpecIdempotencyKey (Spec obj)"
    by (simp_all add: claimOf_def Let_def)
  show ?thesis
    using obj nf one rc [of "env_Now E h"] fields
    by (intro exI [of _ obj]) (auto simp: kp kubePod_def claimPod_def provisioned_def Let_def label_def)
qed

theorem pods_created_sandboxed_witness:
  "\<exists>x h' kp. Controller_Reconcile (demo_env None) \<lparr>Registrar = True\<rparr> [] ''team'' ''box'' = (x, h') \<and>
     EvPodCreate kp \<in> set (run_events [] h') \<and> RunAsNonRoot (kp_SecurityContext kp) \<and> \<not> kp_AutomountServiceAccountToken kp"
proof -
  from demo_creation obtain x h' kp where d: "Controller_Reconcile (demo_env None) \<lparr>Registrar = True\<rparr> [] ''team'' ''box'' = (x, h')"
    "EvPodCreate kp \<in> set (run_events [] h')" unfolding run_events_def by fastforce
  from pods_created_sandboxed [OF d] d show ?thesis by blast
qed

end
