(* ===== verification/Route_Client.thy ===== *)
theory Route_Client
  imports Admin
begin

text \<open>
  The operator's client of the route API, \<open>internal/dataplane/route_client.go\<close>, and its
  composition with the admin handler. The HTTP transport is an argument \<open>send\<close>: the
  response to a request, \<open>None\<close> when the exchange fails; it threads the state \<open>'w\<close> of
  the world behind it. \<open>parse\<close> is \<open>url.Parse\<close>.
\<close>

section \<open>Model\<close>

record ClientRequest =
  cq_Method :: string
  cq_URL :: string
  cq_Header :: Header
  cq_Body :: string

record RouteClient =
  baseURL :: string
  rc_adminSecret :: string

datatype route_error = RequestError | TransportError | RouteAPIError int string

type_synonym 'w send = "ClientRequest \<Rightarrow> 'w \<Rightarrow> Response option \<times> 'w"

definition NewRouteClient :: "(string \<Rightarrow> URL option) \<Rightarrow> string \<Rightarrow> string \<Rightarrow> RouteClient option" where
  "NewRouteClient parse base sec =
     (if base = [] \<or> sec = [] then None
      else if parse base = None then None
      else Some \<lparr>baseURL = TrimRight base (CHR ''/''), rc_adminSecret = sec\<rparr>)"

definition success :: "Response \<Rightarrow> bool" where
  "success resp \<longleftrightarrow> 200 \<le> rs_Status resp \<and> rs_Status resp < 300"

definition decodeError :: "Response \<Rightarrow> route_error" where
  "decodeError resp = RouteAPIError (rs_Status resp) (TrimSpace (take 4096 (rs_Body resp)))"

definition client_do :: "'w send \<Rightarrow> ClientRequest \<Rightarrow> 'w \<Rightarrow> route_error option \<times> 'w" where
  "client_do send req w =
     (case send req w of
        (None, w) \<Rightarrow> (Some TransportError, w)
      | (Some resp, w) \<Rightarrow> (if success resp then None else Some (decodeError resp), w))"

definition Register ::
  "(string \<Rightarrow> URL option) \<Rightarrow> 'w send \<Rightarrow> RouteClient \<Rightarrow> string \<Rightarrow> string \<Rightarrow> 'w \<Rightarrow> route_error option \<times> 'w" where
  "Register parse send c sandboxID target w =
     (let body = json_map (fmupd ''sandboxId'' sandboxID (fmupd ''target'' target fmempty));
          u = baseURL c @ ''/internal/v1/routes''
      in if parse u = None then (Some RequestError, w)
         else
           let h = Header_Set (Header_Set Map.empty ''Content-Type'' ''application/json'') ''X-Kubebox-Admin-Token'' (rc_adminSecret c)
           in client_do send \<lparr>cq_Method = ''POST'', cq_URL = u, cq_Header = h, cq_Body = body\<rparr> w)"

text \<open>\<open>url.PathEscape\<close> and the decoding of a path on the server.\<close>

definition unescapedInPath :: "char \<Rightarrow> bool" where
  "unescapedInPath c =
     (let b = of_char c :: nat in
      48 \<le> b \<and> b \<le> 57 \<or> 65 \<le> b \<and> b \<le> 90 \<or> 97 \<le> b \<and> b \<le> 122 \<or>
      c \<in> set ''-_.~$&+:=@'')"

definition upper_hex :: "nat \<Rightarrow> char" where
  "upper_hex d = ''0123456789ABCDEF'' ! d"

fun PathEscape :: "string \<Rightarrow> string" where
  "PathEscape [] = []"
| "PathEscape (c # s) =
     (if unescapedInPath c then c # PathEscape s
      else CHR ''%'' # upper_hex (of_char c div 16) # upper_hex (of_char c mod 16) # PathEscape s)"

fun PathUnescape :: "string \<Rightarrow> string option" where
  "PathUnescape [] = Some []"
| "PathUnescape (c # s) =
     (if c = CHR ''%'' then
        (case s of
           a # b # r \<Rightarrow>
             (case (hex_value a, hex_value b) of
                (Some x, Some y) \<Rightarrow> map_option (\<lambda>t. char_of (x * 16 + y) # t) (PathUnescape r)
              | _ \<Rightarrow> None)
         | _ \<Rightarrow> None)
      else map_option (\<lambda>t. c # t) (PathUnescape s))"

definition Unregister ::
  "(string \<Rightarrow> URL option) \<Rightarrow> 'w send \<Rightarrow> RouteClient \<Rightarrow> string \<Rightarrow> 'w \<Rightarrow> route_error option \<times> 'w" where
  "Unregister parse send c sandboxID w =
     (let u = baseURL c @ ''/internal/v1/routes/'' @ PathEscape sandboxID in
      if parse u = None then (Some RequestError, w)
      else
        let h = Header_Set Map.empty ''X-Kubebox-Admin-Token'' (rc_adminSecret c)
        in case send \<lparr>cq_Method = ''DELETE'', cq_URL = u, cq_Header = h, cq_Body = []\<rparr> w of
             (None, w) \<Rightarrow> (Some TransportError, w)
           | (Some resp, w) \<Rightarrow>
               if rs_Status resp = StatusNotFound then (None, w)
               else if success resp then (None, w)
               else (Some (decodeError resp), w))"

section \<open>Delivery to the admin handler\<close>

text \<open>
  The transport to an envd-proxy at \<open>base\<close>: the server decodes the path behind the base
  URL and calls the admin handler.
\<close>

definition deliver :: "(string \<Rightarrow> URL option) \<Rightarrow> (URL \<Rightarrow> string) \<Rightarrow> string \<Rightarrow> Admin send" where
  "deliver parse encodeURL base req a =
     (if \<not> HasPrefix (cq_URL req) base then (None, a)
      else
        let esc = TrimPrefix (cq_URL req) base in
        case PathUnescape esc of
          None \<Rightarrow> (None, a)
        | Some path \<Rightarrow>
            (case Admin_ServeHTTP parse encodeURL a
                \<lparr>rq_Method = cq_Method req, rq_Path = path, rq_EscapedPath = esc, rq_RawQuery = [], rq_Query = Map.empty,
                 rq_Header = cq_Header req, rq_Body = cq_Body req, rq_BodyErr = False, rq_ClientIP = None\<rparr> of
               (resp, a) \<Rightarrow> (Some resp, a)))"

lemma upper_hex_value: "d < 16 \<Longrightarrow> hex_value (upper_hex d) = Some d"
proof -
  assume "d < 16"
  then have "d \<in> set [0..<16]" by simp
  moreover have "list_all (\<lambda>d. hex_value (upper_hex d) = Some d) [0..<16]" by code_simp
  ultimately show ?thesis by (simp only: list_all_iff)
qed

lemma PathUnescape_PathEscape: "PathUnescape (PathEscape s) = Some s"
proof (induction s)
  case (Cons c s)
  have "(of_char c :: nat) div 16 < 16" using nat_of_char_less_256 [of c] by (simp add: less_mult_imp_div_less)
  moreover have "\<not> unescapedInPath (CHR ''%'')" by code_simp
  moreover have "char_of ((of_char c :: nat) div 16 * 16 + of_char c mod 16) = c" by (simp add: div_mult_mod_eq)
  ultimately show ?case using Cons by (auto simp: upper_hex_value)
qed simp

lemma PathUnescape_append_plain: "CHR ''%'' \<notin> set p \<Longrightarrow> PathUnescape (p @ s) = map_option (\<lambda>t. p @ t) (PathUnescape s)"
proof (induction p)
  case Nil
  show ?case by (cases "PathUnescape s") simp_all
next
  case (Cons a p)
  then have "a \<noteq> CHR ''%''" by auto
  with Cons show ?case by (cases "PathUnescape s") simp_all
qed

lemma sandboxId_before_target: "sorted_list_of_fset {|''sandboxId'', ''target''|} = [''sandboxId'', ''target'']"
  by (simp add: sorted_list_of_fset.rep_eq)

declare PathUnescape.simps [simp del]

text \<open>What a registration and an unregistration do when they are delivered.\<close>

lemma register_body:
  "json_map (fmupd ''sandboxId'' i (fmupd ''target'' t fmempty)) =
     json_object [(''sandboxId'', json_string i), (''target'', json_string t)]"
  by (simp add: json_map_def sandboxId_before_target)

lemma Register_delivered:
  assumes "parse (baseURL c @ ''/internal/v1/routes'') \<noteq> None" and "rc_adminSecret c = adminSecret a" and "adminSecret a \<noteq> []"
    and "utf8_valid i" and "utf8_valid t" and "i \<noteq> []" and "t \<noteq> []" and "parse t = Some u"
    and "length (json_object [(''sandboxId'', json_string i), (''target'', json_string t)]) \<le> 65536"
  shows "Register parse (deliver parse enc (baseURL c)) c i t a =
     (case Reg_Set (ad_Routes a) i (Some u) of
        None \<Rightarrow> (Some (decodeError (jsonError StatusBadRequest ''invalid envd route'')), a)
      | Some rts \<Rightarrow> (None, a\<lparr>ad_Routes := rts\<rparr>))"
proof -
  let ?body = "json_object [(''sandboxId'', json_string i), (''target'', json_string t)]"
  let ?h = "Header_Set (Header_Set Map.empty ''Content-Type'' ''application/json'') ''X-Kubebox-Admin-Token'' (rc_adminSecret c)"
  let ?r = "\<lparr>rq_Method = ''POST'', rq_Path = ''/internal/v1/routes'', rq_EscapedPath = ''/internal/v1/routes'', rq_RawQuery = [],
     rq_Query = Map.empty, rq_Header = ?h, rq_Body = ?body, rq_BodyErr = False, rq_ClientIP = None\<rparr>"
  have "Header_Get ?h ''X-Kubebox-Admin-Token'' = adminSecret a" using assms(2) by (simp add: Header_Get_Set)
  then have au: "authorized a ?r" using assms(3) by (simp add: authorized_iff)
  have "readLimited 65536 ?r = Some ?body" using assms(9) by (simp add: readLimited_def)
  then have srv: "Admin_ServeHTTP parse enc a ?r =
      (case Reg_Set (ad_Routes a) i (Some u) of
         None \<Rightarrow> (jsonError StatusBadRequest ''invalid envd route'', a)
       | Some rts \<Rightarrow> (writeJSON StatusCreated (json_field ''status'' ''registered''), a\<lparr>ad_Routes := rts\<rparr>))"
    using au assms unmarshalRegister_map [OF assms(4,5)]
    by (simp add: Admin_ServeHTTP_def handleRoutes_def handleRegister_def)
  have esc: "PathUnescape ''/internal/v1/routes'' = Some ''/internal/v1/routes''" by code_simp
  have "deliver parse enc (baseURL c) \<lparr>cq_Method = ''POST'', cq_URL = baseURL c @ ''/internal/v1/routes'', cq_Header = ?h, cq_Body = ?body\<rparr> a =
      (case Reg_Set (ad_Routes a) i (Some u) of
         None \<Rightarrow> (Some (jsonError StatusBadRequest ''invalid envd route''), a)
       | Some rts \<Rightarrow> (Some (writeJSON StatusCreated (json_field ''status'' ''registered'')), a\<lparr>ad_Routes := rts\<rparr>))"
    unfolding deliver_def by (simp add: esc srv split: option.split)
  with assms(1) show ?thesis
    by (auto simp: Register_def client_do_def register_body Let_def success_def status_defs split: option.split)
qed

lemma Admin_delete:
  assumes "authorized a r" and "rq_Method r = ''DELETE''" and path: "rq_Path r = ''/internal/v1/routes/'' @ i"
    and "i \<noteq> []" and "CHR ''/'' \<notin> set i"
  shows "Admin_ServeHTTP parse enc a r =
      (if Reg_Get (ad_Routes a) i = None then (jsonError StatusNotFound ''route not found'', a)
       else (writeJSON StatusOK (json_field ''status'' ''unregistered''), a\<lparr>ad_Routes := Reg_Delete (ad_Routes a) i\<rparr>))"
proof -
  have "TrimPrefix (rq_Path r) ''/internal/v1/routes/'' = i" "HasPrefix (rq_Path r) ''/internal/v1/routes/''"
    unfolding path by (rule TrimPrefix_append, rule HasPrefix_append)
  moreover from this assms(4) have "rq_Path r \<noteq> ''/healthz''" "rq_Path r \<noteq> ''/internal/v1/routes''" by (auto simp: path)
  ultimately show ?thesis
    using assms(1,2,4,5) Contains_single [of i "CHR ''/''"]
    by (simp add: Admin_ServeHTTP_def handleRouteInstance_def Reg_Unregister_eq split: bool.split)
qed

lemma Unregister_delivered:
  assumes "parse (baseURL c @ ''/internal/v1/routes/'' @ PathEscape i) \<noteq> None" and "rc_adminSecret c = adminSecret a"
    and "adminSecret a \<noteq> []" and "i \<noteq> []" and "CHR ''/'' \<notin> set i"
  shows "Unregister parse (deliver parse enc (baseURL c)) c i a = (None, a\<lparr>ad_Routes := Reg_Delete (ad_Routes a) i\<rparr>)"
proof -
  define h where "h = Header_Set Map.empty ''X-Kubebox-Admin-Token'' (rc_adminSecret c)"
  define esc where "esc = ''/internal/v1/routes/'' @ PathEscape i"
  define path where "path = ''/internal/v1/routes/'' @ i"
  define r where "r = \<lparr>rq_Method = ''DELETE'', rq_Path = path, rq_EscapedPath = esc, rq_RawQuery = [],
     rq_Query = Map.empty, rq_Header = h, rq_Body = [], rq_BodyErr = False, rq_ClientIP = None\<rparr>"
  have "Header_Get h ''X-Kubebox-Admin-Token'' = adminSecret a" using assms(2) by (simp add: h_def Header_Get_Set)
  then have au: "authorized a r" using assms(3) by (simp add: authorized_iff r_def)
  have srv: "Admin_ServeHTTP parse enc a r =
      (if Reg_Get (ad_Routes a) i = None then (jsonError StatusNotFound ''route not found'', a)
       else (writeJSON StatusOK (json_field ''status'' ''unregistered''), a\<lparr>ad_Routes := Reg_Delete (ad_Routes a) i\<rparr>))"
    using au assms(4,5) by (intro Admin_delete) (simp_all add: r_def path_def)
  have "PathUnescape esc = Some path"
    using PathUnescape_append_plain [of "''/internal/v1/routes/''" "PathEscape i"]
    by (simp add: esc_def path_def PathUnescape_PathEscape)
  then have dl: "deliver parse enc (baseURL c) \<lparr>cq_Method = ''DELETE'', cq_URL = baseURL c @ esc, cq_Header = h, cq_Body = []\<rparr> a =
      (case Admin_ServeHTTP parse enc a r of (resp, a) \<Rightarrow> (Some resp, a))"
    by (simp add: deliver_def r_def)
  have "Unregister parse (deliver parse enc (baseURL c)) c i a =
      (if Reg_Get (ad_Routes a) i = None then (None, a) else (None, a\<lparr>ad_Routes := Reg_Delete (ad_Routes a) i\<rparr>))"
    using assms(1) unfolding Unregister_def Let_def h_def [symmetric] esc_def [symmetric] dl srv
    by (auto simp: success_def status_defs)
  moreover have "Reg_Get (ad_Routes a) i = None \<Longrightarrow> Reg_Delete (ad_Routes a) i = ad_Routes a"
    using Reg_Unregister_eq [of "ad_Routes a" i] by (simp add: Reg_Unregister_def Reg_Get_def)
  ultimately show ?thesis by auto
qed


section \<open>Properties\<close>

text \<open>A concrete library: \<open>url.Parse\<close> restricted to plain \<open>http\<close> URLs, and an encoder.\<close>

definition demo_parse_url :: "string \<Rightarrow> URL option" where
  "demo_parse_url s =
     (if HasPrefix s ''http://'' then
        let rest = TrimPrefix s ''http://'';
            host = takeWhile (\<lambda>c. c \<noteq> CHR ''/'') rest
        in Some \<lparr>u_Scheme = ''http'', u_User = None, u_Host = host, u_Path = drop (length host) rest,
                 u_RawQuery = [], u_Fragment = []\<rparr>
      else None)"

definition demo_admin :: Admin where
  "demo_admin = NewAdmin NewRouteRegistry ''s3cret''"

definition demo_client :: RouteClient where
  "demo_client = \<lparr>baseURL = ''http://proxy:8080'', rc_adminSecret = ''s3cret''\<rparr>"

definition demo_target :: URL where
  "demo_target = \<lparr>u_Scheme = ''http'', u_User = None, u_Host = ''10.0.0.7:8081'', u_Path = [], u_RawQuery = [], u_Fragment = []\<rparr>"

lemma demo_parse_target: "demo_parse_url ''http://10.0.0.7:8081'' = Some demo_target"
  by code_simp

text \<open>
  The route API changes nothing for a caller without the admin secret: with an empty
  secret configured, or another token in the request, every request leaves the routes
  alone and is refused, the health check excepted.
\<close>

theorem admin_requires_secret:
  assumes "adminSecret a = [] \<or> Header_Get (rq_Header r) ''X-Kubebox-Admin-Token'' \<noteq> adminSecret a"
  shows "snd (Admin_ServeHTTP parse enc a r) = a \<and>
         (rs_Status (fst (Admin_ServeHTTP parse enc a r)) \<in> {StatusUnauthorized, StatusMethodNotAllowed, StatusNotFound} \<or>
          rq_Path r = ''/healthz'')"
proof -
  have "\<not> authorized a r" using assms by (auto simp: authorized_iff)
  then show ?thesis by (auto simp: admin_defs)
qed

theorem admin_requires_secret_witness:
  "snd (Admin_ServeHTTP demo_parse_url (\<lambda>_. ''{}'') demo_admin
     \<lparr>rq_Method = ''POST'', rq_Path = ''/internal/v1/routes'', rq_EscapedPath = ''/internal/v1/routes'', rq_RawQuery = [],
      rq_Query = Map.empty, rq_Header = Map.empty, rq_Body = [], rq_BodyErr = False, rq_ClientIP = None\<rparr>) = demo_admin"
  by (rule conjunct1 [OF admin_requires_secret]) (simp add: demo_admin_def NewAdmin_def header_defs)

text \<open>
  Registration reaches the proxy: \<open>RouteClient.Register\<close> with the shared secret, sent
  to the admin handler, succeeds exactly for a valid target, which is then the sandbox's
  route without its user information; every other route is as before, and the stored
  routes stay well formed.
\<close>

theorem register_end_to_end:
  assumes "parse (baseURL c @ ''/internal/v1/routes'') \<noteq> None" and "rc_adminSecret c = adminSecret a" and "adminSecret a \<noteq> []"
    and "utf8_valid i" and "utf8_valid t" and "i \<noteq> []" and "t \<noteq> []" and "parse t = Some u" and "reg_inv (ad_Routes a)"
    and "length (json_object [(''sandboxId'', json_string i), (''target'', json_string t)]) \<le> 65536"
    and "Register parse (deliver parse enc (baseURL c)) c i t a = (err, a')"
  shows "(err = None \<longleftrightarrow> valid_target u) \<and> reg_inv (ad_Routes a') \<and>
         Reg_Get (ad_Routes a') j = (if j = i \<and> valid_target u then Some (clean_target u) else Reg_Get (ad_Routes a) j)"
proof (cases "Reg_Set (ad_Routes a) i (Some u)")
  case None
  with rt.register_iff [of "ad_Routes a" i "Some u"] assms(6) have "\<not> valid_target u" by auto
  with None assms(9,11) Register_delivered [OF assms(1-8,10), of enc] show ?thesis by auto
next
  case (Some rts)
  with rt.register_iff [of "ad_Routes a" i "Some u"] have "valid_target u" by auto
  with Some assms(9,11) Register_delivered [OF assms(1-8,10), of enc] show ?thesis
    using rt.lookup_register [OF Some, of j] reg_inv_Set [OF assms(9) Some] by auto
qed

theorem register_end_to_end_witness:
  "\<exists>a'. Register demo_parse_url (deliver demo_parse_url (\<lambda>_. ''{}'') (baseURL demo_client)) demo_client ''sbx-1'' ''http://10.0.0.7:8081'' demo_admin = (None, a') \<and>
     Reg_Get (ad_Routes a') ''sbx-1'' = Some demo_target"
proof -
  obtain err a' where r: "Register demo_parse_url (deliver demo_parse_url (\<lambda>_. ''{}'') (baseURL demo_client)) demo_client ''sbx-1'' ''http://10.0.0.7:8081'' demo_admin = (err, a')"
    by fastforce
  have "demo_parse_url (baseURL demo_client @ ''/internal/v1/routes'') \<noteq> None"
    by (simp add: demo_client_def demo_parse_url_def HasPrefix_def Let_def)
  moreover have "rc_adminSecret demo_client = adminSecret demo_admin" "adminSecret demo_admin \<noteq> []" "reg_inv (ad_Routes demo_admin)"
    by (simp_all add: demo_client_def demo_admin_def NewAdmin_def reg_inv_New)
  moreover have "length (json_object [(''sandboxId'', json_string ''sbx-1''), (''target'', json_string ''http://10.0.0.7:8081'')]) \<le> 65536"
  proof -
    have "length (json_object [(''sandboxId'', json_string ''sbx-1''), (''target'', json_string ''http://10.0.0.7:8081'')]) \<le> 60"
      by code_simp
    then show ?thesis by simp
  qed
  moreover have "valid_target demo_target" "clean_target demo_target = demo_target"
    by (simp_all add: demo_target_def valid_target_def clean_target_def)
  ultimately show ?thesis
    using register_end_to_end [OF _ _ _ _ _ _ _ demo_parse_target _ _ r, of "''sbx-1''"] r
    by (simp add: utf8_valid_ascii)
qed

text \<open>
  Unregistration is idempotent: \<open>RouteClient.Unregister\<close> with the shared secret always
  succeeds for a sandbox identifier without a slash, whether or not the route existed,
  and removes this route and no other.
\<close>

theorem unregister_end_to_end:
  assumes "parse (baseURL c @ ''/internal/v1/routes/'' @ PathEscape i) \<noteq> None" and "rc_adminSecret c = adminSecret a"
    and "adminSecret a \<noteq> []" and "i \<noteq> []" and "CHR ''/'' \<notin> set i"
  shows "\<exists>a'. Unregister parse (deliver parse enc (baseURL c)) c i a = (None, a') \<and>
           (\<forall>j. Reg_Get (ad_Routes a') j = (if j = i then None else Reg_Get (ad_Routes a) j)) \<and>
           Unregister parse (deliver parse enc (baseURL c)) c i a' = (None, a')"
proof -
  let ?a = "a\<lparr>ad_Routes := Reg_Delete (ad_Routes a) i\<rparr>"
  have "Unregister parse (deliver parse enc (baseURL c)) c i ?a = (None, ?a\<lparr>ad_Routes := Reg_Delete (ad_Routes ?a) i\<rparr>)"
    using assms by (intro Unregister_delivered) simp_all
  then have "Unregister parse (deliver parse enc (baseURL c)) c i ?a = (None, ?a)" by (simp add: Reg_Delete_def)
  moreover have "Unregister parse (deliver parse enc (baseURL c)) c i a = (None, ?a)"
    using assms by (rule Unregister_delivered)
  ultimately show ?thesis by (intro exI [of _ ?a]) simp
qed

theorem unregister_end_to_end_witness:
  "\<exists>a'. Unregister demo_parse_url (deliver demo_parse_url (\<lambda>_. ''{}'') (baseURL demo_client)) demo_client ''sbx-1'' demo_admin = (None, a')"
proof -
  have "demo_parse_url (baseURL demo_client @ ''/internal/v1/routes/'' @ PathEscape ''sbx-1'') \<noteq> None"
    by (simp add: demo_client_def demo_parse_url_def HasPrefix_def Let_def)
  moreover have "rc_adminSecret demo_client = adminSecret demo_admin" "adminSecret demo_admin \<noteq> []"
    by (simp_all add: demo_client_def demo_admin_def NewAdmin_def)
  ultimately show ?thesis
    using unregister_end_to_end [of demo_parse_url demo_client "''sbx-1''" demo_admin "\<lambda>_. ''{}''"] by auto
qed

end
