(* ===== verification/Operator_Edge.thy ===== *)
theory Operator_Edge
  imports Operator_Claims Route_Client Commands
begin

text \<open>
  The operator in front of envd-proxy: \<open>cmd/controller/main.go\<close> and
  \<open>internal/operator/setup.go\<close>, the registrar the controller gets, and the public listener
  as the other end of the route client. A request of the route client may be lost on its
  way, or its answer may be; the controller then tries again.
\<close>

section \<open>cmd/controller\<close>

record Flags =
  metricsAddr :: string
  probeAddr :: string
  enableLeaderElection :: bool
  enableWebhook :: bool
  webhookCertDir :: string
  webhookPort :: int

definition defaultFlags :: Flags where
  "defaultFlags = \<lparr>metricsAddr = '':8080'', probeAddr = '':8081'', enableLeaderElection = False, enableWebhook = False,
     webhookCertDir = ''/tmp/k8s-webhook-server/serving-certs'', webhookPort = 9443\<rparr>"

record ManagerOptions =
  LeaderElection :: bool
  LeaderElectionID :: string
  MetricsBindAddress :: string
  HealthProbeBindAddress :: string
  WebhookServer :: "(int \<times> string) option" \<comment> \<open>port and certificate directory\<close>

text \<open>
  The manager of controller-runtime is an argument: for each call the error it gives, if
  any. \<open>Start\<close> returns when the process is told to stop.
\<close>

record Manager =
  mgr_New :: "ManagerOptions \<Rightarrow> string option"
  mgr_Controller :: "string option"
  mgr_Webhook :: "string option"
  mgr_Healthz :: "string option"
  mgr_Readyz :: "string option"
  mgr_Start :: "string option"

definition SetupWithManager :: "Manager \<Rightarrow> SandboxClaimReconciler \<Rightarrow> string option" where
  \<comment> \<open>the manager's client is set already; the builder watches claims and their pods\<close>
  "SetupWithManager mgr r = mgr_Controller mgr"

definition SetupManager :: "Manager \<Rightarrow> RouteClient option \<Rightarrow> string option \<times> SandboxClaimReconciler" where
  "SetupManager mgr registrar =
     (let r = \<lparr>Registrar = (registrar \<noteq> None)\<rparr> in (SetupWithManager mgr r, r))"

definition SetupWebhook :: "Manager \<Rightarrow> string option" where
  "SetupWebhook mgr = mgr_Webhook mgr"

datatype controller_error =
    UnableToStartManager string
  | UnableToConfigureRouteClient
  | UnableToSetUpController string
  | UnableToSetUpWebhook string
  | UnableToSetUpHealthCheck string
  | UnableToSetUpReadyCheck string
  | ProblemRunningManager string

definition managerOptions :: "Flags \<Rightarrow> ManagerOptions" where
  "managerOptions fl =
     \<lparr>LeaderElection = enableLeaderElection fl, LeaderElectionID = ''kubebox-controller.sandbox.kubebox.io'',
      MetricsBindAddress = metricsAddr fl, HealthProbeBindAddress = probeAddr fl,
      WebhookServer = (if enableWebhook fl then Some (webhookPort fl, webhookCertDir fl) else None)\<rparr>"

definition controller_registrar ::
  "(string \<Rightarrow> URL option) \<Rightarrow> (string \<Rightarrow> string) \<Rightarrow> (controller_error, RouteClient option) result" where
  "controller_registrar parse getenv =
     (let proxyURL = getenv ''KUBEBOX_ENVD_PROXY_URL'' in
      if proxyURL = [] then Inr None
      else (case NewRouteClient parse proxyURL (getenv ''KUBEBOX_ADMIN_SECRET'') of
              None \<Rightarrow> Inl UnableToConfigureRouteClient
            | Some client \<Rightarrow> Inr (Some client)))"

text \<open>An error ends the process with status 1; otherwise the controller that ran, and its registrar.\<close>

definition controller_main ::
  "Manager \<Rightarrow> (string \<Rightarrow> URL option) \<Rightarrow> (string \<Rightarrow> string) \<Rightarrow> Flags
     \<Rightarrow> (controller_error, SandboxClaimReconciler \<times> RouteClient option) result" where
  "controller_main mgr parse getenv fl =
     (case mgr_New mgr (managerOptions fl) of
        Some err \<Rightarrow> Inl (UnableToStartManager err)
      | None \<Rightarrow>
          (case controller_registrar parse getenv of
             Inl err \<Rightarrow> Inl err
           | Inr registrar \<Rightarrow>
               (case SetupManager mgr registrar of
                  (Some err, _) \<Rightarrow> Inl (UnableToSetUpController err)
                | (None, r) \<Rightarrow>
                    (case (if enableWebhook fl then SetupWebhook mgr else None) of
                       Some err \<Rightarrow> Inl (UnableToSetUpWebhook err)
                     | None \<Rightarrow>
                         (case mgr_Healthz mgr of
                            Some err \<Rightarrow> Inl (UnableToSetUpHealthCheck err)
                          | None \<Rightarrow>
                              (case mgr_Readyz mgr of
                                 Some err \<Rightarrow> Inl (UnableToSetUpReadyCheck err)
                               | None \<Rightarrow>
                                   (case mgr_Start mgr of
                                      Some err \<Rightarrow> Inl (ProblemRunningManager err)
                                    | None \<Rightarrow> Inr (r, registrar))))))))"

lemma controller_main_registrar:
  assumes "controller_main mgr parse getenv fl = Inr (r, reg)"
  shows "Registrar r \<longleftrightarrow> getenv ''KUBEBOX_ENVD_PROXY_URL'' \<noteq> []" and "Registrar r \<longleftrightarrow> reg \<noteq> None"
    and "\<And>c. reg = Some c \<Longrightarrow> rc_adminSecret c = getenv ''KUBEBOX_ADMIN_SECRET'' \<and> rc_adminSecret c \<noteq> [] \<and>
      baseURL c = TrimRight (getenv ''KUBEBOX_ENVD_PROXY_URL'') (CHR ''/'')"
  using assms
  by (auto simp: controller_main_def controller_registrar_def SetupManager_def NewRouteClient_def Let_def
      split: option.splits sum.splits if_splits)

section \<open>The listener behind the route client\<close>

datatype fate = Delivered | Lost | ReplyLost

record World =
  w_parse :: "string \<Rightarrow> URL option"
  w_encode :: "URL \<Rightarrow> string"
  w_now :: time
  w_backend :: "OutRequest \<Rightarrow> Response option"
  w_fate :: "ClientRequest \<Rightarrow> Edge \<Rightarrow> fate"
  w_text :: "route_error \<Rightarrow> string"

definition edge_send :: "World \<Rightarrow> string \<Rightarrow> Edge send" where
  "edge_send W base req e =
     (if w_fate W req e = Lost \<or> \<not> HasPrefix (cq_URL req) base then (None, e)
      else
        let esc = TrimPrefix (cq_URL req) base in
        case PathUnescape esc of
          None \<Rightarrow> (None, e)
        | Some path \<Rightarrow>
            (case edge_handler (w_parse W) (w_encode W) (w_now W) (w_backend W) e
                \<lparr>rq_Method = cq_Method req, rq_Path = path, rq_EscapedPath = esc, rq_RawQuery = [], rq_Query = Map.empty,
                 rq_Header = cq_Header req, rq_Body = cq_Body req, rq_BodyErr = False, rq_ClientIP = None\<rparr> of
               (resp, out, e') \<Rightarrow> (if w_fate W req e = Delivered then Some resp else None, e')))"

text \<open>
  The registrar of the controller: its answer after a history is that of the route client
  in the state the calls of the history left the listener in.
\<close>

definition edge_event :: "World \<Rightarrow> RouteClient \<Rightarrow> Edge \<Rightarrow> event \<Rightarrow> Edge" where
  "edge_event W c e ev =
     (case ev of
        EvRegister i t \<Rightarrow> snd (Register (w_parse W) (edge_send W (baseURL c)) c i t e)
      | EvUnregister i \<Rightarrow> snd (Unregister (w_parse W) (edge_send W (baseURL c)) c i e)
      | _ \<Rightarrow> e)"

definition edge_at :: "World \<Rightarrow> RouteClient \<Rightarrow> Edge \<Rightarrow> event list \<Rightarrow> Edge" where
  "edge_at W c e h = foldl (edge_event W c) e h"

definition with_registrar :: "World \<Rightarrow> RouteClient \<Rightarrow> Edge \<Rightarrow> Env \<Rightarrow> Env" where
  "with_registrar W c e E = E
     \<lparr>env_Register := \<lambda>h i t. map_option (w_text W) (fst (Register (w_parse W) (edge_send W (baseURL c)) c i t (edge_at W c e h))),
      env_Unregister := \<lambda>h i. map_option (w_text W) (fst (Unregister (w_parse W) (edge_send W (baseURL c)) c i (edge_at W c e h)))\<rparr>"

lemma edge_at_append [simp]: "edge_at W c e (h @ h') = edge_at W c (edge_at W c e h) h'"
  by (simp add: edge_at_def)

lemma edge_at_quiet: "\<forall>ev \<in> set h. \<not> route_event ev \<Longrightarrow> edge_at W c e h = e"
proof (induction h arbitrary: e)
  case (Cons ev h)
  then have "edge_event W c e ev = e" by (cases ev) (auto simp: edge_event_def route_event_def)
  with Cons show ?case by (simp add: edge_at_def)
qed (simp add: edge_at_def)

text \<open>Requests to the route API reach the admin handler of the listener.\<close>

definition edge_admin :: "Edge \<Rightarrow> Admin" where
  "edge_admin e = NewAdmin (ed_Routes e) (ed_adminSecret e)"

definition with_routes :: "Edge \<Rightarrow> RouteRegistry \<Rightarrow> Edge" where
  "with_routes e rts = e\<lparr>ed_Monitor := (ed_Monitor e)\<lparr>hm_Routes := rts\<rparr>\<rparr>"

lemma with_routes_simps [simp]:
  "ed_Routes (with_routes e rts) = rts" "ed_adminSecret (with_routes e rts) = ed_adminSecret e" "ed_Issuer (with_routes e rts) = ed_Issuer e"
  by (simp_all add: with_routes_def)

lemma edge_admin_simps [simp]: "ad_Routes (edge_admin e) = ed_Routes e" "adminSecret (edge_admin e) = ed_adminSecret e"
  by (simp_all add: edge_admin_def NewAdmin_def)

lemma edge_send_deliver:
  assumes "cq_URL req = base @ esc" and "PathUnescape esc = Some path" and "HasPrefix path ''/internal/''"
  shows "edge_send W base req e =
     (if w_fate W req e = Lost then (None, e)
      else (case deliver (w_parse W) (w_encode W) base req (edge_admin e) of
              (resp, a) \<Rightarrow> (if w_fate W req e = Delivered then resp else None, with_routes e (ad_Routes a))))"
proof -
  have "HasPrefix (cq_URL req) base" "TrimPrefix (cq_URL req) base = esc"
    unfolding assms(1) by (rule HasPrefix_append, rule TrimPrefix_append)
  with assms(2,3) show ?thesis
    by (auto simp: edge_send_def deliver_def edge_handler_def edge_admin_def with_routes_def split: prod.split)
qed

lemma edge_handler_secret:
  "edge_handler parse enc now backend e r = (resp, out, e') \<Longrightarrow> ed_adminSecret e' = ed_adminSecret e \<and> ed_Issuer e' = ed_Issuer e"
  by (auto simp: edge_handler_def split: if_splits prod.splits)

lemma edge_send_secret: "ed_adminSecret (snd (edge_send W base req e)) = ed_adminSecret e"
  by (auto simp: edge_send_def Let_def dest: edge_handler_secret split: option.split prod.split)

lemma edge_at_secret: "ed_adminSecret (edge_at W c e h) = ed_adminSecret e"
proof (induction h arbitrary: e)
  case (Cons ev h)
  have "ed_adminSecret (edge_event W c e ev) = ed_adminSecret e"
    using edge_send_secret [of W "baseURL c" _ e]
    by (auto simp: edge_event_def Register_def Unregister_def client_do_def Let_def split: event.split prod.split option.split)
      (metis snd_conv)+
  with Cons show ?case by (simp add: edge_at_def)
qed (simp add: edge_at_def)

lemma Register_edge:
  assumes "Register (w_parse W) (edge_send W (baseURL c)) c i t e = (None, e')"
  shows "\<exists>a. Register (w_parse W) (deliver (w_parse W) (w_encode W) (baseURL c)) c i t (edge_admin e) = (None, a) \<and>
    e' = with_routes e (ad_Routes a)"
proof -
  let ?esc = "''/internal/v1/routes''"
  have "PathUnescape ?esc = Some ?esc" "HasPrefix ?esc ''/internal/''" by code_simp+
  note send = edge_send_deliver [OF _ this, of _ "baseURL c" W e]
  from assms show ?thesis
    by (auto simp: Register_def client_do_def send Let_def split: if_splits option.splits prod.splits)
qed

lemma route_path:
  "PathUnescape (''/internal/v1/routes/'' @ PathEscape i) = Some (''/internal/v1/routes/'' @ i)"
  "HasPrefix (''/internal/v1/routes/'' @ i) ''/internal/''"
  using PathUnescape_append_plain [of "''/internal/v1/routes/''" "PathEscape i"]
  by (simp_all add: PathUnescape_PathEscape HasPrefix_def)

lemma Unregister_edge:
  assumes "Unregister (w_parse W) (edge_send W (baseURL c)) c i e = (None, e')"
  shows "\<exists>a. Unregister (w_parse W) (deliver (w_parse W) (w_encode W) (baseURL c)) c i (edge_admin e) = (None, a) \<and>
    e' = with_routes e (ad_Routes a)"
proof -
  note send = edge_send_deliver [OF _ route_path, of _ "baseURL c" i W e]
  from assms show ?thesis
    by (auto simp: Unregister_def send Let_def split: if_splits option.splits prod.splits)
qed

text \<open>When nothing is lost, the client gets the answer of the admin handler.\<close>

lemma Register_edge_delivered:
  assumes "\<And>req e. w_fate W req e = Delivered"
  shows "Register (w_parse W) (edge_send W (baseURL c)) c i t e =
    (case Register (w_parse W) (deliver (w_parse W) (w_encode W) (baseURL c)) c i t (edge_admin e) of
       (err, a) \<Rightarrow> (err, with_routes e (ad_Routes a)))"
proof -
  let ?esc = "''/internal/v1/routes''"
  have "PathUnescape ?esc = Some ?esc" "HasPrefix ?esc ''/internal/''" by code_simp+
  note send = edge_send_deliver [OF _ this, of _ "baseURL c" W e]
  have "with_routes e (ed_Routes e) = e" by (simp add: with_routes_def)
  with assms show ?thesis by (simp add: Register_def client_do_def send Let_def split: option.split prod.split)
qed

lemma Unregister_edge_delivered:
  assumes "\<And>req e. w_fate W req e = Delivered"
  shows "Unregister (w_parse W) (edge_send W (baseURL c)) c i e =
    (case Unregister (w_parse W) (deliver (w_parse W) (w_encode W) (baseURL c)) c i (edge_admin e) of
       (err, a) \<Rightarrow> (err, with_routes e (ad_Routes a)))"
proof -
  note send = edge_send_deliver [OF _ route_path, of _ "baseURL c" i W e]
  have "with_routes e (ed_Routes e) = e" by (simp add: with_routes_def)
  with assms show ?thesis by (simp add: Unregister_def send Let_def split: option.split prod.split)
qed

text \<open>The body of a registration is short for a name and an address of the usual size.\<close>

lemma json_escape_length: "length (json_escape s) \<le> 6 * length s"
proof (induction s rule: json_escape.induct)
  case (2 c s)
  have "length (json_ascii c) \<le> 6" by (simp add: json_ascii_def hex2_def Let_def)
  with 2 show ?case by (auto simp: Let_def intro: order_trans)
qed simp

lemma register_body_short:
  assumes "length i \<le> 253" and "length ip \<le> 64"
  shows "length (json_object [(''sandboxId'', json_string i), (''target'', json_string (''http://'' @ ip @ '':8080''))]) \<le> 65536"
proof -
  have "length (json_escape i) \<le> 1518" "length (json_escape (''http://'' @ ip @ '':8080'')) \<le> 456"
    using json_escape_length [of i] json_escape_length [of "''http://'' @ ip @ '':8080''"] assms by simp_all
  moreover have "length (json_escape ''sandboxId'') \<le> 54" "length (json_escape ''target'') \<le> 36"
    using json_escape_length [of "''sandboxId''"] json_escape_length [of "''target''"] by simp_all
  ultimately show ?thesis by (simp add: json_object_def json_string_def)
qed

text \<open>A registration that succeeded, and an unregistration that did, at the listener.\<close>

lemma registered_at_edge:
  assumes "Register (w_parse W) (edge_send W (baseURL c)) c i (''http://'' @ ip @ '':8080'') e = (None, e')"
    and "w_parse W (baseURL c @ ''/internal/v1/routes'') \<noteq> None" and "rc_adminSecret c = ed_adminSecret e" and "ed_adminSecret e \<noteq> []"
    and "utf8_valid i" and "i \<noteq> []" and "length i \<le> 253" and "\<forall>ch \<in> set ip. of_char ch < (0x80 :: nat)" and "length ip \<le> 64"
    and "w_parse W (''http://'' @ ip @ '':8080'') = Some u"
  shows "Reg_Get (ed_Routes e') j = (if j = i then Some (clean_target u) else Reg_Get (ed_Routes e) j)"
proof -
  from Register_edge [OF assms(1)] obtain a where
    a: "Register (w_parse W) (deliver (w_parse W) (w_encode W) (baseURL c)) c i (''http://'' @ ip @ '':8080'') (edge_admin e) = (None, a)"
      "e' = with_routes e (ad_Routes a)" by blast
  have "utf8_valid (''http://'' @ ip @ '':8080'')" using assms(8) by (intro utf8_valid_ascii) auto
  from Register_delivered [of "w_parse W" c "edge_admin e" i "''http://'' @ ip @ '':8080''" u "w_encode W"] this a(1) assms
    register_body_short [OF assms(7,9)]
  obtain rts where rts: "Reg_Set (ed_Routes e) i (Some u) = Some rts" "ad_Routes a = rts" by (auto split: option.splits)
  from rt.lookup_register [OF rts(1), of j] a(2) rts(2) show ?thesis by auto
qed

lemma register_delivered_succeeds:
  assumes "\<And>req e. w_fate W req e = Delivered" and "valid_target u"
    and "w_parse W (baseURL c @ ''/internal/v1/routes'') \<noteq> None" and "rc_adminSecret c = ed_adminSecret e" and "ed_adminSecret e \<noteq> []"
    and "utf8_valid i" and "i \<noteq> []" and "length i \<le> 253" and "\<forall>ch \<in> set ip. of_char ch < (0x80 :: nat)" and "length ip \<le> 64"
    and "w_parse W (''http://'' @ ip @ '':8080'') = Some u"
  shows "fst (Register (w_parse W) (edge_send W (baseURL c)) c i (''http://'' @ ip @ '':8080'') e) = None"
proof -
  have "utf8_valid (''http://'' @ ip @ '':8080'')" using assms(9) by (intro utf8_valid_ascii) auto
  moreover have "Reg_Set (ed_Routes e) i (Some u) \<noteq> None" using rt.register_iff [of "ed_Routes e" i "Some u"] assms(2,7) by simp
  ultimately show ?thesis
    using Register_edge_delivered [of W c i "''http://'' @ ip @ '':8080''" e] assms register_body_short [OF assms(8,10)]
      Register_delivered [of "w_parse W" c "edge_admin e" i "''http://'' @ ip @ '':8080''" u "w_encode W"]
    by (auto split: option.splits)
qed

lemma unregistered_at_edge:
  assumes "Unregister (w_parse W) (edge_send W (baseURL c)) c i e = (None, e')"
    and "w_parse W (baseURL c @ ''/internal/v1/routes/'' @ PathEscape i) \<noteq> None" and "rc_adminSecret c = ed_adminSecret e"
    and "ed_adminSecret e \<noteq> []" and "i \<noteq> []" and "CHR ''/'' \<notin> set i"
  shows "Reg_Get (ed_Routes e') j = (if j = i then None else Reg_Get (ed_Routes e) j)"
proof -
  from Unregister_edge [OF assms(1)] obtain a where
    a: "Unregister (w_parse W) (deliver (w_parse W) (w_encode W) (baseURL c)) c i (edge_admin e) = (None, a)"
      "e' = with_routes e (ad_Routes a)" by blast
  from Unregister_delivered [of "w_parse W" c i "edge_admin e" "w_encode W"] a(1) assms have "ad_Routes a = Reg_Delete (ed_Routes e) i" by auto
  with a(2) show ?thesis by simp
qed

section \<open>Runs of the controller\<close>

abbreviation claim_pod_name :: "SandboxClaim \<Rightarrow> string" where
  "claim_pod_name obj \<equiv> DeterministicPodName (label (ObjLabels obj) ''kubebox.io/tenant'') (SpecIdempotencyKey (Spec obj))"

abbreviation pod_target :: "KubePod \<Rightarrow> string" where
  "pod_target kp \<equiv> ''http://'' @ kp_PodIP kp @ '':8080''"

lemma ready_run:
  assumes "Controller_Reconcile E r h ns name = (Inr q, h')" and "EvStatusUpdate o' \<in> set (run_events h h')"
    and "StatusPhase (ObjStatus o') = ClaimReady" and "Registrar r"
  obtains obj pevs g kp rest where "env_GetClaim E h ns name = Inr obj" "\<forall>ev \<in> set pevs. \<not> route_event ev"
    "env_PodGet E g (ObjNamespace obj) (claim_pod_name obj) = Inr kp" "pod_Ready (podFromKube kp)" "pod_Healthy (podFromKube kp)"
    "kp_DeletionTimestamp kp = None"
    "q \<noteq> RequeueAfter (5 * Second) \<Longrightarrow> kp_PodIP kp \<noteq> [] \<and> env_Register E (h @ pevs) (ObjName obj) (pod_target kp) = None"
    "kp_PodIP kp \<noteq> [] \<Longrightarrow> h' = (h @ pevs) @ EvRegister (ObjName obj) (pod_target kp) # rest" "\<forall>ev \<in> set rest. \<not> route_event ev"
proof -
  have ne: "h' \<noteq> h" using assms(2) by (auto simp: run_events_def)
  from assms(1) ne show thesis
  proof (cases rule: controller_events)
    case (failed obj e c)
    from Reconcile_events [OF failed(2)] assms(2) show thesis by (auto simp: pod_event_def)
  next
    case (finished obj b c h1 re h2 adds evs obj')
    from Reconcile_events [OF finished(2)] obtain pevs where pevs: "h1 = h @ pevs" "\<forall>ev \<in> set pevs. pod_event ev" by blast
    from syncRoute_events [OF finished(3)] obtain revs where revs: "h2 = h1 @ revs" "\<forall>ev \<in> set revs. \<nexists>q. ev = EvStatusUpdate q" by auto
    have "run_events h h' = pevs @ revs @ adds @ evs" using finished(4) pevs(1) revs(1) by simp
    with assms(2) pevs(2) revs(2) finished(5,6) have "o' = statusOf c obj'"
      by (auto simp: pod_event_def added_def status_events_def)
    with assms(3) have ph: "cl_Phase c = ClaimReady" by (simp add: statusOf_def)
    from finished(7) have re: "q \<noteq> RequeueAfter (5 * Second) \<Longrightarrow> re = None" by (auto simp: retries_def)
    from finished(2) ph obtain g kp where f: "env_PodGet E g (ObjNamespace obj) (claim_pod_name obj) = Inr kp"
      "pod_Ready (podFromKube kp)" "pod_Healthy (podFromKube kp)" "kp_DeletionTimestamp kp = None"
      "cl_SandboxID c = ObjName obj" "cl_PodIP c = kp_PodIP kp" by (rule ready_outcome)
    from finished(3) ph assms(4) f have s: "kp_PodIP kp \<noteq> [] \<Longrightarrow> h2 = h1 @ [EvRegister (ObjName obj) (pod_target kp)]"
      "re = None \<Longrightarrow> kp_PodIP kp \<noteq> [] \<and> env_Register E h1 (ObjName obj) (pod_target kp) = None"
      by (auto simp: syncRoute_def Let_def split: if_splits)
    have "\<forall>ev \<in> set pevs. \<not> route_event ev" using pevs(2) by (auto simp: pod_event_def route_event_def)
    with finished(1,4) f s re pevs(1) after_sync [OF finished(5,6)] show thesis
      by (intro that [of obj pevs g kp "adds @ evs"]) simp_all
  qed
qed

text \<open>The controller and the listener hold the same secret.\<close>

lemma shared_secret:
  assumes "controller_main mgr parse getenv fl = Inr (r, Some c)" and "edge_main penv = Inr e0"
    and "(edge_step parse enc)\<^sup>*\<^sup>* (e0, []) (e, p)" and "penv ''KUBEBOX_ADMIN_SECRET'' = getenv ''KUBEBOX_ADMIN_SECRET''"
  shows "Registrar r" and "rc_adminSecret c = ed_adminSecret e" and "ed_adminSecret e \<noteq> []"
proof -
  have "edge_inv penv e" using edge_inv_steps [OF assms(3)] edge_inv_main [OF assms(2)] by simp
  with controller_main_registrar [OF assms(1)] assms(4)
  show "Registrar r" "rc_adminSecret c = ed_adminSecret e" "ed_adminSecret e \<noteq> []" by (auto simp: edge_inv_def)
qed

section \<open>An example\<close>

definition demo_manager :: Manager where
  "demo_manager = \<lparr>mgr_New = \<lambda>_. None, mgr_Controller = None, mgr_Webhook = None, mgr_Healthz = None, mgr_Readyz = None, mgr_Start = None\<rparr>"

definition demo_controller_env :: "string \<Rightarrow> string" where
  "demo_controller_env k =
     (if k = ''KUBEBOX_ENVD_PROXY_URL'' then ''http://proxy:8080/'' else if k = ''KUBEBOX_ADMIN_SECRET'' then ''admin'' else [])"

definition demo_route_client :: RouteClient where
  "demo_route_client = \<lparr>baseURL = ''http://proxy:8080'', rc_adminSecret = ''admin''\<rparr>"

definition demo_world :: World where
  "demo_world = \<lparr>w_parse = demo_parse_url, w_encode = \<lambda>_. ''{}'', w_now = 0, w_backend = \<lambda>_. None,
     w_fate = \<lambda>_ _. Delivered, w_text = \<lambda>_. ''route''\<rparr>"

lemma demo_world_simps [simp]:
  "w_parse demo_world = demo_parse_url" "w_fate demo_world req e = Delivered"
  by (simp_all add: demo_world_def)

lemma demo_controller_start:
  "controller_main demo_manager (w_parse demo_world) demo_controller_env defaultFlags = Inr (\<lparr>Registrar = True\<rparr>, Some demo_route_client)"
proof -
  have "demo_parse_url ''http://proxy:8080/'' \<noteq> None" "TrimRight ''http://proxy:8080/'' (CHR ''/'') = ''http://proxy:8080''" by code_simp+
  then show ?thesis
    by (simp add: controller_main_def demo_manager_def controller_registrar_def demo_controller_env_def defaultFlags_def SetupManager_def
        SetupWithManager_def NewRouteClient_def demo_route_client_def Let_def)
qed

lemma demo_urls:
  "demo_parse_url (baseURL demo_route_client @ ''/internal/v1/routes'') \<noteq> None"
  "demo_parse_url (baseURL demo_route_client @ ''/internal/v1/routes/'' @ PathEscape ''box'') \<noteq> None"
  "demo_parse_url ''http://10.0.0.7:8080'' \<noteq> None"
  by (simp_all add: demo_route_client_def demo_parse_url_def HasPrefix_def Let_def)

lemma demo_edge_secret: "rc_adminSecret demo_route_client = ed_adminSecret demo_edge" "ed_adminSecret demo_edge \<noteq> []"
  by (simp_all add: demo_route_client_def demo_edge_def)

abbreviation demo_edge_register :: "Edge \<Rightarrow> route_error option \<times> Edge" where
  "demo_edge_register \<equiv> Register demo_parse_url (edge_send demo_world (baseURL demo_route_client)) demo_route_client ''box'' ''http://10.0.0.7:8080''"

abbreviation demo_edge_unregister :: "Edge \<Rightarrow> route_error option \<times> Edge" where
  "demo_edge_unregister \<equiv> Unregister demo_parse_url (edge_send demo_world (baseURL demo_route_client)) demo_route_client ''box''"

lemma demo_edge_registers: "fst (demo_edge_register demo_edge) = None"
proof -
  obtain u where u: "demo_parse_url ''http://10.0.0.7:8080'' = Some u" "Reg_Set r ''box'' (Some u) \<noteq> None" for r
    by (simp add: demo_parse_url_def HasPrefix_def TrimPrefix_def Reg_Set_def Let_def)
  have "length (json_object [(''sandboxId'', json_string ''box''), (''target'', json_string ''http://10.0.0.7:8080'')]) \<le> 65536"
    using register_body_short [of "''box''" "''10.0.0.7''"] by simp
  with u(2) [of "ed_Routes demo_edge"] demo_urls(1) demo_edge_secret u(1)
    Register_delivered [of demo_parse_url demo_route_client "edge_admin demo_edge" "''box''" "''http://10.0.0.7:8080''" u "w_encode demo_world"]
  show ?thesis
    using Register_edge_delivered [of demo_world demo_route_client "''box''" "''http://10.0.0.7:8080''" demo_edge]
    by (auto simp: utf8_valid_ascii split: prod.split option.split)
qed

lemma demo_edge_unregisters:
  assumes "ed_adminSecret e = ed_adminSecret demo_edge"
  shows "fst (demo_edge_unregister e) = None"
  using Unregister_edge_delivered [of demo_world demo_route_client "''box''" e]
    Unregister_delivered [of demo_parse_url demo_route_client "''box''" "edge_admin e" "w_encode demo_world"] demo_urls(2) demo_edge_secret assms
  by simp

section \<open>Claims\<close>

text \<open>The listener has the route of a claim to its pod, and its other routes as before.\<close>

definition routed :: "World \<Rightarrow> RouteClient \<Rightarrow> Edge \<Rightarrow> Env \<Rightarrow> event list \<Rightarrow> event list \<Rightarrow> SandboxClaim \<Rightarrow> bool" where
  "routed W c e E h h' obj \<longleftrightarrow>
    (\<exists>g kp u. env_PodGet E g (ObjNamespace obj) (claim_pod_name obj) = Inr kp \<and> pod_Ready (podFromKube kp) \<and>
       pod_Healthy (podFromKube kp) \<and> kp_DeletionTimestamp kp = None \<and> w_parse W (pod_target kp) = Some u \<and>
       (\<forall>j. Reg_Get (ed_Routes (edge_at W c e h')) j =
          (if j = ObjName obj then Some (clean_target u) else Reg_Get (ed_Routes (edge_at W c e h)) j)))"

text \<open>
  C16. A ready claim is routed: with the controller and envd-proxy started on the same admin
  secret, and any loss of requests and answers between them, a reconciliation that reports
  a claim ready and ends well either asks to be run again in five seconds or leaves the
  listener with a route under the claim's name to port 8080 of the address of its pod,
  which was read as ready, healthy and not being deleted, the other routes as before. When
  nothing is lost and pods have an address that makes a valid target, the route is there.
\<close>

theorem ready_claim_routed:
  assumes "controller_main mgr (w_parse W) getenv fl = Inr (r, Some c)"
    and "edge_main penv = Inr e0" and "(edge_step (w_parse W) (w_encode W))\<^sup>*\<^sup>* (e0, []) (e, p)"
    and "penv ''KUBEBOX_ADMIN_SECRET'' = getenv ''KUBEBOX_ADMIN_SECRET''"
    and "w_parse W (baseURL c @ ''/internal/v1/routes'') \<noteq> None"
    and "env_GetClaim E h ns name = Inr obj" and "utf8_valid (ObjName obj)" and "ObjName obj \<noteq> []" and "length (ObjName obj) \<le> 253"
    and "\<And>g s n kp. env_PodGet E g s n = Inr kp \<Longrightarrow> kp_PodIP kp \<noteq> [] \<Longrightarrow>
      (\<forall>ch \<in> set (kp_PodIP kp). of_char ch < (0x80 :: nat)) \<and> length (kp_PodIP kp) \<le> 64 \<and> w_parse W (pod_target kp) \<noteq> None"
    and "Controller_Reconcile (with_registrar W c e E) r h ns name = (Inr q, h')"
    and "EvStatusUpdate o' \<in> set (run_events h h')" and "StatusPhase (ObjStatus o') = ClaimReady"
  shows "(q = RequeueAfter (5 * Second) \<or> routed W c e E h h' obj) \<and>
    ((\<forall>req e. w_fate W req e = Delivered) \<and>
       (\<forall>g s n kp. env_PodGet E g s n = Inr kp \<longrightarrow> kp_PodIP kp \<noteq> [] \<and> (\<forall>u. w_parse W (pod_target kp) = Some u \<longrightarrow> valid_target u)) \<longrightarrow>
     routed W c e E h h' obj)"
proof -
  let ?E = "with_registrar W c e E"
  note sec = shared_secret [OF assms(1-4)]
  from assms(11-13) sec(1) obtain obj' pevs g kp rest where f: "env_GetClaim ?E h ns name = Inr obj'" "\<forall>ev \<in> set pevs. \<not> route_event ev"
    "env_PodGet ?E g (ObjNamespace obj') (claim_pod_name obj') = Inr kp" "pod_Ready (podFromKube kp)" "pod_Healthy (podFromKube kp)"
    "kp_DeletionTimestamp kp = None"
    "q \<noteq> RequeueAfter (5 * Second) \<Longrightarrow> kp_PodIP kp \<noteq> [] \<and> env_Register ?E (h @ pevs) (ObjName obj') (pod_target kp) = None"
    "kp_PodIP kp \<noteq> [] \<Longrightarrow> h' = (h @ pevs) @ EvRegister (ObjName obj') (pod_target kp) # rest" "\<forall>ev \<in> set rest. \<not> route_event ev"
    by (rule ready_run) blast
  have obj': "obj' = obj" and kp: "env_PodGet E g (ObjNamespace obj) (claim_pod_name obj) = Inr kp"
    using f(1,3) assms(6) by (simp_all add: with_registrar_def)
  let ?e = "edge_at W c e h"
  let ?R = "Register (w_parse W) (edge_send W (baseURL c)) c (ObjName obj) (pod_target kp) ?e"
  have quiet: "edge_at W c e (h @ pevs) = ?e" using edge_at_quiet [OF f(2)] by simp
  have routed: "routed W c e E h h' obj" if ip: "kp_PodIP kp \<noteq> []" and ok: "fst ?R = None"
  proof -
    from assms(10) [OF kp ip] obtain u where u: "w_parse W (pod_target kp) = Some u" by auto
    have "edge_at W c e h' = snd ?R"
      using edge_at_quiet [OF f(9)] quiet unfolding f(8) [OF ip] obj' by (simp add: edge_at_def edge_event_def)
    moreover have "?R = (None, snd ?R)" using ok by (metis prod.collapse)
    then have "Reg_Get (ed_Routes (snd ?R)) j = (if j = ObjName obj then Some (clean_target u) else Reg_Get (ed_Routes ?e) j)" for j
      using assms(10) [OF kp ip] sec(2,3) assms(5,7-9) u by (intro registered_at_edge) (simp_all add: edge_at_secret)
    ultimately show ?thesis
      unfolding routed_def using kp f(4-6) u by (intro exI [of _ g] exI [of _ kp] exI [of _ u]) simp
  qed
  have "kp_PodIP kp \<noteq> [] \<and> fst ?R = None" if "q \<noteq> RequeueAfter (5 * Second)"
    using f(7) [OF that] quiet unfolding obj' by (simp add: with_registrar_def)
  moreover have "kp_PodIP kp \<noteq> [] \<and> fst ?R = None" if d: "\<forall>req e. w_fate W req e = Delivered"
    and v: "\<forall>g s n kp. env_PodGet E g s n = Inr kp \<longrightarrow> kp_PodIP kp \<noteq> [] \<and> (\<forall>u. w_parse W (pod_target kp) = Some u \<longrightarrow> valid_target u)"
  proof -
    from v kp have ip: "kp_PodIP kp \<noteq> []" by blast
    from assms(10) [OF kp ip] obtain u where u: "w_parse W (pod_target kp) = Some u" by auto
    with v kp have "valid_target u" by blast
    then have "fst ?R = None"
      using d assms(10) [OF kp ip] sec(2,3) assms(5,7-9) u by (intro register_delivered_succeeds) (simp_all add: edge_at_secret)
    with ip show ?thesis by blast
  qed
  ultimately show ?thesis using routed by blast
qed

lemma demo_ready_run:
  "\<exists>rest. Controller_Reconcile (with_registrar demo_world demo_route_client demo_edge (demo_env None)) \<lparr>Registrar = True\<rparr> [] ''team'' ''box'' =
     (Inr (RequeueAfter (30 * Second)), rest) \<and>
     (\<exists>o'. EvStatusUpdate o' \<in> set rest \<and> StatusPhase (ObjStatus o') = ClaimReady)"
proof -
  define E where "E = with_registrar demo_world demo_route_client demo_edge (demo_env None)"
  have reg: "env_Register E [EvPodGet a b, EvPodCreate kp, EvPodGet a' b'] ''box'' ''http://10.0.0.7:8080'' = None" for a b kp a' b'
    using demo_edge_registers by (simp add: E_def with_registrar_def edge_at_def edge_event_def)
  have E: "env_GetClaim E = env_GetClaim (demo_env None)" "env_PodGet E = env_PodGet (demo_env None)" "env_PodCreate E = env_PodCreate (demo_env None)"
    "env_StatusUpdate E = env_StatusUpdate (demo_env None)" "env_Now E = env_Now (demo_env None)"
    by (simp_all add: E_def with_registrar_def)
  have "seconds 600 = 600000000000" "Sub 600000001000 1000 = 600000000000" by (simp_all add: seconds_def Sub_def wrap64_def Second_def)
  with demo_pod_ready show ?thesis
    unfolding E_def [symmetric]
    by (simp add: Controller_Reconcile_def E reg demo_env_def Reconcile_def Pods_Get_def Pods_Create_def follow_pod_def syncRoute_def
        write_status_def finish_def requeue_after_def claimOf_def demo_claim_def claim_defaults_def statusOf_def containsString_def phase_defs
        label_def ownerLabel_def runtimeClassFromClassRef_def time_defs Let_def)
qed

theorem ready_claim_routed_witness:
  "\<exists>h'. Controller_Reconcile (with_registrar demo_world demo_route_client demo_edge (demo_env None)) \<lparr>Registrar = True\<rparr> [] ''team'' ''box'' =
      (Inr (RequeueAfter (30 * Second)), h') \<and>
    Reg_Get (ed_Routes (edge_at demo_world demo_route_client demo_edge h')) ''box'' \<noteq> None"
proof -
  from demo_ready_run obtain h' o' where run:
    "Controller_Reconcile (with_registrar demo_world demo_route_client demo_edge (demo_env None)) \<lparr>Registrar = True\<rparr> [] ''team'' ''box'' =
       (Inr (RequeueAfter (30 * Second)), h')" "EvStatusUpdate o' \<in> set h'" "StatusPhase (ObjStatus o') = ClaimReady" by blast
  have ip: "(\<forall>ch \<in> set (kp_PodIP kp). of_char ch < (0x80 :: nat)) \<and> length (kp_PodIP kp) \<le> 64 \<and> w_parse demo_world (pod_target kp) \<noteq> None"
    if "env_PodGet (demo_env None) g ns n = Inr kp" for g ns n kp
    using that demo_urls(3) by (auto simp: demo_env_def demo_pod_def split: if_splits)
  have cl: "env_GetClaim (demo_env None) [] ''team'' ''box'' = Inr (demo_claim [] None)" and box: "ObjName (demo_claim [] None) = ''box''"
    by (simp_all add: demo_env_def demo_claim_def)
  have sec: "demo_getenv ''KUBEBOX_ADMIN_SECRET'' = demo_controller_env ''KUBEBOX_ADMIN_SECRET''"
    by (simp add: demo_getenv_def demo_controller_env_def)
  have name: "utf8_valid (ObjName (demo_claim [] None))" "ObjName (demo_claim [] None) \<noteq> []" "length (ObjName (demo_claim [] None)) \<le> 253"
    by (simp_all add: box utf8_valid_ascii)
  have url: "w_parse demo_world (baseURL demo_route_client @ ''/internal/v1/routes'') \<noteq> None" using demo_urls(1) by simp
  have ev: "EvStatusUpdate o' \<in> set (run_events [] h')" using run(2) by (simp add: run_events_def)
  show ?thesis
  proof (rule disjE [OF conjunct1 [OF ready_claim_routed [OF demo_controller_start demo_edge_start rtranclp.rtrancl_refl sec url cl name _ run(1) ev run(3)]]])
  qed (use ip run(1) box in \<open>auto simp: Second_def routed_def\<close>)
qed

text \<open>
  C17. A deleted claim is not routed any more: in the same setting, when a reconciliation has
  written a claim without the finalizer, the listener has no route for the sandbox the claim
  named in its status, and the other routes are as before.
\<close>

theorem deleted_claim_unrouted:
  assumes "controller_main mgr (w_parse W) getenv fl = Inr (r, Some c)"
    and "edge_main penv = Inr e0" and "(edge_step (w_parse W) (w_encode W))\<^sup>*\<^sup>* (e0, []) (e, p)"
    and "penv ''KUBEBOX_ADMIN_SECRET'' = getenv ''KUBEBOX_ADMIN_SECRET''"
    and "env_GetClaim E h ns name = Inr obj" and "i = SandboxRef (ObjStatus obj)" and "i \<noteq> []" and "CHR ''/'' \<notin> set i"
    and "w_parse W (baseURL c @ ''/internal/v1/routes/'' @ PathEscape i) \<noteq> None"
    and "Controller_Reconcile (with_registrar W c e E) r h ns name = (x, h')"
    and "EvUpdate o' \<in> set (run_events h h')" and "claimFinalizer \<notin> set (Finalizers o')"
  shows "Reg_Get (ed_Routes (edge_at W c e h')) j = (if j = i then None else Reg_Get (ed_Routes (edge_at W c e h)) j)"
proof -
  let ?E = "with_registrar W c e E"
  note sec = shared_secret [OF assms(1-4)]
  from assms(10-12) obtain obj' cl h1 h2 rest pevs where f: "env_GetClaim ?E h ns name = Inr obj'" "cl_Phase cl = ClaimDeleted"
    "cl_SandboxID cl = SandboxRef (ObjStatus obj')" "syncRoute ?E r h1 cl = (None, h2)" "h' = h2 @ rest" "\<forall>ev \<in> set rest. \<not> route_event ev"
    "h1 = h @ pevs" "\<forall>ev \<in> set pevs. pod_event ev" by (rule finalizer_removal)
  have i: "cl_SandboxID cl = i" using f(1,3) assms(5,6) by (simp add: with_registrar_def)
  let ?e = "edge_at W c e h"
  let ?U = "Unregister (w_parse W) (edge_send W (baseURL c)) c i ?e"
  have "\<forall>ev \<in> set pevs. \<not> route_event ev" using f(8) by (auto simp: pod_event_def route_event_def)
  then have quiet: "edge_at W c e h1 = ?e" using edge_at_quiet f(7) by simp
  from syncRoute_events [OF f(4)] sec(1) f(2) i assms(7) phases_distinct
  have s: "h2 = h1 @ [EvUnregister i]" "env_Unregister ?E h1 i = None" by auto
  have "?U = (None, snd ?U)" using s(2) quiet by (cases ?U) (simp add: with_registrar_def)
  moreover have "edge_at W c e h' = snd ?U"
    using edge_at_quiet [OF f(6)] quiet unfolding f(5) s(1) by (simp add: edge_at_def edge_event_def)
  ultimately show ?thesis
    using unregistered_at_edge [of W c i ?e "snd ?U" j] sec(2,3) assms(7-9) by (simp add: edge_at_secret)
qed

lemma demo_deleted_run:
  "\<exists>x h' o'. Controller_Reconcile (with_registrar demo_world demo_route_client demo_edge (demo_env (Some 5))) \<lparr>Registrar = True\<rparr>
     [EvRegister ''box'' ''http://10.0.0.7:8080''] ''team'' ''box'' = (x, EvRegister ''box'' ''http://10.0.0.7:8080'' # h') \<and>
     EvUpdate o' \<in> set h' \<and> claimFinalizer \<notin> set (Finalizers o')"
proof -
  define E where "E = with_registrar demo_world demo_route_client demo_edge (demo_env (Some 5))"
  have unreg: "env_Unregister E [EvRegister ''box'' ''http://10.0.0.7:8080'', EvPodDelete a b] ''box'' = None" for a b
    using demo_edge_unregisters [OF edge_at_secret [of demo_world demo_route_client demo_edge "[EvRegister ''box'' ''http://10.0.0.7:8080'', EvPodDelete a b]"]]
    by (simp add: E_def with_registrar_def)
  have E: "env_GetClaim E = env_GetClaim (demo_env (Some 5))" "env_PodDelete E = env_PodDelete (demo_env (Some 5))"
    "env_StatusUpdate E = env_StatusUpdate (demo_env (Some 5))" "env_Update E = env_Update (demo_env (Some 5))" "env_Now E = env_Now (demo_env (Some 5))"
    by (simp_all add: E_def with_registrar_def)
  show ?thesis
    unfolding E_def [symmetric]
    by (simp add: Controller_Reconcile_def E unreg demo_env_def Reconcile_def reconcileDelete_def Pods_Delete_def syncRoute_def write_status_def finish_def
      claimOf_def demo_claim_def claim_defaults_def statusOf_def containsString_def removeString_def phase_defs label_def ownerLabel_def
      runtimeClassFromClassRef_def time_defs Let_def)
qed

theorem deleted_claim_unrouted_witness:
  "\<exists>x h'. Controller_Reconcile (with_registrar demo_world demo_route_client demo_edge (demo_env (Some 5))) \<lparr>Registrar = True\<rparr>
      [EvRegister ''box'' ''http://10.0.0.7:8080''] ''team'' ''box'' = (x, h') \<and>
    Reg_Get (ed_Routes (edge_at demo_world demo_route_client demo_edge [EvRegister ''box'' ''http://10.0.0.7:8080''])) ''box'' \<noteq> None \<and>
    Reg_Get (ed_Routes (edge_at demo_world demo_route_client demo_edge h')) ''box'' = None"
proof -
  let ?h = "[EvRegister ''box'' ''http://10.0.0.7:8080'']"
  from demo_deleted_run obtain x h' o' where run:
    "Controller_Reconcile (with_registrar demo_world demo_route_client demo_edge (demo_env (Some 5))) \<lparr>Registrar = True\<rparr> ?h ''team'' ''box'' = (x, ?h @ h')"
    "EvUpdate o' \<in> set h'" "claimFinalizer \<notin> set (Finalizers o')" by auto
  have cl: "env_GetClaim (demo_env (Some 5)) ?h ''team'' ''box'' = Inr (demo_claim [] (Some 5))"
    and ref: "''box'' = SandboxRef (ObjStatus (demo_claim [] (Some 5)))"
    by (simp_all add: demo_env_def demo_claim_def)
  have sec: "demo_getenv ''KUBEBOX_ADMIN_SECRET'' = demo_controller_env ''KUBEBOX_ADMIN_SECRET''"
    by (simp add: demo_getenv_def demo_controller_env_def)
  have gone: "Reg_Get (ed_Routes (edge_at demo_world demo_route_client demo_edge (?h @ h'))) ''box'' = None"
    using deleted_claim_unrouted [OF demo_controller_start demo_edge_start rtranclp.rtrancl_refl sec cl ref _ _ _ run(1) _ run(3), of "''box''"]
      demo_urls(2) run(2) by (simp add: run_events_def)
  obtain u where u: "demo_parse_url ''http://10.0.0.7:8080'' = Some u" using demo_urls(3) by blast
  have "demo_edge_register demo_edge = (None, snd (demo_edge_register demo_edge))" using demo_edge_registers by (metis prod.collapse)
  then have "Reg_Get (ed_Routes (snd (demo_edge_register demo_edge))) ''box'' = Some (clean_target u)"
    using registered_at_edge [of demo_world demo_route_client "''box''" "''10.0.0.7''" demo_edge _ u "''box''"] demo_urls(1) demo_edge_secret u
    by (simp add: utf8_valid_ascii)
  with run(1) gone show ?thesis by (auto simp: edge_at_def edge_event_def)
qed

end
