(* ===== verification/Operator_System.thy ===== *)
theory Operator_System
  imports Operator_Edge
begin

text \<open>
  The operator and envd-proxy running together: reconciliations, the requests of other
  clients, the passes of the health monitor and calls that arrive late, in any order. The
  interface between the two, \<open>RouteRegistrar\<close> of \<open>internal/dataplane/route_client.go\<close>, is the
  locale \<open>route_registrar\<close>; the route client in front of the listener provides it.
\<close>

section \<open>The interface\<close>

text \<open>
  What the controller may rely on: a call changes the route it names or nothing, a
  registration stores the target it was given, a call that succeeds has taken effect.
  \<open>good\<close> is the state the registrar works in, \<open>named\<close> and \<open>removable\<close> the names it can carry.
\<close>

locale route_registrar =
  fixes register :: "string \<Rightarrow> string \<Rightarrow> 'n \<Rightarrow> 'e option \<times> 'n"
    and unregister :: "string \<Rightarrow> 'n \<Rightarrow> 'e option \<times> 'n"
    and lookup :: "'n \<Rightarrow> string \<Rightarrow> URL option"
    and stored :: "string \<Rightarrow> URL option"
    and good :: "'n \<Rightarrow> bool"
    and named :: "string \<Rightarrow> string \<Rightarrow> bool"
    and removable :: "string \<Rightarrow> bool"
  assumes register_effect: "good n \<Longrightarrow> named i t \<Longrightarrow> register i t n = (err, n') \<Longrightarrow>
      lookup n' = lookup n \<and> err \<noteq> None \<or> (\<exists>u. stored t = Some u \<and> lookup n' = (lookup n)(i \<mapsto> u))"
    and unregister_effect: "good n \<Longrightarrow> unregister i n = (err, n') \<Longrightarrow>
      lookup n' = lookup n \<or> lookup n' = (lookup n)(i := None)"
    and unregister_done: "good n \<Longrightarrow> removable i \<Longrightarrow> unregister i n = (None, n') \<Longrightarrow> lookup n' i = None"
    and register_good: "good n \<Longrightarrow> good (snd (register i t n))"
    and unregister_good: "good n \<Longrightarrow> good (snd (unregister i n))"
begin

text \<open>The calls among the events of a run.\<close>

definition route_call :: "'n \<Rightarrow> event \<Rightarrow> 'n" where
  "route_call n ev =
     (case ev of EvRegister i t \<Rightarrow> snd (register i t n) | EvUnregister i \<Rightarrow> snd (unregister i n) | _ \<Rightarrow> n)"

definition well_named :: "event list \<Rightarrow> bool" where
  "well_named evs \<longleftrightarrow> (\<forall>i t. EvRegister i t \<in> set evs \<longrightarrow> named i t)"

definition names :: "string \<Rightarrow> event \<Rightarrow> bool" where
  "names i ev \<longleftrightarrow> (\<exists>t. ev = EvRegister i t) \<or> ev = EvUnregister i"

lemma route_call_good: "good n \<Longrightarrow> good (route_call n ev)"
  by (cases ev) (simp_all add: route_call_def register_good unregister_good)

lemma route_call_cases:
  assumes "good n" and "well_named [ev]"
  obtains "lookup (route_call n ev) = lookup n"
  | i t u where "ev = EvRegister i t" "stored t = Some u" "lookup (route_call n ev) = (lookup n)(i \<mapsto> u)"
  | i where "ev = EvUnregister i" "lookup (route_call n ev) = (lookup n)(i := None)"
proof (cases ev)
  case (EvRegister i t)
  with assms register_effect [OF assms(1), of i t "fst (register i t n)" "snd (register i t n)"] that
  show thesis by (auto simp: well_named_def route_call_def)
next
  case (EvUnregister i)
  with assms unregister_effect [OF assms(1), of i "fst (unregister i n)" "snd (unregister i n)"] that
  show thesis by (auto simp: route_call_def)
qed (use that in \<open>simp_all add: route_call_def\<close>)

lemma routes_registered:
  assumes "good n" and "well_named evs" and "lookup (foldl route_call n evs) i = Some u"
  shows "lookup n i = Some u \<or> (\<exists>t. EvRegister i t \<in> set evs \<and> stored t = Some u)"
  using assms
proof (induction evs arbitrary: n)
  case (Cons ev evs)
  have w: "well_named [ev]" "well_named evs" using Cons.prems(2) by (auto simp: well_named_def)
  from Cons.IH [OF route_call_good [OF Cons.prems(1)] w(2), of ev] Cons.prems(3)
  have "lookup (route_call n ev) i = Some u \<or> (\<exists>t. EvRegister i t \<in> set evs \<and> stored t = Some u)" by simp
  then show ?case
  proof
    assume "lookup (route_call n ev) i = Some u"
    with Cons.prems(1) w(1) show ?thesis by (cases rule: route_call_cases) (auto split: if_splits)
  qed auto
qed simp

lemma others_kept:
  assumes "good n" and "well_named evs" and "\<forall>ev \<in> set evs. \<not> names i ev"
  shows "lookup (foldl route_call n evs) i = lookup n i"
  using assms
proof (induction evs arbitrary: n)
  case (Cons ev evs)
  have w: "well_named [ev]" "well_named evs" using Cons.prems(2) by (auto simp: well_named_def)
  have "lookup (route_call n ev) i = lookup n i"
    using Cons.prems(1) w(1) by (rule route_call_cases) (use Cons.prems(3) in \<open>auto simp: names_def\<close>)
  with Cons.IH [OF route_call_good [OF Cons.prems(1)] w(2), of ev] Cons.prems(3) show ?case by simp
qed simp

lemma calls_good: "good n \<Longrightarrow> good (foldl route_call n evs)"
  by (induction evs arbitrary: n) (simp_all add: route_call_good)

end

section \<open>The route client in front of the listener\<close>

definition edge_good :: "RouteClient \<Rightarrow> Edge \<Rightarrow> bool" where
  "edge_good c e \<longleftrightarrow> rc_adminSecret c = ed_adminSecret e \<and> ed_adminSecret e \<noteq> []"

definition edge_named :: "string \<Rightarrow> string \<Rightarrow> bool" where
  "edge_named i t \<longleftrightarrow> utf8_valid i \<and> utf8_valid t \<and> i \<noteq> [] \<and> t \<noteq> [] \<and>
     length (json_object [(''sandboxId'', json_string i), (''target'', json_string t)]) \<le> 65536"

abbreviation edge_register :: "World \<Rightarrow> RouteClient \<Rightarrow> string \<Rightarrow> string \<Rightarrow> Edge \<Rightarrow> route_error option \<times> Edge" where
  "edge_register W c \<equiv> Register (w_parse W) (edge_send W (baseURL c)) c"

abbreviation edge_unregister :: "World \<Rightarrow> RouteClient \<Rightarrow> string \<Rightarrow> Edge \<Rightarrow> route_error option \<times> Edge" where
  "edge_unregister W c \<equiv> Unregister (w_parse W) (edge_send W (baseURL c)) c"

lemma Register_edge_sent:
  assumes "edge_register W c i t e = (err, e')"
  shows "e' = e \<and> err \<noteq> None \<or>
    (\<exists>res a. Register (w_parse W) (deliver (w_parse W) (w_encode W) (baseURL c)) c i t (edge_admin e) = (res, a) \<and>
       e' = with_routes e (ad_Routes a) \<and> (err = None \<longrightarrow> res = None))"
proof -
  let ?esc = "''/internal/v1/routes''"
  have "PathUnescape ?esc = Some ?esc" "HasPrefix ?esc ''/internal/''" by code_simp+
  note send = edge_send_deliver [OF _ this, of _ "baseURL c" W e]
  from assms show ?thesis
    by (auto simp: Register_def client_do_def send Let_def split: if_splits option.splits prod.splits)
qed

lemma Unregister_edge_sent:
  assumes "edge_unregister W c i e = (err, e')"
  shows "e' = e \<or>
    (\<exists>res a. Unregister (w_parse W) (deliver (w_parse W) (w_encode W) (baseURL c)) c i (edge_admin e) = (res, a) \<and>
       e' = with_routes e (ad_Routes a))"
proof -
  note send = edge_send_deliver [OF _ route_path, of _ "baseURL c" i W e]
  from assms show ?thesis
    by (auto simp: Unregister_def send Let_def split: if_splits option.splits prod.splits)
qed

lemma with_routes_same [simp]: "with_routes e (ed_Routes e) = e"
  by (simp add: with_routes_def)

text \<open>A target that is not a URL is refused.\<close>

lemma Register_unparsed:
  assumes "rc_adminSecret c = adminSecret a" and "adminSecret a \<noteq> []" and "edge_named i t" and "parse t = None"
  shows "\<exists>err. Register parse (deliver parse enc (baseURL c)) c i t a = (Some err, a)"
proof -
  let ?body = "json_object [(''sandboxId'', json_string i), (''target'', json_string t)]"
  let ?h = "Header_Set (Header_Set Map.empty ''Content-Type'' ''application/json'') ''X-Kubebox-Admin-Token'' (rc_adminSecret c)"
  let ?r = "\<lparr>rq_Method = ''POST'', rq_Path = ''/internal/v1/routes'', rq_EscapedPath = ''/internal/v1/routes'', rq_RawQuery = [],
     rq_Query = Map.empty, rq_Header = ?h, rq_Body = ?body, rq_BodyErr = False, rq_ClientIP = None\<rparr>"
  have "Header_Get ?h ''X-Kubebox-Admin-Token'' = adminSecret a" using assms(1) by (simp add: Header_Get_Set)
  then have au: "authorized a ?r" using assms(2) by (simp add: authorized_iff)
  have "readLimited 65536 ?r = Some ?body" using assms(3) by (simp add: readLimited_def edge_named_def)
  with assms au have srv: "Admin_ServeHTTP parse enc a ?r = (jsonError StatusBadRequest ''invalid target URL'', a)"
    by (simp add: Admin_ServeHTTP_def handleRoutes_def handleRegister_def unmarshalRegister_map edge_named_def)
  have esc: "PathUnescape ''/internal/v1/routes'' = Some ''/internal/v1/routes''" by code_simp
  have "deliver parse enc (baseURL c) \<lparr>cq_Method = ''POST'', cq_URL = baseURL c @ ''/internal/v1/routes'', cq_Header = ?h, cq_Body = ?body\<rparr> a =
      (Some (jsonError StatusBadRequest ''invalid target URL''), a)"
    unfolding deliver_def by (simp add: esc srv)
  then show ?thesis
    by (auto simp: Register_def client_do_def register_body Let_def success_def status_defs)
qed

lemma Register_at_edge:
  assumes "edge_good c e" and "edge_named i t" and "edge_register W c i t e = (err, e')"
  shows "Reg_Get (ed_Routes e') = Reg_Get (ed_Routes e) \<and> err \<noteq> None \<or>
    (\<exists>u. map_option clean_target (w_parse W t) = Some u \<and> Reg_Get (ed_Routes e') = (Reg_Get (ed_Routes e))(i \<mapsto> u))"
proof (cases "e' = e \<and> err \<noteq> None")
  case False
  with Register_edge_sent [OF assms(3)] obtain res a where
    a: "Register (w_parse W) (deliver (w_parse W) (w_encode W) (baseURL c)) c i t (edge_admin e) = (res, a)"
      "e' = with_routes e (ad_Routes a)" "err = None \<longrightarrow> res = None" by blast
  have sec: "rc_adminSecret c = adminSecret (edge_admin e)" "adminSecret (edge_admin e) \<noteq> []" using assms(1) by (simp_all add: edge_good_def)
  show ?thesis
  proof (cases "w_parse W t")
    case None
    with Register_unparsed [OF sec assms(2), of "w_parse W" "w_encode W"] a show ?thesis by auto
  next
    case (Some u)
    show ?thesis
    proof (cases "w_parse W (baseURL c @ ''/internal/v1/routes'')")
      case None
      with a show ?thesis by (auto simp: Register_def Let_def)
    next
      case base: (Some v)
      note R = Register_delivered [of "w_parse W" c "edge_admin e" i t u "w_encode W"]
      show ?thesis
      proof (cases "Reg_Set (ed_Routes e) i (Some u)")
        case None
        with R base Some sec assms(2) a show ?thesis by (auto simp: edge_named_def)
      next
        case (Some rts)
        with R base \<open>w_parse W t = Some u\<close> sec assms(2) a(1) have "ad_Routes a = rts" by (auto simp: edge_named_def)
        with a(2) rt.lookup_register [OF Some] \<open>w_parse W t = Some u\<close> show ?thesis by (auto simp: fun_eq_iff)
      qed
    qed
  qed
qed auto

lemma Admin_instance_routes:
  assumes "rq_Path r = ''/internal/v1/routes/'' @ i"
  shows "snd (Admin_ServeHTTP parse enc a r) \<in> {a, a\<lparr>ad_Routes := Reg_Delete (ad_Routes a) i\<rparr>}"
proof -
  have "TrimPrefix (rq_Path r) ''/internal/v1/routes/'' = i" "HasPrefix (rq_Path r) ''/internal/v1/routes/''"
    unfolding assms by (rule TrimPrefix_append, rule HasPrefix_append)
  moreover have "rq_Path r \<noteq> ''/healthz''" "rq_Path r \<noteq> ''/internal/v1/routes''" by (auto simp: assms)
  ultimately show ?thesis
    by (auto simp: Admin_ServeHTTP_def handleRouteInstance_def Reg_Unregister_eq Let_def split: bool.split)
qed

lemma Unregister_routes:
  assumes "Unregister parse (deliver parse enc (baseURL c)) c i a = (res, a')"
  shows "a' \<in> {a, a\<lparr>ad_Routes := Reg_Delete (ad_Routes a) i\<rparr>}"
proof -
  define esc where "esc = ''/internal/v1/routes/'' @ PathEscape i"
  define path where "path = ''/internal/v1/routes/'' @ i"
  have "PathUnescape esc = Some path" using route_path(1) [of i] by (simp add: esc_def path_def)
  then have "snd (deliver parse enc (baseURL c) \<lparr>cq_Method = m, cq_URL = baseURL c @ esc, cq_Header = h, cq_Body = b\<rparr> a) =
      snd (Admin_ServeHTTP parse enc a \<lparr>rq_Method = m, rq_Path = path, rq_EscapedPath = esc, rq_RawQuery = [], rq_Query = Map.empty,
        rq_Header = h, rq_Body = b, rq_BodyErr = False, rq_ClientIP = None\<rparr>)" for m h b
    by (simp add: deliver_def split: prod.split)
  then have "snd (deliver parse enc (baseURL c) \<lparr>cq_Method = m, cq_URL = baseURL c @ esc, cq_Header = h, cq_Body = b\<rparr> a) \<in>
      {a, a\<lparr>ad_Routes := Reg_Delete (ad_Routes a) i\<rparr>}" for m h b
    by (simp only: Admin_instance_routes Request.simps path_def)
  note sent = this [of "''DELETE''" "Header_Set Map.empty ''X-Kubebox-Admin-Token'' (rc_adminSecret c)" "[]"]
  define D where "D = deliver parse enc (baseURL c) \<lparr>cq_Method = ''DELETE'', cq_URL = baseURL c @ esc,
     cq_Header = Header_Set Map.empty ''X-Kubebox-Admin-Token'' (rc_adminSecret c), cq_Body = []\<rparr> a"
  from assms have "a' \<in> {a, snd D}"
    unfolding Unregister_def Let_def esc_def [symmetric] D_def [symmetric]
    by (cases D) (auto split: if_splits option.splits)
  with sent show ?thesis unfolding D_def by auto
qed

lemma Unregister_at_edge:
  assumes "edge_unregister W c i e = (err, e')"
  shows "Reg_Get (ed_Routes e') = Reg_Get (ed_Routes e) \<or> Reg_Get (ed_Routes e') = (Reg_Get (ed_Routes e))(i := None)"
proof (cases "e' = e")
  case False
  with Unregister_edge_sent [OF assms] obtain res a where
    a: "Unregister (w_parse W) (deliver (w_parse W) (w_encode W) (baseURL c)) c i (edge_admin e) = (res, a)"
      "e' = with_routes e (ad_Routes a)" by blast
  with Unregister_routes [OF a(1)] show ?thesis by (auto simp: fun_eq_iff)
qed simp

lemma edge_event_secret: "ed_adminSecret (edge_event W c e ev) = ed_adminSecret e"
  using edge_at_secret [of W c e "[ev]"] by (simp add: edge_at_def)

interpretation er: route_registrar "edge_register W c" "edge_unregister W c" "\<lambda>e. Reg_Get (ed_Routes e)"
  "\<lambda>t. map_option clean_target (w_parse W t)" "edge_good c" edge_named
  "\<lambda>i. i \<noteq> [] \<and> CHR ''/'' \<notin> set i \<and> w_parse W (baseURL c @ ''/internal/v1/routes/'' @ PathEscape i) \<noteq> None" for W c
proof (unfold_locales, goal_cases)
  case (1 e i t err e')
  then show ?case by (rule Register_at_edge)
next
  case (2 e i err e')
  from 2(2) show ?case by (rule Unregister_at_edge)
next
  case (3 e i e')
  with unregistered_at_edge [OF 3(3), of i] show ?case by (simp add: edge_good_def)
next
  case (4 e i t)
  with edge_event_secret [of W c e "EvRegister i t"] show ?case by (simp add: edge_good_def edge_event_def)
next
  case (5 e i)
  with edge_event_secret [of W c e "EvUnregister i"] show ?case by (simp add: edge_good_def edge_event_def)
qed

lemma edge_event_call: "edge_event W c = er.route_call W c"
  by (intro ext) (simp add: edge_event_def er.route_call_def split: event.split)

lemma edge_at_calls: "edge_at W c e h = foldl (er.route_call W c) e h"
  by (simp add: edge_at_def edge_event_call)

section \<open>The system\<close>

text \<open>
  What Kubernetes promises of the names of claims and the addresses of pods: names are not
  empty, of at most 253 bytes and valid text, an address is ASCII of at most 64 bytes.
\<close>

definition kube_names :: "Env \<Rightarrow> bool" where
  "kube_names E \<longleftrightarrow>
     (\<forall>h ns n obj. env_GetClaim E h ns n = Inr obj \<longrightarrow> ObjName obj \<noteq> [] \<and> utf8_valid (ObjName obj) \<and> length (ObjName obj) \<le> 253) \<and>
     (\<forall>h ns n kp. env_PodGet E h ns n = Inr kp \<longrightarrow> (\<forall>ch \<in> set (kp_PodIP kp). of_char ch < (0x80 :: nat)) \<and> length (kp_PodIP kp) \<le> 64)"

lemma kube_names_named:
  assumes "kube_names E" and "env_GetClaim E h ns n = Inr obj" and "env_PodGet E g ns' n' = Inr kp"
  shows "edge_named (ObjName obj) (pod_target kp)"
proof -
  from assms have i: "ObjName obj \<noteq> []" "utf8_valid (ObjName obj)" "length (ObjName obj) \<le> 253" by (auto simp: kube_names_def)
  from assms have ip: "\<forall>ch \<in> set (kp_PodIP kp). of_char ch < (0x80 :: nat)" "length (kp_PodIP kp) \<le> 64" by (auto simp: kube_names_def)
  have "utf8_valid (pod_target kp)" using ip(1) by (intro utf8_valid_ascii) auto
  with i register_body_short [OF i(3) ip(2)] show ?thesis by (simp add: edge_named_def)
qed

record Run =
  run_Env :: Env
  run_Namespace :: string
  run_Name :: string
  run_History :: "event list"

record System =
  sys_Edge :: Edge
  sys_Pass :: "(string \<times> URL) list" \<comment> \<open>the routes the monitor has still to probe in this pass\<close>
  sys_Runs :: "Run list"

datatype action = ARun Run | ALate event | ARequest Request | ATick | AProbe string bool

text \<open>
  A reconciliation makes at most one call of the listener (lemma \<open>one_call\<close>), so it takes
  effect there at one moment. A call the client has given up on may still arrive, later and
  more than once. The requests of others do not have the admin secret.
\<close>

inductive system_step ::
  "(string \<Rightarrow> URL option) \<Rightarrow> (URL \<Rightarrow> string) \<Rightarrow> RouteClient \<Rightarrow> SandboxClaimReconciler \<Rightarrow> System \<Rightarrow> action \<Rightarrow> System \<Rightarrow> bool"
  for parse enc c r where
  sys_run: "w_parse W = parse \<Longrightarrow> w_encode W = enc \<Longrightarrow> kube_names E \<Longrightarrow>
    Controller_Reconcile (with_registrar W c (sys_Edge s) E) r [] ns name = (x, h) \<Longrightarrow>
    ru = \<lparr>run_Env = E, run_Namespace = ns, run_Name = name, run_History = h\<rparr> \<Longrightarrow>
    system_step parse enc c r s (ARun ru) (s\<lparr>sys_Edge := edge_at W c (sys_Edge s) h, sys_Runs := sys_Runs s @ [ru]\<rparr>)"
| sys_late: "w_parse W = parse \<Longrightarrow> w_encode W = enc \<Longrightarrow> ru \<in> set (sys_Runs s) \<Longrightarrow> ev \<in> set (run_History ru) \<Longrightarrow>
    system_step parse enc c r s (ALate ev) (s\<lparr>sys_Edge := edge_event W c (sys_Edge s) ev\<rparr>)"
| sys_request: "Header_Get (rq_Header q) ''X-Kubebox-Admin-Token'' \<noteq> ed_adminSecret (sys_Edge s) \<Longrightarrow>
    edge_handler parse enc now backend (sys_Edge s) q = (resp, out, e') \<Longrightarrow>
    system_step parse enc c r s (ARequest q) (s\<lparr>sys_Edge := e'\<rparr>)"
| sys_tick: "hm_step (ed_Monitor (sys_Edge s), sys_Pass s) Tick (m', p') \<Longrightarrow>
    system_step parse enc c r s ATick (s\<lparr>sys_Edge := (sys_Edge s)\<lparr>ed_Monitor := m'\<rparr>, sys_Pass := p'\<rparr>)"
| sys_probe: "hm_step (ed_Monitor (sys_Edge s), sys_Pass s) (Probed i b) (m', p') \<Longrightarrow>
    system_step parse enc c r s (AProbe i b) (s\<lparr>sys_Edge := (sys_Edge s)\<lparr>ed_Monitor := m'\<rparr>, sys_Pass := p'\<rparr>)"

inductive system_run ::
  "(string \<Rightarrow> URL option) \<Rightarrow> (URL \<Rightarrow> string) \<Rightarrow> RouteClient \<Rightarrow> SandboxClaimReconciler \<Rightarrow> System \<Rightarrow> action list \<Rightarrow> System \<Rightarrow> bool"
  for parse enc c r where
  sr_start: "system_run parse enc c r s [] s"
| sr_step: "system_run parse enc c r s as s' \<Longrightarrow> system_step parse enc c r s' a s'' \<Longrightarrow> system_run parse enc c r s (as @ [a]) s''"

definition system_start :: "Edge \<Rightarrow> System" where
  "system_start e = \<lparr>sys_Edge = e, sys_Pass = [], sys_Runs = []\<rparr>"

section \<open>Runs in the system\<close>

lemma pod_events_quiet: "\<forall>ev \<in> set evs. pod_event ev \<Longrightarrow> filter route_event evs = []"
  by (intro filter_False) (auto simp: pod_event_def route_event_def)

lemma one_call:
  assumes "Controller_Reconcile E r h ns name = (x, h')"
  shows "length (filter route_event (run_events h h')) \<le> 1"
proof (cases "h' = h")
  case False
  from assms False show ?thesis
  proof (cases rule: controller_events)
    case (failed obj e c)
    from Reconcile_events [OF failed(2)] obtain evs where "h' = h @ evs" "\<forall>ev \<in> set evs. pod_event ev" by blast
    then show ?thesis by (simp add: pod_events_quiet)
  next
    case (finished obj b c h1 re h2 adds evs obj')
    from Reconcile_events [OF finished(2)] obtain pevs where pevs: "h1 = h @ pevs" "\<forall>ev \<in> set pevs. pod_event ev" by blast
    from syncRoute_events [OF finished(3)] obtain revs where revs: "h2 = h1 @ revs" "length revs \<le> 1" by auto
    have "filter route_event pevs = []" using pevs(2) by (rule pod_events_quiet)
    moreover have "filter route_event (adds @ evs) = []"
      using after_sync [OF finished(5,6)] by (intro filter_False) blast
    moreover have "run_events h h' = pevs @ revs @ adds @ evs" using finished(4) pevs(1) revs(1) by simp
    ultimately have "filter route_event (run_events h h') = filter route_event revs" by simp
    with revs(2) show ?thesis by (auto intro: order_trans [OF length_filter_le])
  qed
qed (simp add: run_events_def)

definition genuine :: "(string \<Rightarrow> URL option) \<Rightarrow> RouteClient \<Rightarrow> SandboxClaimReconciler \<Rightarrow> Run \<Rightarrow> bool" where
  "genuine parse c r ru \<longleftrightarrow> kube_names (run_Env ru) \<and>
     (\<exists>W e x. w_parse W = parse \<and>
        Controller_Reconcile (with_registrar W c e (run_Env ru)) r [] (run_Namespace ru) (run_Name ru) = (x, run_History ru))"

text \<open>The pod a run read as ready, for the claim it was about.\<close>

definition read_ready :: "Run \<Rightarrow> SandboxClaim \<Rightarrow> KubePod \<Rightarrow> bool" where
  "read_ready ru obj kp \<longleftrightarrow> env_GetClaim (run_Env ru) [] (run_Namespace ru) (run_Name ru) = Inr obj \<and>
     (\<exists>h. prefix (h @ [EvPodGet (ObjNamespace obj) (claim_pod_name obj)]) (run_History ru) \<and>
        env_PodGet (run_Env ru) h (ObjNamespace obj) (claim_pod_name obj) = Inr kp) \<and>
     pod_Ready (podFromKube kp) \<and> pod_Healthy (podFromKube kp) \<and> kp_DeletionTimestamp kp = None \<and> kp_PodIP kp \<noteq> []"

lemma with_registrar_reads [simp]:
  "env_GetClaim (with_registrar W c e E) = env_GetClaim E" "env_PodGet (with_registrar W c e E) = env_PodGet E"
  by (simp_all add: with_registrar_def)

lemma genuine_registers:
  assumes "genuine parse c r ru" and "EvRegister i t \<in> set (run_History ru)"
  shows "\<exists>obj kp. read_ready ru obj kp \<and> i = ObjName obj \<and> t = pod_target kp"
proof -
  from assms(1) obtain W e x where
    run: "Controller_Reconcile (with_registrar W c e (run_Env ru)) r [] (run_Namespace ru) (run_Name ru) = (x, run_History ru)"
    by (auto simp: genuine_def)
  from assms(2) have "EvRegister i t \<in> set (run_events [] (run_History ru))" by (simp add: run_events_def)
  from route_registered_when_ready [OF run this] show ?thesis by (auto simp: read_ready_def)
qed

lemma genuine_named:
  assumes "genuine parse c r ru"
  shows "er.well_named (run_History ru)"
proof (unfold er.well_named_def, intro allI impI)
  fix i t
  assume "EvRegister i t \<in> set (run_History ru)"
  from genuine_registers [OF assms this] obtain obj kp where f: "read_ready ru obj kp" "i = ObjName obj" "t = pod_target kp" by blast
  from assms have k: "kube_names (run_Env ru)" by (simp add: genuine_def)
  with f show "edge_named i t" using kube_names_named [OF k] by (auto simp: read_ready_def)
qed

section \<open>The invariant of the system\<close>

definition system_inv :: "(string \<Rightarrow> URL option) \<Rightarrow> RouteClient \<Rightarrow> SandboxClaimReconciler \<Rightarrow> System \<Rightarrow> bool" where
  "system_inv parse c r s \<longleftrightarrow> edge_good c (sys_Edge s) \<and> (\<forall>ru \<in> set (sys_Runs s). genuine parse c r ru) \<and>
     (\<forall>i u. Reg_Get (ed_Routes (sys_Edge s)) i = Some u \<longrightarrow>
        (\<exists>ru \<in> set (sys_Runs s). \<exists>t. EvRegister i t \<in> set (run_History ru) \<and> map_option clean_target (parse t) = Some u))"

lemma system_inv_late:
  assumes "system_inv (w_parse W) c r s" and "ru \<in> set (sys_Runs s)" and "ev \<in> set (run_History ru)"
  shows "system_inv (w_parse W) c r (s\<lparr>sys_Edge := edge_event W c (sys_Edge s) ev\<rparr>)"
proof -
  have good: "edge_good c (sys_Edge s)" and "genuine (w_parse W) c r ru" using assms(1,2) by (simp_all add: system_inv_def)
  from genuine_named [OF this(2)] assms(3) have w: "er.well_named [ev]" by (auto simp: er.well_named_def)
  have "\<exists>ru \<in> set (sys_Runs s). \<exists>t. EvRegister i t \<in> set (run_History ru) \<and> map_option clean_target (w_parse W t) = Some u"
    if "Reg_Get (ed_Routes (edge_event W c (sys_Edge s) ev)) i = Some u" for i u
    using er.routes_registered [OF good w, of W i u] that assms by (auto simp: edge_event_call system_inv_def)
  with assms(1) er.route_call_good [OF good, of W ev] show ?thesis by (simp add: system_inv_def edge_event_call)
qed

lemma system_inv_run:
  assumes "system_inv (w_parse W) c r s" and "genuine (w_parse W) c r ru"
  shows "system_inv (w_parse W) c r (s\<lparr>sys_Edge := edge_at W c (sys_Edge s) (run_History ru), sys_Runs := sys_Runs s @ [ru]\<rparr>)"
proof -
  have good: "edge_good c (sys_Edge s)" using assms(1) by (simp add: system_inv_def)
  have "\<exists>ru \<in> set (sys_Runs s @ [ru]). \<exists>t. EvRegister i t \<in> set (run_History ru) \<and> map_option clean_target (w_parse W t) = Some u"
    if "Reg_Get (ed_Routes (edge_at W c (sys_Edge s) (run_History ru))) i = Some u" for i u
    using er.routes_registered [OF good genuine_named [OF assms(2)], of W i u] that assms(1) by (auto simp: edge_at_calls system_inv_def)
  with assms er.calls_good [OF good, of W "run_History ru"] show ?thesis by (auto simp: system_inv_def edge_at_calls)
qed

text \<open>Steps of the listener on its own: routes are kept, or evicted by the monitor.\<close>

lemma probe_routes:
  assumes "hm_step (m, p) (Probed i b) (m', p')"
  shows "Reg_Get (hm_Routes m') j = Reg_Get (hm_Routes m) j \<or> j = i \<and> \<not> b \<and> Reg_Get (hm_Routes m') j = None"
  using assms by (auto simp: checkRoute_routes elim!: hm_step_probed split: if_splits)

lemma system_inv_listener:
  assumes "system_inv parse c r s" and "ed_adminSecret e' = ed_adminSecret (sys_Edge s)"
    and "\<And>j. Reg_Get (ed_Routes e') j \<noteq> None \<Longrightarrow> Reg_Get (ed_Routes e') j = Reg_Get (ed_Routes (sys_Edge s)) j"
  shows "system_inv parse c r (s\<lparr>sys_Edge := e'\<rparr>)" and "system_inv parse c r (s\<lparr>sys_Edge := e', sys_Pass := p'\<rparr>)"
proof -
  have "Reg_Get (ed_Routes (sys_Edge s)) j = Some u" if "Reg_Get (ed_Routes e') j = Some u" for j u using assms(3) [of j] that by simp
  with assms(1,2) show "system_inv parse c r (s\<lparr>sys_Edge := e'\<rparr>)" "system_inv parse c r (s\<lparr>sys_Edge := e', sys_Pass := p'\<rparr>)"
    by (simp_all add: system_inv_def edge_good_def)
qed

lemma system_inv_step: "system_step parse enc c r s a s' \<Longrightarrow> system_inv parse c r s \<Longrightarrow> system_inv parse c r s'"
proof (induction rule: system_step.induct)
  case (sys_run W E s ns name x h ru)
  then have "genuine (w_parse W) c r ru" by (auto simp: genuine_def)
  with system_inv_run [of W c r s ru] sys_run show ?case by simp
next
  case (sys_late W ru s ev)
  then show ?case using system_inv_late [of W c r s ru ev] by simp
next
  case (sys_request q s now backend resp out e')
  from handler_without_secret [OF sys_request(2,1)] sys_request(3) show ?case by simp
next
  case (sys_tick s m' p')
  then show ?case by (intro system_inv_listener) (auto elim!: hm_step_tick)
next
  case (sys_probe s i b m' p')
  have "Reg_Get (hm_Routes m') j = Reg_Get (ed_Routes (sys_Edge s)) j" if "Reg_Get (hm_Routes m') j \<noteq> None" for j
    using probe_routes [OF sys_probe(1), of j] that by blast
  with sys_probe(2) show ?case by (intro system_inv_listener) simp_all
qed

lemma system_inv_runs: "system_run parse enc c r s as s' \<Longrightarrow> system_inv parse c r s \<Longrightarrow> system_inv parse c r s'"
  by (induction rule: system_run.induct) (auto intro: system_inv_step)

lemma system_inv_start:
  assumes "controller_main mgr parse getenv fl = Inr (r, Some c)" and "edge_main penv = Inr e0"
    and "penv ''KUBEBOX_ADMIN_SECRET'' = getenv ''KUBEBOX_ADMIN_SECRET''"
  shows "system_inv parse c r (system_start e0)"
  using shared_secret [OF assms(1,2) rtranclp.rtrancl_refl assms(3)] edge_inv_main [OF assms(2)]
  by (simp add: system_inv_def system_start_def edge_good_def)

text \<open>What an action may do to the route of one sandbox.\<close>

fun touches :: "string \<Rightarrow> action \<Rightarrow> bool" where
  "touches i (ARun ru) \<longleftrightarrow> (\<exists>t. EvRegister i t \<in> set (run_History ru)) \<or> EvUnregister i \<in> set (run_History ru)"
| "touches i (ALate ev) \<longleftrightarrow> (\<exists>t. ev = EvRegister i t) \<or> ev = EvUnregister i"
| "touches i (ARequest q) \<longleftrightarrow> False"
| "touches i ATick \<longleftrightarrow> False"
| "touches i (AProbe j b) \<longleftrightarrow> j = i \<and> \<not> b"

lemma untouched_step:
  assumes "system_step parse enc c r s a s'" and "system_inv parse c r s" and "\<not> touches i a"
  shows "Reg_Get (ed_Routes (sys_Edge s')) i = Reg_Get (ed_Routes (sys_Edge s)) i"
  using assms
proof (induction rule: system_step.induct)
  case (sys_run W E s ns name x h ru)
  then have "genuine (w_parse W) c r ru" by (auto simp: genuine_def)
  from genuine_named [OF this] sys_run have "er.well_named h" "edge_good c (sys_Edge s)" by (simp_all add: system_inv_def)
  with er.others_kept [of c "sys_Edge s" h i W] sys_run(5,7) show ?case by (auto simp: edge_at_calls er.names_def)
next
  case (sys_late W ru s ev)
  then have "genuine (w_parse W) c r ru" "edge_good c (sys_Edge s)" by (simp_all add: system_inv_def)
  moreover from genuine_named [OF this(1)] sys_late(4) have "er.well_named [ev]" by (auto simp: er.well_named_def)
  ultimately show ?case using er.others_kept [of c "sys_Edge s" "[ev]" i W] sys_late(6) by (simp add: edge_event_call er.names_def)
next
  case (sys_request q s now backend resp out e')
  from handler_without_secret [OF sys_request(2,1)] show ?case by simp
next
  case (sys_tick s m' p')
  then show ?case by (auto elim!: hm_step_tick)
next
  case (sys_probe s j b m' p')
  with probe_routes [OF sys_probe(1), of i] show ?case by auto
qed

lemma untouched_run:
  assumes "system_run parse enc c r s as s'" and "system_inv parse c r s" and "\<forall>a \<in> set as. \<not> touches i a"
  shows "Reg_Get (ed_Routes (sys_Edge s')) i = Reg_Get (ed_Routes (sys_Edge s)) i"
  using assms
proof (induction rule: system_run.induct)
  case (sr_step s as s' a s'')
  with untouched_step [OF sr_step(2) system_inv_runs [OF sr_step(1,4)], of i] show ?case by simp
qed simp

section \<open>What a run leaves at the listener\<close>

lemma registrar_answers:
  "env_Register (with_registrar W c e E) h i t = map_option (w_text W) (fst (edge_register W c i t (edge_at W c e h)))"
  "env_Unregister (with_registrar W c e E) h i = map_option (w_text W) (fst (edge_unregister W c i (edge_at W c e h)))"
  by (simp_all add: with_registrar_def)

lemma ready_run_routes:
  assumes "Controller_Reconcile (with_registrar W c e E) r [] ns name = (Inr q, h')" and "EvStatusUpdate o' \<in> set h'"
    and "StatusPhase (ObjStatus o') = ClaimReady" and "q \<noteq> RequeueAfter (5 * Second)"
    and "Registrar r" and "edge_good c e" and "kube_names E"
  obtains obj g kp u where "env_GetClaim E [] ns name = Inr obj" "env_PodGet E g (ObjNamespace obj) (claim_pod_name obj) = Inr kp"
    "pod_Ready (podFromKube kp)" "w_parse W (pod_target kp) = Some u"
    "Reg_Get (ed_Routes (edge_at W c e h')) = (Reg_Get (ed_Routes e))(ObjName obj \<mapsto> clean_target u)"
proof -
  have su: "EvStatusUpdate o' \<in> set (run_events [] h')" using assms(2) by (simp add: run_events_def)
  from assms(1) su assms(3,5) obtain obj pevs g kp rest where "env_GetClaim (with_registrar W c e E) [] ns name = Inr obj"
    "\<forall>ev \<in> set pevs. \<not> route_event ev" "env_PodGet (with_registrar W c e E) g (ObjNamespace obj) (claim_pod_name obj) = Inr kp"
    "pod_Ready (podFromKube kp)"
    "q \<noteq> RequeueAfter (5 * Second) \<Longrightarrow>
       kp_PodIP kp \<noteq> [] \<and> env_Register (with_registrar W c e E) ([] @ pevs) (ObjName obj) (pod_target kp) = None"
    "kp_PodIP kp \<noteq> [] \<Longrightarrow> h' = ([] @ pevs) @ EvRegister (ObjName obj) (pod_target kp) # rest" "\<forall>ev \<in> set rest. \<not> route_event ev"
    by (rule ready_run) blast
  with assms(4) have f: "env_GetClaim E [] ns name = Inr obj" "\<forall>ev \<in> set pevs. \<not> route_event ev"
    "env_PodGet E g (ObjNamespace obj) (claim_pod_name obj) = Inr kp" "pod_Ready (podFromKube kp)"
    "env_Register (with_registrar W c e E) pevs (ObjName obj) (pod_target kp) = None"
    "h' = pevs @ EvRegister (ObjName obj) (pod_target kp) # rest" "\<forall>ev \<in> set rest. \<not> route_event ev" by simp_all
  have quiet: "edge_at W c e pevs = e" using f(2) by (rule edge_at_quiet)
  let ?R = "edge_register W c (ObjName obj) (pod_target kp) e"
  have ok: "?R = (None, snd ?R)" using f(5) quiet by (cases ?R) (simp add: registrar_answers)
  have "edge_named (ObjName obj) (pod_target kp)"
    using kube_names_named [OF assms(7) f(1,3)] .
  from er.register_effect [OF assms(6) this ok] obtain u where u: "w_parse W (pod_target kp) = Some u"
    "Reg_Get (ed_Routes (snd ?R)) = (Reg_Get (ed_Routes e))(ObjName obj \<mapsto> clean_target u)" by auto
  have "edge_at W c e h' = snd ?R" using edge_at_quiet [OF f(7)] quiet unfolding f(6) by (simp add: edge_at_def edge_event_def)
  with f u show thesis by (intro that [of obj g kp u]) simp_all
qed

lemma deleting_run_unroutes:
  assumes "Controller_Reconcile (with_registrar W c e E) r [] ns name = (x, h')" and "EvUpdate o' \<in> set h'"
    and "claimFinalizer \<notin> set (Finalizers o')" and "Registrar r" and "edge_good c e"
    and "env_GetClaim E [] ns name = Inr obj" and "i = SandboxRef (ObjStatus obj)" and "i \<noteq> []" and "CHR ''/'' \<notin> set i"
    and "w_parse W (baseURL c @ ''/internal/v1/routes/'' @ PathEscape i) \<noteq> None"
  shows "Reg_Get (ed_Routes (edge_at W c e h')) i = None"
proof -
  let ?E = "with_registrar W c e E"
  have up: "EvUpdate o' \<in> set (run_events [] h')" using assms(2) by (simp add: run_events_def)
  from assms(1) up assms(3) obtain obj' cl h1 h2 rest pevs where d: "env_GetClaim ?E [] ns name = Inr obj'" "cl_Phase cl = ClaimDeleted"
    "cl_SandboxID cl = SandboxRef (ObjStatus obj')" "syncRoute ?E r h1 cl = (None, h2)" "h' = h2 @ rest" "\<forall>ev \<in> set rest. \<not> route_event ev"
    "h1 = [] @ pevs" "\<forall>ev \<in> set pevs. pod_event ev" by (rule finalizer_removal)
  then have f: "cl_Phase cl = ClaimDeleted" "cl_SandboxID cl = i" "syncRoute ?E r h1 cl = (None, h2)" "h' = h2 @ rest"
    "\<forall>ev \<in> set rest. \<not> route_event ev" "\<forall>ev \<in> set h1. \<not> route_event ev"
    using assms(6,7) by (auto simp: pod_event_def route_event_def)
  have quiet: "edge_at W c e h1 = e" using f(6) by (rule edge_at_quiet)
  let ?U = "edge_unregister W c i e"
  from syncRoute_events [OF f(3)] assms(4,8) f(1,2) phases_distinct
  have s: "h2 = h1 @ [EvUnregister i]" "env_Unregister ?E h1 i = None" by auto
  have "?U = (None, snd ?U)" using s(2) quiet by (cases ?U) (simp add: registrar_answers)
  with er.unregister_done [OF assms(5), of i W "snd ?U"] assms(8-10) have "Reg_Get (ed_Routes (snd ?U)) i = None" by simp
  moreover have "edge_at W c e h' = snd ?U"
    using edge_at_quiet [OF f(5)] quiet unfolding f(4) s(1) by (simp add: edge_at_def edge_event_def)
  ultimately show ?thesis by simp
qed

section \<open>An example\<close>

lemma demo_kube_names: "kube_names (demo_env None)"
  by (auto simp: kube_names_def demo_env_def demo_claim_def demo_pod_def utf8_valid_ascii split: if_splits)

abbreviation demo_step :: "System \<Rightarrow> action \<Rightarrow> System \<Rightarrow> bool" where
  "demo_step \<equiv> system_step demo_parse_url (w_encode demo_world) demo_route_client \<lparr>Registrar = True\<rparr>"

abbreviation demo_system_run :: "System \<Rightarrow> action list \<Rightarrow> System \<Rightarrow> bool" where
  "demo_system_run \<equiv> system_run demo_parse_url (w_encode demo_world) demo_route_client \<lparr>Registrar = True\<rparr>"

lemma demo_requeue: "RequeueAfter (30 * Second) \<noteq> RequeueAfter (5 * Second)"
  by (simp add: Second_def)

lemma demo_system:
  "\<exists>a s u. demo_system_run (system_start demo_edge) [a] s \<and> Reg_Get (ed_Routes (sys_Edge s)) ''box'' = Some u"
proof -
  from demo_ready_run obtain h o' where run:
    "Controller_Reconcile (with_registrar demo_world demo_route_client demo_edge (demo_env None)) \<lparr>Registrar = True\<rparr> [] ''team'' ''box'' =
       (Inr (RequeueAfter (30 * Second)), h)" "EvStatusUpdate o' \<in> set h" "StatusPhase (ObjStatus o') = ClaimReady" by blast
  let ?ru = "\<lparr>run_Env = demo_env None, run_Namespace = ''team'', run_Name = ''box'', run_History = h\<rparr>"
  let ?s = "(system_start demo_edge)\<lparr>sys_Edge := edge_at demo_world demo_route_client demo_edge h, sys_Runs := [?ru]\<rparr>"
  have "demo_step (system_start demo_edge) (ARun ?ru) ?s"
    using sys_run [OF demo_world_simps(1) refl demo_kube_names, where s = "system_start demo_edge"] run(1) by (simp add: system_start_def)
  with sr_start sr_step have "demo_system_run (system_start demo_edge) ([] @ [ARun ?ru]) ?s" by metis
  moreover have "Reg_Get (ed_Routes (edge_at demo_world demo_route_client demo_edge h)) ''box'' \<noteq> None"
  proof -
    have "edge_good demo_route_client demo_edge" using demo_edge_secret by (simp add: edge_good_def)
    with run demo_kube_names obtain obj u where "env_GetClaim (demo_env None) [] ''team'' ''box'' = Inr obj"
      "Reg_Get (ed_Routes (edge_at demo_world demo_route_client demo_edge h)) = (Reg_Get (ed_Routes demo_edge))(ObjName obj \<mapsto> u)"
      using ready_run_routes [OF run] demo_requeue by (metis SandboxClaimReconciler.select_convs(1))
    then show ?thesis by (auto simp: demo_env_def demo_claim_def)
  qed
  ultimately show ?thesis by (intro exI [of _ "ARun ?ru"] exI [of _ ?s]) auto
qed

section \<open>Claims\<close>

text \<open>
  C18. Every route leads to a ready pod: the controller and envd-proxy started on the same
  admin secret, and reconciliations, requests without the secret, probes and late calls in
  any order, every route of the listener is under the name of a claim that a
  reconciliation read, to port 8080 of the address of that claim's pod, which this
  reconciliation had read as ready, healthy and not being deleted.
\<close>

theorem routes_to_ready_pods:
  assumes "controller_main mgr parse getenv fl = Inr (r, Some c)" and "edge_main penv = Inr e0"
    and "penv ''KUBEBOX_ADMIN_SECRET'' = getenv ''KUBEBOX_ADMIN_SECRET''"
    and "system_run parse enc c r (system_start e0) as s" and "Reg_Get (ed_Routes (sys_Edge s)) i = Some u"
  shows "\<exists>ru \<in> set (sys_Runs s). \<exists>obj kp v. read_ready ru obj kp \<and> ObjName obj = i \<and>
    parse (''http://'' @ kp_PodIP kp @ '':8080'') = Some v \<and> u = clean_target v"
proof -
  have inv: "system_inv parse c r s" using system_inv_runs [OF assms(4)] system_inv_start [OF assms(1-3)] by simp
  with assms(5) obtain ru t where ru: "ru \<in> set (sys_Runs s)" "EvRegister i t \<in> set (run_History ru)"
    "map_option clean_target (parse t) = Some u" unfolding system_inv_def by blast
  with inv have "genuine parse c r ru" by (simp add: system_inv_def)
  from genuine_registers [OF this ru(2)] ru(1,3) show ?thesis by (auto simp: map_option_case split: option.splits)
qed

theorem routes_to_ready_pods_witness:
  "\<exists>as s u. demo_system_run (system_start demo_edge) as s \<and> Reg_Get (ed_Routes (sys_Edge s)) ''box'' = Some u \<and>
     (\<exists>ru \<in> set (sys_Runs s). \<exists>obj kp. read_ready ru obj kp \<and> ObjName obj = ''box'')"
proof -
  from demo_system obtain a s u where s: "demo_system_run (system_start demo_edge) [a] s" "Reg_Get (ed_Routes (sys_Edge s)) ''box'' = Some u" by blast
  have "demo_getenv ''KUBEBOX_ADMIN_SECRET'' = demo_controller_env ''KUBEBOX_ADMIN_SECRET''"
    by (simp add: demo_getenv_def demo_controller_env_def)
  from routes_to_ready_pods [OF demo_controller_start demo_edge_start this _ s(2)] s show ?thesis by fastforce
qed

text \<open>
  C19. A route changes only through calls that name it and failed probes of it: in the same
  system, as long as no reconciliation registers or unregisters the name, no late call for
  it arrives and no probe of it fails, the listener's route for the name stays as it is,
  whatever requests, other reconciliations and passes of the monitor take place.
\<close>

theorem route_kept:
  assumes "controller_main mgr parse getenv fl = Inr (r, Some c)" and "edge_main penv = Inr e0"
    and "penv ''KUBEBOX_ADMIN_SECRET'' = getenv ''KUBEBOX_ADMIN_SECRET''"
    and "system_run parse enc c r (system_start e0) as s" and "system_run parse enc c r s bs s'"
    and "\<And>a. a \<in> set bs \<Longrightarrow> \<not> touches i a"
  shows "Reg_Get (ed_Routes (sys_Edge s')) i = Reg_Get (ed_Routes (sys_Edge s)) i"
  using untouched_run [OF assms(5) system_inv_runs [OF assms(4) system_inv_start [OF assms(1-3)]]] assms(6) by blast

theorem route_kept_witness:
  "\<exists>a s s' u. demo_system_run (system_start demo_edge) [a] s \<and> demo_system_run s [ARequest demo_delete] s' \<and>
     Reg_Get (ed_Routes (sys_Edge s')) ''box'' = Some u"
proof -
  from demo_system obtain a s u where s: "demo_system_run (system_start demo_edge) [a] s" "Reg_Get (ed_Routes (sys_Edge s)) ''box'' = Some u" by blast
  have sec: "demo_getenv ''KUBEBOX_ADMIN_SECRET'' = demo_controller_env ''KUBEBOX_ADMIN_SECRET''"
    by (simp add: demo_getenv_def demo_controller_env_def)
  have "edge_good demo_route_client (sys_Edge s)"
    using system_inv_runs [OF s(1)] system_inv_start [OF demo_controller_start demo_edge_start sec] by (simp add: system_inv_def)
  then have "Header_Get (rq_Header demo_delete) ''X-Kubebox-Admin-Token'' \<noteq> ed_adminSecret (sys_Edge s)"
    by (auto simp: edge_good_def demo_delete_def header_defs demo_route_client_def)
  moreover obtain resp out e' where "edge_handler demo_parse_url (w_encode demo_world) 0 (\<lambda>_. None) (sys_Edge s) demo_delete = (resp, out, e')"
    using prod_cases3 by blast
  ultimately obtain s' where "demo_step s (ARequest demo_delete) s'" using sys_request by blast
  then have r: "demo_system_run s ([] @ [ARequest demo_delete]) s'" using sr_start sr_step by metis
  from route_kept [OF demo_controller_start [unfolded demo_world_simps] demo_edge_start sec _ r, of "[a]" "''box''"] s
  have "Reg_Get (ed_Routes (sys_Edge s')) ''box'' = Some u" by simp
  with s(1) r show ?thesis by auto
qed

text \<open>A run that leaves its claim ready, or without the finalizer, and the listener after it.\<close>

definition made_ready :: "World \<Rightarrow> RouteClient \<Rightarrow> SandboxClaimReconciler \<Rightarrow> Edge \<Rightarrow> Env \<Rightarrow> SandboxClaim \<Rightarrow> Edge \<Rightarrow> bool" where
  "made_ready W c r e E obj e' \<longleftrightarrow> kube_names E \<and>
     (\<exists>ns n q h o'. env_GetClaim E [] ns n = Inr obj \<and> Controller_Reconcile (with_registrar W c e E) r [] ns n = (Inr q, h) \<and>
        q \<noteq> RequeueAfter (5 * Second) \<and> EvStatusUpdate o' \<in> set h \<and> StatusPhase (ObjStatus o') = ClaimReady \<and> e' = edge_at W c e h)"

definition made_deleted :: "World \<Rightarrow> RouteClient \<Rightarrow> SandboxClaimReconciler \<Rightarrow> Edge \<Rightarrow> Env \<Rightarrow> SandboxClaim \<Rightarrow> Edge \<Rightarrow> bool" where
  "made_deleted W c r e E obj e' \<longleftrightarrow>
     (\<exists>ns n x h o'. env_GetClaim E [] ns n = Inr obj \<and> Controller_Reconcile (with_registrar W c e E) r [] ns n = (x, h) \<and>
        EvUpdate o' \<in> set h \<and> claimFinalizer \<notin> set (Finalizers o') \<and> e' = edge_at W c e h)"

lemma made_readyI:
  assumes "kube_names E" and "env_GetClaim E [] ns n = Inr obj"
    and "\<exists>h o'. Controller_Reconcile (with_registrar W c e E) r [] ns n = (Inr q, h) \<and> EvStatusUpdate o' \<in> set h \<and>
      StatusPhase (ObjStatus o') = ClaimReady" and "q \<noteq> RequeueAfter (5 * Second)"
  shows "\<exists>e'. made_ready W c r e E obj e'"
  using assms unfolding made_ready_def by blast

lemma made_deletedI:
  assumes "env_GetClaim E [] ns n = Inr obj"
    and "\<exists>x h o'. Controller_Reconcile (with_registrar W c e E) r [] ns n = (x, h) \<and> EvUpdate o' \<in> set h \<and>
      claimFinalizer \<notin> set (Finalizers o')"
  shows "\<exists>e'. made_deleted W c r e E obj e'"
  using assms unfolding made_deleted_def by blast

lemma made_ready_routes:
  assumes "made_ready W c r e E obj e'" and "Registrar r" and "edge_good c e"
  shows "edge_good c e' \<and> ObjName obj \<noteq> [] \<and>
    (\<exists>g kp u. env_PodGet E g (ObjNamespace obj) (claim_pod_name obj) = Inr kp \<and> w_parse W (pod_target kp) = Some u \<and>
       Reg_Get (ed_Routes e') (ObjName obj) = Some (clean_target u))"
proof -
  from assms(1) obtain ns n q h o' where k: "kube_names E" and obj: "env_GetClaim E [] ns n = Inr obj"
    and run: "Controller_Reconcile (with_registrar W c e E) r [] ns n = (Inr q, h)" "EvStatusUpdate o' \<in> set h"
      "StatusPhase (ObjStatus o') = ClaimReady" "q \<noteq> RequeueAfter (5 * Second)"
    and e': "e' = edge_at W c e h" by (auto simp: made_ready_def)
  from run assms(2,3) k obtain obj' g kp u where f: "env_GetClaim E [] ns n = Inr obj'"
    "env_PodGet E g (ObjNamespace obj') (claim_pod_name obj') = Inr kp" "w_parse W (pod_target kp) = Some u"
    "Reg_Get (ed_Routes (edge_at W c e h)) = (Reg_Get (ed_Routes e))(ObjName obj' \<mapsto> clean_target u)" by (rule ready_run_routes)
  from f(1) obj have "obj' = obj" by simp
  moreover from f(4) have "Reg_Get (ed_Routes (edge_at W c e h)) (ObjName obj') = Some (clean_target u)" by simp
  moreover have "ObjName obj \<noteq> []" using k obj by (auto simp: kube_names_def)
  moreover have "edge_good c e'" using assms(3) by (simp add: e' edge_good_def edge_at_secret)
  ultimately show ?thesis using f(2,3) unfolding e' by blast
qed

text \<open>
  C20. Claims of the same name share one route, in whatever namespaces they are: when a
  reconciliation has made one of them ready and then a reconciliation the other, the route
  of the name leads to the pod of the second, and when the first is deleted and its
  finalizer removed, there is no route of the name any more, for neither.
\<close>

theorem same_name_one_route:
  assumes "controller_main mgr (w_parse W) getenv fl = Inr (r, Some c)" and "edge_main penv = Inr e0"
    and "penv ''KUBEBOX_ADMIN_SECRET'' = getenv ''KUBEBOX_ADMIN_SECRET''"
    and "system_run (w_parse W) enc c r (system_start e0) as s"
    and "made_ready W c r (sys_Edge s) E obj e" and "made_ready W c r e E' obj' e'" and "ObjName obj' = ObjName obj"
    and "made_deleted W c r e' E'' obj'' e''" and "SandboxRef (ObjStatus obj'') = ObjName obj"
    and "CHR ''/'' \<notin> set (ObjName obj)" and "w_parse W (baseURL c @ ''/internal/v1/routes/'' @ PathEscape (ObjName obj)) \<noteq> None"
  shows "(\<exists>g kp v. env_PodGet E g (ObjNamespace obj) (claim_pod_name obj) = Inr kp \<and>
       w_parse W (''http://'' @ kp_PodIP kp @ '':8080'') = Some v \<and> Reg_Get (ed_Routes e) (ObjName obj) = Some (clean_target v)) \<and>
    (\<exists>g kp v. env_PodGet E' g (ObjNamespace obj') (claim_pod_name obj') = Inr kp \<and>
       w_parse W (''http://'' @ kp_PodIP kp @ '':8080'') = Some v \<and> Reg_Get (ed_Routes e') (ObjName obj) = Some (clean_target v)) \<and>
    Reg_Get (ed_Routes e'') (ObjName obj) = None"
proof -
  have reg: "Registrar r" using controller_main_registrar(2) [OF assms(1)] by simp
  have "edge_good c (sys_Edge s)"
    using system_inv_runs [OF assms(4)] system_inv_start [OF assms(1-3)] by (simp add: system_inv_def)
  note one = made_ready_routes [OF assms(5) reg this]
  then have "edge_good c e" by blast
  note two = made_ready_routes [OF assms(6) reg this]
  from assms(8) obtain ns n x h o' where d: "env_GetClaim E'' [] ns n = Inr obj''"
    "Controller_Reconcile (with_registrar W c e' E'') r [] ns n = (x, h)" "EvUpdate o' \<in> set h" "claimFinalizer \<notin> set (Finalizers o')"
    "e'' = edge_at W c e' h" unfolding made_deleted_def by blast
  have "Reg_Get (ed_Routes e'') (ObjName obj) = None"
    unfolding d(5) using d(1-4) one two assms(9-11) by (intro deleting_run_unroutes [OF d(2-4) reg _ d(1)]) auto
  with one two show ?thesis unfolding assms(7) by blast
qed

text \<open>A second claim of the name \<open>box\<close>, of another namespace, with a pod of its own.\<close>

definition demo_other :: Env where
  "demo_other = (demo_env None)\<lparr>env_GetClaim := \<lambda>_ _ _. Inr ((demo_claim [] None)\<lparr>ObjNamespace := ''other''\<rparr>),
     env_PodGet := \<lambda>_ _ _. Inr (demo_pod\<lparr>kp_PodIP := ''10.0.0.9''\<rparr>)\<rparr>"

lemma demo_registers:
  assumes "edge_good demo_route_client e" and "ip \<in> {''10.0.0.7'', ''10.0.0.9''}"
  shows "fst (edge_register demo_world demo_route_client ''box'' (''http://'' @ ip @ '':8080'') e) = None"
proof -
  from assms(2) obtain u where u: "demo_parse_url (''http://'' @ ip @ '':8080'') = Some u" "valid_target u"
    by (auto simp: demo_parse_url_def HasPrefix_def TrimPrefix_def valid_target_def Let_def)
  with assms show ?thesis
    using demo_urls(1) by (intro register_delivered_succeeds [where u = u]) (auto simp: edge_good_def utf8_valid_ascii)
qed

text \<open>The runs of the example, at any listener with the secret of the client.\<close>

lemma demo_quiet_register:
  assumes "edge_good demo_route_client e" and "ip \<in> {''10.0.0.7'', ''10.0.0.9''}" and "\<forall>ev \<in> set h. \<not> route_event ev"
  shows "env_Register (with_registrar demo_world demo_route_client e E) h ''box'' (''http://'' @ ip @ '':8080'') = None"
  using demo_registers [OF assms(1,2)] edge_at_quiet [OF assms(3)] by (simp add: registrar_answers)

lemma with_registrar_rest:
  "env_PodCreate (with_registrar W c e E) = env_PodCreate E" "env_PodDelete (with_registrar W c e E) = env_PodDelete E"
  "env_Update (with_registrar W c e E) = env_Update E" "env_StatusUpdate (with_registrar W c e E) = env_StatusUpdate E"
  "env_Now (with_registrar W c e E) = env_Now E"
  by (simp_all add: with_registrar_def)

lemma demo_delays: "seconds 600 = 600000000000" "Sub 600000001000 1000 = 600000000000"
  by (simp_all add: seconds_def Sub_def wrap64_def Second_def)

lemmas demo_run_defs = Controller_Reconcile_def Reconcile_def Pods_Get_def Pods_Create_def follow_pod_def syncRoute_def
  write_status_def finish_def requeue_after_def claimOf_def demo_claim_def claim_defaults_def statusOf_def containsString_def phase_defs
  label_def ownerLabel_def runtimeClassFromClassRef_def time_defs Let_def route_event_def demo_delays

lemma demo_other_pod:
  "pod_Ready (podFromKube (demo_pod\<lparr>kp_PodIP := ip\<rparr>))" "pod_Healthy (podFromKube (demo_pod\<lparr>kp_PodIP := ip\<rparr>))"
  "\<not> pod_Deleted (podFromKube (demo_pod\<lparr>kp_PodIP := ip\<rparr>))" "pod_IP (podFromKube (demo_pod\<lparr>kp_PodIP := ip\<rparr>)) = ip"
  by (simp_all add: podFromKube_def demo_pod_def kubePod_def Let_def)

lemma demo_made_ready:
  assumes "edge_good demo_route_client e"
  shows "\<exists>e'. made_ready demo_world demo_route_client \<lparr>Registrar = True\<rparr> e (demo_env None) (demo_claim [] None) e'"
proof -
  define E where "E = with_registrar demo_world demo_route_client e (demo_env None)"
  have reg: "\<forall>ev \<in> set h. \<not> route_event ev \<Longrightarrow> env_Register E h ''box'' ''http://10.0.0.7:8080'' = None" for h
    using demo_quiet_register [OF assms, of "''10.0.0.7''" h] by (simp add: E_def)
  have E: "env_GetClaim E = env_GetClaim (demo_env None)" "env_PodGet E = env_PodGet (demo_env None)" "env_PodCreate E = env_PodCreate (demo_env None)"
    "env_StatusUpdate E = env_StatusUpdate (demo_env None)" "env_Now E = env_Now (demo_env None)"
    by (simp_all add: E_def with_registrar_rest)
  have "\<exists>h o'. Controller_Reconcile E \<lparr>Registrar = True\<rparr> [] ''team'' ''box'' = (Inr (RequeueAfter (30 * Second)), h) \<and>
     EvStatusUpdate o' \<in> set h \<and> StatusPhase (ObjStatus o') = ClaimReady"
    using demo_pod_ready by (simp add: demo_run_defs E reg demo_env_def)
  then show ?thesis
    unfolding E_def by (intro made_readyI [where ns = "''team''" and n = "''box''", OF demo_kube_names _ _ demo_requeue]) (simp add: demo_env_def)
qed

lemma demo_made_ready_other:
  assumes "edge_good demo_route_client e"
  shows "\<exists>e'. made_ready demo_world demo_route_client \<lparr>Registrar = True\<rparr> e demo_other ((demo_claim [] None)\<lparr>ObjNamespace := ''other''\<rparr>) e'"
proof -
  define E where "E = with_registrar demo_world demo_route_client e demo_other"
  have reg: "\<forall>ev \<in> set h. \<not> route_event ev \<Longrightarrow> env_Register E h ''box'' ''http://10.0.0.9:8080'' = None" for h
    using demo_quiet_register [OF assms, of "''10.0.0.9''" h] by (simp add: E_def)
  have E: "env_GetClaim E = env_GetClaim demo_other" "env_PodGet E = env_PodGet demo_other"
    "env_StatusUpdate E = env_StatusUpdate demo_other" "env_Now E = env_Now demo_other"
    by (simp_all add: E_def with_registrar_rest)
  have "\<exists>h o'. Controller_Reconcile E \<lparr>Registrar = True\<rparr> [] ''other'' ''box'' = (Inr (RequeueAfter (30 * Second)), h) \<and>
     EvStatusUpdate o' \<in> set h \<and> StatusPhase (ObjStatus o') = ClaimReady"
    by (simp add: demo_run_defs E reg demo_env_def demo_other_def demo_other_pod)
  note run = this
  have names: "kube_names demo_other"
    by (simp add: kube_names_def demo_other_def demo_env_def demo_claim_def demo_pod_def utf8_valid_ascii)
  from run show ?thesis
    unfolding E_def by (intro made_readyI [where ns = "''other''" and n = "''box''", OF names _ _ demo_requeue]) (simp add: demo_other_def)
qed

lemma demo_made_deleted:
  assumes "edge_good demo_route_client e"
  shows "\<exists>e'. made_deleted demo_world demo_route_client \<lparr>Registrar = True\<rparr> e (demo_env (Some 5)) (demo_claim [] (Some 5)) e'"
proof -
  define E where "E = with_registrar demo_world demo_route_client e (demo_env (Some 5))"
  have "ed_adminSecret e = ed_adminSecret demo_edge" using assms demo_edge_secret by (simp add: edge_good_def)
  then have unreg: "\<forall>ev \<in> set h. \<not> route_event ev \<Longrightarrow> env_Unregister E h ''box'' = None" for h
    using demo_edge_unregisters [of e] edge_at_quiet [of h demo_world demo_route_client e] by (simp add: E_def registrar_answers)
  have E: "env_GetClaim E = env_GetClaim (demo_env (Some 5))" "env_PodDelete E = env_PodDelete (demo_env (Some 5))"
    "env_StatusUpdate E = env_StatusUpdate (demo_env (Some 5))" "env_Update E = env_Update (demo_env (Some 5))" "env_Now E = env_Now (demo_env (Some 5))"
    by (simp_all add: E_def with_registrar_rest)
  have "\<exists>x h o'. Controller_Reconcile E \<lparr>Registrar = True\<rparr> [] ''team'' ''box'' = (x, h) \<and> EvUpdate o' \<in> set h \<and> claimFinalizer \<notin> set (Finalizers o')"
    by (simp add: demo_run_defs E unreg demo_env_def reconcileDelete_def Pods_Delete_def removeString_def)
  then show ?thesis
    unfolding E_def by (intro made_deletedI [where ns = "''team''" and n = "''box''"]) (simp add: demo_env_def)
qed

theorem same_name_one_route_witness:
  "\<exists>e e' e''. made_ready demo_world demo_route_client \<lparr>Registrar = True\<rparr> demo_edge (demo_env None) (demo_claim [] None) e \<and>
     made_ready demo_world demo_route_client \<lparr>Registrar = True\<rparr> e demo_other ((demo_claim [] None)\<lparr>ObjNamespace := ''other''\<rparr>) e' \<and>
     made_deleted demo_world demo_route_client \<lparr>Registrar = True\<rparr> e' (demo_env (Some 5)) (demo_claim [] (Some 5)) e'' \<and>
     Reg_Get (ed_Routes e') ''box'' = Some \<lparr>u_Scheme = ''http'', u_User = None, u_Host = ''10.0.0.9:8080'', u_Path = [], u_RawQuery = [], u_Fragment = []\<rparr> \<and>
     Reg_Get (ed_Routes e'') ''box'' = None"
proof -
  have good: "edge_good demo_route_client demo_edge" using demo_edge_secret by (simp add: edge_good_def)
  from demo_made_ready [OF good] obtain e where
    one: "made_ready demo_world demo_route_client \<lparr>Registrar = True\<rparr> demo_edge (demo_env None) (demo_claim [] None) e" by blast
  from made_ready_routes [OF one _ good] have good1: "edge_good demo_route_client e" by simp
  from demo_made_ready_other [OF this] obtain e' where
    two: "made_ready demo_world demo_route_client \<lparr>Registrar = True\<rparr> e demo_other ((demo_claim [] None)\<lparr>ObjNamespace := ''other''\<rparr>) e'" by blast
  from made_ready_routes [OF two _ good1] have good2: "edge_good demo_route_client e'" by simp
  from demo_made_deleted [OF this] obtain e'' where
    three: "made_deleted demo_world demo_route_client \<lparr>Registrar = True\<rparr> e' (demo_env (Some 5)) (demo_claim [] (Some 5)) e''" by blast
  have sec: "demo_getenv ''KUBEBOX_ADMIN_SECRET'' = demo_controller_env ''KUBEBOX_ADMIN_SECRET''"
    by (simp add: demo_getenv_def demo_controller_env_def)
  have start: "system_run (w_parse demo_world) (w_encode demo_world) demo_route_client \<lparr>Registrar = True\<rparr> (system_start demo_edge) [] (system_start demo_edge)"
    by (rule sr_start)
  have first: "made_ready demo_world demo_route_client \<lparr>Registrar = True\<rparr> (sys_Edge (system_start demo_edge)) (demo_env None) (demo_claim [] None) e"
    using one by (simp add: system_start_def)
  have box: "ObjName (demo_claim [] d) = ''box''" "SandboxRef (ObjStatus (demo_claim [] d)) = ''box''" for d by (simp_all add: demo_claim_def)
  have "demo_parse_url ''http://10.0.0.9:8080'' =
      Some \<lparr>u_Scheme = ''http'', u_User = None, u_Host = ''10.0.0.9:8080'', u_Path = [], u_RawQuery = [], u_Fragment = []\<rparr>"
    by (simp add: demo_parse_url_def HasPrefix_def TrimPrefix_def)
  then show ?thesis
    using same_name_one_route [OF demo_controller_start demo_edge_start sec start first two _ three] one two three demo_urls(2)
    by (auto simp: box demo_other_def clean_target_def)
qed

end
