(* ===== verification/Operator_Scheme.thy ===== *)
theory Operator_Scheme
  imports Operator_Edge
begin

text \<open>
  The scheme of the controller: \<open>GroupVersion\<close> and \<open>AddToScheme\<close> of
  \<open>internal/kubeapi/types.go\<close>, \<open>AddToScheme\<close> of \<open>internal/operator/setup.go\<close> and the \<open>init\<close> of
  \<open>cmd/controller/main.go\<close>. The scheme itself is the library's: its operations are
  arguments, and what is used of them are hypotheses.
\<close>

section \<open>Model\<close>

record GroupVersionRec =
  gv_Group :: string
  gv_Version :: string

definition GroupVersion :: GroupVersionRec where
  "GroupVersion = \<lparr>gv_Group = ''sandbox.kubebox.io'', gv_Version = ''v1alpha1''\<rparr>"

definition gv_String :: "GroupVersionRec \<Rightarrow> string" where
  \<comment> \<open>\<open>schema.GroupVersion.String\<close> for a version with a group\<close>
  "gv_String gv = gv_Group gv @ ''/'' @ gv_Version gv"

record 's SchemeOps =
  sch_New :: 's
  sch_Client :: "'s \<Rightarrow> string option \<times> 's" \<comment> \<open>\<open>clientgoscheme.AddToScheme\<close>\<close>
  sch_AddKnownTypes :: "'s \<Rightarrow> GroupVersionRec \<Rightarrow> string list \<Rightarrow> 's" \<comment> \<open>the names of the types\<close>
  sch_AddToGroupVersion :: "'s \<Rightarrow> GroupVersionRec \<Rightarrow> 's" \<comment> \<open>\<open>metav1.AddToGroupVersion\<close>\<close>

definition kubeapi_AddToScheme :: "'s SchemeOps \<Rightarrow> 's \<Rightarrow> string option \<times> 's" where
  "kubeapi_AddToScheme ops s =
     (let s = sch_AddKnownTypes ops s GroupVersion [''SandboxClaim'', ''SandboxClaimList''];
          s = sch_AddToGroupVersion ops s GroupVersion
      in (None, s))"

definition operator_AddToScheme :: "'s SchemeOps \<Rightarrow> 's \<Rightarrow> string option \<times> 's" where
  "operator_AddToScheme ops s = kubeapi_AddToScheme ops s"

text \<open>\<open>utilruntime.Must\<close> panics on an error (\<open>None\<close>).\<close>

definition controller_init :: "'s SchemeOps \<Rightarrow> 's option" where
  "controller_init ops =
     (case sch_Client ops (sch_New ops) of
        (Some _, _) \<Rightarrow> None
      | (None, s) \<Rightarrow>
          (case operator_AddToScheme ops s of
             (Some _, _) \<Rightarrow> None
           | (None, s) \<Rightarrow> Some s))"

section \<open>The kinds of the controller\<close>

text \<open>
  The controller starts with the types of the repository in its scheme: \<open>init\<close> panics only
  when the library's own registration fails, and the kind a pod names as its owner is one
  the scheme then recognises, under the same group and version.
\<close>

lemma owner_kind_registered:
  assumes known: "\<And>s gv ks gv' k. recognizes (sch_AddKnownTypes ops s gv ks) gv' k \<longleftrightarrow> gv' = gv \<and> k \<in> set ks \<or> recognizes s gv' k"
    and kept: "\<And>s gv gv' k. recognizes s gv' k \<Longrightarrow> recognizes (sch_AddToGroupVersion ops s gv) gv' k"
    and own: "own \<in> set (kp_OwnerReferences (kubePod pod))"
  shows "(controller_init ops = None \<longleftrightarrow> fst (sch_Client ops (sch_New ops)) \<noteq> None) \<and>
    (\<forall>s. controller_init ops = Some s \<longrightarrow>
       (\<exists>gv. own_APIVersion own = gv_String gv \<and> recognizes s gv (own_Kind own)))"
proof -
  have "own_APIVersion own = gv_String GroupVersion" "own_Kind own = ''SandboxClaim''"
    using own by (auto simp: kubePod_def gv_String_def GroupVersion_def Let_def split: if_splits)
  moreover have "recognizes s GroupVersion ''SandboxClaim''" if "controller_init ops = Some s" for s
    using that by (auto simp: controller_init_def operator_AddToScheme_def kubeapi_AddToScheme_def known Let_def
        intro!: kept split: prod.splits option.splits)
  moreover have "controller_init ops = None \<longleftrightarrow> fst (sch_Client ops (sch_New ops)) \<noteq> None"
    by (auto simp: controller_init_def operator_AddToScheme_def kubeapi_AddToScheme_def Let_def split: prod.splits option.splits)
  ultimately show ?thesis by auto
qed

text \<open>An instance: a scheme as the set of its kinds.\<close>

definition set_scheme :: "(GroupVersionRec \<times> string) set SchemeOps" where
  "set_scheme = \<lparr>sch_New = {}, sch_Client = \<lambda>s. (None, s), sch_AddKnownTypes = \<lambda>s gv ks. s \<union> Pair gv ` set ks,
     sch_AddToGroupVersion = \<lambda>s gv. s\<rparr>"

lemma owner_kind_registered_instance:
  "\<exists>s gv. controller_init set_scheme = Some s \<and> own_APIVersion (hd (kp_OwnerReferences demo_pod)) = gv_String gv \<and>
     (gv, own_Kind (hd (kp_OwnerReferences demo_pod))) \<in> s"
proof -
  have "kp_OwnerReferences demo_pod = kp_OwnerReferences (kubePod (claimPod (claimOf (demo_claim [] None))))"
    by (simp add: demo_pod_def)
  moreover have "kp_OwnerReferences demo_pod \<noteq> []"
    by (simp add: demo_pod_def kubePod_def claimPod_def claimOf_def demo_claim_def label_def Let_def)
  ultimately have own: "hd (kp_OwnerReferences demo_pod) \<in> set (kp_OwnerReferences (kubePod (claimPod (claimOf (demo_claim [] None)))))"
    using hd_in_set by metis
  have "controller_init set_scheme \<noteq> None"
    by (simp add: controller_init_def operator_AddToScheme_def kubeapi_AddToScheme_def set_scheme_def)
  with owner_kind_registered [of "\<lambda>s gv k. (gv, k) \<in> s" set_scheme, OF _ _ own] show ?thesis
    by (auto simp: set_scheme_def)
qed

end
