(* ===== verification/Kube_Objects.thy ===== *)
theory Kube_Objects
  imports Operator
begin

text \<open>
  The API objects of \<open>internal/kubeapi/types.go\<close> with their sharing: maps, slices and
  pointers are addresses of a store, so that a copy can share them with its original. The
  copy of the metadata is apimachinery's and an argument. The last part is the in-place
  loop of \<open>removeString\<close> on the backing array of its slice.
\<close>

section \<open>Model\<close>

record ObjectMeta =
  om_Namespace :: string
  om_Name :: string
  om_UID :: string
  om_Labels :: "nat option"
  om_Finalizers :: "nat option"
  om_DeletionTimestamp :: "nat option"

record ClaimStatusObj =
  so_Phase :: string
  so_SandboxRef :: string
  so_ProxyEndpoint :: string
  so_AllocationID :: string
  so_ExpiresAt :: "nat option"

record ClaimObj =
  co_TypeMeta :: "string \<times> string"
  co_ObjectMeta :: ObjectMeta
  co_Spec :: SandboxClaimSpec
  co_Status :: ClaimStatusObj

record ListMeta =
  lm_ResourceVersion :: string
  lm_Continue :: string
  lm_RemainingItemCount :: "nat option"

record SandboxClaimList =
  li_TypeMeta :: "string \<times> string"
  li_ListMeta :: ListMeta
  li_Items :: "nat option"

datatype cell = Labels labels | Strings "string list" | Time time | Int64 int | Items "ClaimObj list"

text \<open>The store: addresses below \<open>hp_next\<close> are in use. An address always points at a cell.\<close>

record heap =
  hp_at :: "nat \<Rightarrow> cell"
  hp_next :: nat

definition alloc :: "heap \<Rightarrow> cell \<Rightarrow> nat \<times> heap" where
  "alloc h v = (hp_next h, h\<lparr>hp_at := (hp_at h)(hp_next h := v), hp_next := hp_next h + 1\<rparr>)"

definition store :: "heap \<Rightarrow> nat \<Rightarrow> cell \<Rightarrow> heap" where
  "store h p v = h\<lparr>hp_at := (hp_at h)(p := v)\<rparr>"

type_synonym meta_copy = "heap \<Rightarrow> ObjectMeta \<Rightarrow> ObjectMeta \<times> heap"

definition DeepCopyInto :: "meta_copy \<Rightarrow> heap \<Rightarrow> ClaimObj \<Rightarrow> ClaimObj \<times> heap" where
  "DeepCopyInto dc h o1 =
     (let out = o1;
          (m, h) = dc h (co_ObjectMeta o1);
          out = out\<lparr>co_ObjectMeta := m\<rparr>
      in case so_ExpiresAt (co_Status o1) of
           None \<Rightarrow> (out, h)
         | Some p \<Rightarrow>
             (case alloc h (hp_at h p) of
                (t, h) \<Rightarrow> (out\<lparr>co_Status := (co_Status out)\<lparr>so_ExpiresAt := Some t\<rparr>\<rparr>, h)))"

definition DeepCopy :: "meta_copy \<Rightarrow> heap \<Rightarrow> ClaimObj option \<Rightarrow> ClaimObj option \<times> heap" where
  "DeepCopy dc h o1 = (case o1 of None \<Rightarrow> (None, h) | Some x \<Rightarrow> (case DeepCopyInto dc h x of (out, h) \<Rightarrow> (Some out, h)))"

definition list_items :: "heap \<Rightarrow> SandboxClaimList \<Rightarrow> ClaimObj list" where
  "list_items h l = (case li_Items l of None \<Rightarrow> [] | Some p \<Rightarrow> (case hp_at h p of Items xs \<Rightarrow> xs | _ \<Rightarrow> []))"

definition List_DeepCopyInto :: "heap \<Rightarrow> SandboxClaimList \<Rightarrow> SandboxClaimList \<times> heap" where
  "List_DeepCopyInto h l =
     (case alloc h (Items (list_items h l)) of (p, h) \<Rightarrow> (l\<lparr>li_Items := Some p\<rparr>, h))"

definition List_DeepCopy :: "heap \<Rightarrow> SandboxClaimList option \<Rightarrow> SandboxClaimList option \<times> heap" where
  "List_DeepCopy h l = (case l of None \<Rightarrow> (None, h) | Some x \<Rightarrow> (case List_DeepCopyInto h x of (out, h) \<Rightarrow> (Some out, h)))"

section \<open>Values\<close>

text \<open>The object an address structure stands for, the type the controller works on.\<close>

definition labels_at :: "heap \<Rightarrow> nat option \<Rightarrow> labels" where
  "labels_at h p = (case p of None \<Rightarrow> Map.empty | Some a \<Rightarrow> (case hp_at h a of Labels ls \<Rightarrow> ls | _ \<Rightarrow> Map.empty))"

definition strings_at :: "heap \<Rightarrow> nat option \<Rightarrow> string list" where
  "strings_at h p = (case p of None \<Rightarrow> [] | Some a \<Rightarrow> (case hp_at h a of Strings xs \<Rightarrow> xs | _ \<Rightarrow> []))"

definition time_at :: "heap \<Rightarrow> nat option \<Rightarrow> time option" where
  "time_at h p = (case p of None \<Rightarrow> None | Some a \<Rightarrow> (case hp_at h a of Time t \<Rightarrow> Some t | _ \<Rightarrow> Some zero_time))"

definition claim_at :: "heap \<Rightarrow> ClaimObj \<Rightarrow> SandboxClaim" where
  "claim_at h o1 =
     (let m = co_ObjectMeta o1; s = co_Status o1 in
      \<lparr>ObjNamespace = om_Namespace m, ObjName = om_Name m, ObjUID = om_UID m, ObjLabels = labels_at h (om_Labels m),
       Finalizers = strings_at h (om_Finalizers m), DeletionTimestamp = time_at h (om_DeletionTimestamp m), Spec = co_Spec o1,
       ObjStatus = \<lparr>StatusPhase = so_Phase s, SandboxRef = so_SandboxRef s, StatusProxyEndpoint = so_ProxyEndpoint s,
                    StatusAllocationID = so_AllocationID s, StatusExpiresAt = time_at h (so_ExpiresAt s)\<rparr>\<rparr>)"

definition meta_refs :: "ObjectMeta \<Rightarrow> nat set" where
  "meta_refs m = set_option (om_Labels m) \<union> set_option (om_Finalizers m) \<union> set_option (om_DeletionTimestamp m)"

definition claim_refs :: "ClaimObj \<Rightarrow> nat set" where
  "claim_refs o1 = meta_refs (co_ObjectMeta o1) \<union> set_option (so_ExpiresAt (co_Status o1))"

text \<open>
  What apimachinery documents of \<open>ObjectMeta.DeepCopy\<close>: the copy has the same contents, in
  cells of its own, and the cells in use are as before.
\<close>

definition same_meta :: "heap \<Rightarrow> ObjectMeta \<Rightarrow> heap \<Rightarrow> ObjectMeta \<Rightarrow> bool" where
  "same_meta h m h' m' \<longleftrightarrow> om_Namespace m' = om_Namespace m \<and> om_Name m' = om_Name m \<and> om_UID m' = om_UID m \<and>
     labels_at h' (om_Labels m') = labels_at h (om_Labels m) \<and> strings_at h' (om_Finalizers m') = strings_at h (om_Finalizers m) \<and>
     time_at h' (om_DeletionTimestamp m') = time_at h (om_DeletionTimestamp m)"

definition extends :: "heap \<Rightarrow> heap \<Rightarrow> bool" where
  "extends h h' \<longleftrightarrow> hp_next h \<le> hp_next h' \<and> (\<forall>p < hp_next h. hp_at h' p = hp_at h p)"

definition copies_meta :: "meta_copy \<Rightarrow> bool" where
  "copies_meta dc \<longleftrightarrow> (\<forall>h m m' h'. (\<forall>p \<in> meta_refs m. p < hp_next h) \<longrightarrow> dc h m = (m', h') \<longrightarrow>
     same_meta h m h' m' \<and> extends h h' \<and> (\<forall>p \<in> meta_refs m'. hp_next h \<le> p \<and> p < hp_next h'))"

section \<open>Lemmas\<close>

lemma at_frame:
  assumes "\<forall>p \<in> set_option q. hp_at h' p = hp_at h p"
  shows "labels_at h' q = labels_at h q" and "strings_at h' q = strings_at h q" and "time_at h' q = time_at h q"
  using assms by (cases q; simp add: labels_at_def strings_at_def time_at_def)+

lemma claim_frame:
  assumes "\<forall>p \<in> claim_refs o1. hp_at h' p = hp_at h p"
  shows "claim_at h' o1 = claim_at h o1"
  using assms by (simp add: claim_at_def claim_refs_def meta_refs_def at_frame [of _ h' h] Let_def)

lemma store_other: "p \<notin> claim_refs o1 \<Longrightarrow> claim_at (store h p v) o1 = claim_at h o1"
  by (rule claim_frame) (auto simp: store_def)

lemma extends_alloc: "alloc h v = (p, h') \<Longrightarrow> extends h h' \<and> p = hp_next h \<and> hp_at h' p = v \<and> hp_next h' = hp_next h + 1"
  by (auto simp: alloc_def extends_def)

lemma extends_trans: "extends h h1 \<Longrightarrow> extends h1 h2 \<Longrightarrow> extends h h2"
  by (auto simp: extends_def)

lemma claim_extends: "extends h h' \<Longrightarrow> \<forall>p \<in> claim_refs o1. p < hp_next h \<Longrightarrow> claim_at h' o1 = claim_at h o1"
  by (rule claim_frame) (auto simp: extends_def)

lemma DeepCopyInto_result:
  assumes "copies_meta dc" and "\<forall>p \<in> claim_refs o1. p < hp_next h" and "DeepCopyInto dc h o1 = (out, h')"
  shows "claim_at h' out = claim_at h o1" and "extends h h'" and "\<forall>p \<in> claim_refs out. hp_next h \<le> p \<and> p < hp_next h'"
proof -
  obtain m h1 where m: "dc h (co_ObjectMeta o1) = (m, h1)" by fastforce
  from assms(1,2) m have dc: "same_meta h (co_ObjectMeta o1) h1 m" "extends h h1" "\<forall>p \<in> meta_refs m. hp_next h \<le> p \<and> p < hp_next h1"
    unfolding copies_meta_def claim_refs_def by blast+
  have "claim_at h' out = claim_at h o1 \<and> extends h h' \<and> (\<forall>p \<in> claim_refs out. hp_next h \<le> p \<and> p < hp_next h')"
  proof (cases "so_ExpiresAt (co_Status o1)")
    case None
    with assms(3) m dc show ?thesis
      by (auto simp: DeepCopyInto_def claim_at_def claim_refs_def same_meta_def time_at_def Let_def)
  next
    case (Some p)
    obtain t h2 where t: "alloc h1 (hp_at h1 p) = (t, h2)" by fastforce
    from extends_alloc [OF t] have a: "extends h1 h2" "t = hp_next h1" "hp_at h2 t = hp_at h1 p" "hp_next h2 = hp_next h1 + 1" by blast+
    from Some assms(3) m t have out: "h' = h2" "out = o1\<lparr>co_ObjectMeta := m, co_Status := (co_Status o1)\<lparr>so_ExpiresAt := Some t\<rparr>\<rparr>"
      by (auto simp: DeepCopyInto_def)
    have fr: "\<forall>q \<in> meta_refs m. hp_at h2 q = hp_at h1 q" using a(1) dc(3) by (auto simp: extends_def)
    have "labels_at h2 (om_Labels m) = labels_at h1 (om_Labels m)" "strings_at h2 (om_Finalizers m) = strings_at h1 (om_Finalizers m)"
      "time_at h2 (om_DeletionTimestamp m) = time_at h1 (om_DeletionTimestamp m)"
      using fr by (auto intro!: at_frame simp: meta_refs_def)
    moreover have "p < hp_next h" using assms(2) Some by (simp add: claim_refs_def)
    then have "hp_at h1 p = hp_at h p" using dc(2) by (simp add: extends_def)
    then have "time_at h2 (Some t) = time_at h (Some p)" using a(3) by (simp add: time_at_def)
    moreover have "hp_next h \<le> hp_next h1" using dc(2) by (simp add: extends_def)
    ultimately show ?thesis
      using dc a Some unfolding out
      by (auto simp: claim_at_def claim_refs_def same_meta_def meta_refs_def Let_def intro: extends_trans)
  qed
  then show "claim_at h' out = claim_at h o1" "extends h h'" "\<forall>p \<in> claim_refs out. hp_next h \<le> p \<and> p < hp_next h'" by blast+
qed

section \<open>removeString in place\<close>

text \<open>
  \<open>out := values[:0]\<close> shares the array of \<open>values\<close>: the loop reads element \<open>i\<close> of the array as
  it is then, and an append writes element \<open>k\<close>, the length of \<open>out\<close>.
\<close>

definition remove_step :: "string \<Rightarrow> nat \<Rightarrow> nat \<times> string list \<Rightarrow> nat \<times> string list" where
  "remove_step wanted i = (\<lambda>(k, a). if a ! i \<noteq> wanted then (k + 1, a[k := a ! i]) else (k, a))"

definition removeString_array :: "string list \<Rightarrow> string \<Rightarrow> nat \<times> string list" where
  "removeString_array vs wanted = fold (remove_step wanted) [0..<length vs] (0, vs)"

lemma remove_prefix:
  assumes "n \<le> length xs"
  shows "\<exists>k a. fold (remove_step w) [0..<n] (0, xs) = (k, a) \<and> k \<le> n \<and> length a = length xs \<and>
    take k a = filter (\<lambda>v. v \<noteq> w) (take n xs) \<and> drop n a = drop n xs"
  using assms
proof (induction n)
  case (Suc n)
  then obtain k a where a: "fold (remove_step w) [0..<n] (0, xs) = (k, a)" "k \<le> n" "length a = length xs"
    "take k a = filter (\<lambda>v. v \<noteq> w) (take n xs)" "drop n a = drop n xs" by auto
  from a(5) Suc.prems a(3) have an: "a ! n = xs ! n" "drop (Suc n) a = drop (Suc n) xs"
    by (metis Cons_nth_drop_Suc Suc_le_eq list.inject)+
  have "take (Suc k) (a[k := xs ! n]) = take k a @ [xs ! n]" using a(2,3) Suc.prems by (simp add: take_Suc_conv_app_nth)
  moreover have "drop (Suc n) (a[k := xs ! n]) = drop (Suc n) xs" using an(2) a(2) by simp
  moreover have "fold (remove_step w) [0..<Suc n] (0, xs) = (if xs ! n \<noteq> w then (k + 1, a[k := xs ! n]) else (k, a))"
    using a(1) an(1) by (simp add: remove_step_def)
  ultimately show ?case using a an Suc.prems by (simp add: take_Suc_conv_app_nth del: upt_Suc)
qed simp

lemma removeString_in_place:
  "\<exists>k a. removeString_array vs wanted = (k, a) \<and> take k a = removeString vs wanted \<and> k \<le> length vs"
  using remove_prefix [of "length vs" vs wanted] by (auto simp: removeString_array_def removeString_def)

section \<open>Claims\<close>

text \<open>
  C40. A copied claim is independent: \<open>SandboxClaim.DeepCopy\<close> gives an object with the same
  contents that shares no map, slice or time with the original, so whatever is written
  through one of them leaves the other as it was; among these writes is the controller's
  in-place removal of the finalizer, which computes the finalizers without it.
\<close>

theorem DeepCopy_independent:
  assumes "copies_meta dc" and "\<forall>p \<in> claim_refs o1. p < hp_next h" and "DeepCopy dc h (Some o1) = (out, h')"
  shows "\<exists>c. out = Some c \<and> claim_at h' c = claim_at h o1 \<and> claim_refs c \<inter> claim_refs o1 = {} \<and>
     (\<forall>p v. (p \<in> claim_refs c \<longrightarrow> claim_at (store h' p v) o1 = claim_at h o1) \<and>
            (p \<in> claim_refs o1 \<longrightarrow> claim_at (store h' p v) c = claim_at h o1)) \<and>
     (\<forall>p. om_Finalizers (co_ObjectMeta c) = Some p \<longrightarrow>
        (case removeString_array (Finalizers (claim_at h o1)) claimFinalizer of (k, a) \<Rightarrow>
           claim_at (store h' p (Strings (take k a))) o1 = claim_at h o1 \<and>
           Finalizers (claim_at (store h' p (Strings (take k a))) c) = removeString (Finalizers (claim_at h o1)) claimFinalizer))"
proof -
  obtain c where c: "DeepCopyInto dc h o1 = (c, h')" "out = Some c" using assms(3) by (auto simp: DeepCopy_def split: prod.splits)
  note r = DeepCopyInto_result [OF assms(1,2) c(1)]
  have disj: "claim_refs c \<inter> claim_refs o1 = {}" using r(3) assms(2) by fastforce
  have orig: "claim_at h' o1 = claim_at h o1" using r(2) assms(2) by (rule claim_extends)
  have "claim_at (store h' p v) o1 = claim_at h o1" if "p \<in> claim_refs c" for p v
    using store_other [of p o1 h' v] disj that orig by auto
  moreover have "claim_at (store h' p v) c = claim_at h o1" if "p \<in> claim_refs o1" for p v
    using store_other [of p c h' v] disj that r(1) by auto
  moreover obtain k a where ka: "removeString_array (Finalizers (claim_at h o1)) claimFinalizer = (k, a)"
    "take k a = removeString (Finalizers (claim_at h o1)) claimFinalizer" using removeString_in_place by blast
  moreover have "Finalizers (claim_at (store h' p (Strings xs)) c) = xs" and "p \<in> claim_refs c"
    if "om_Finalizers (co_ObjectMeta c) = Some p" for p xs
    using that by (simp_all add: claim_at_def strings_at_def store_def claim_refs_def meta_refs_def Let_def)
  ultimately show ?thesis using c(2) r(1) disj by (intro exI [of _ c]) auto
qed

text \<open>A copy of the metadata that allocates, and a claim with labels, a finalizer and an expiry.\<close>

definition copy_ptr :: "heap \<Rightarrow> nat option \<Rightarrow> nat option \<times> heap" where
  "copy_ptr h p = (case p of None \<Rightarrow> (None, h) | Some a \<Rightarrow> (case alloc h (hp_at h a) of (t, h) \<Rightarrow> (Some t, h)))"

definition demo_meta_copy :: meta_copy where
  "demo_meta_copy h m =
     (case copy_ptr h (om_Labels m) of (l, h) \<Rightarrow> case copy_ptr h (om_Finalizers m) of (f, h) \<Rightarrow>
      case copy_ptr h (om_DeletionTimestamp m) of (d, h) \<Rightarrow>
        (m\<lparr>om_Labels := l, om_Finalizers := f, om_DeletionTimestamp := d\<rparr>, h))"

lemma copy_ptr_result:
  assumes "copy_ptr h p = (q, h')"
  shows "extends h h'" and "\<forall>a \<in> set_option q. hp_next h \<le> a \<and> a < hp_next h'"
    and "\<And>h2. extends h' h2 \<Longrightarrow> labels_at h2 q = labels_at h p \<and> strings_at h2 q = strings_at h p \<and> time_at h2 q = time_at h p"
  using assms by (auto simp: copy_ptr_def alloc_def extends_def labels_at_def strings_at_def time_at_def split: option.splits)

lemma demo_copies_meta: "copies_meta demo_meta_copy"
  unfolding copies_meta_def
proof (intro allI impI)
  fix h m m' h' assume m: "\<forall>p \<in> meta_refs m. p < hp_next h" and d: "demo_meta_copy h m = (m', h')"
  obtain l h1 f h2 t where c: "copy_ptr h (om_Labels m) = (l, h1)" "copy_ptr h1 (om_Finalizers m) = (f, h2)"
    "copy_ptr h2 (om_DeletionTimestamp m) = (t, h')" and m': "m' = m\<lparr>om_Labels := l, om_Finalizers := f, om_DeletionTimestamp := t\<rparr>"
    using d by (auto simp: demo_meta_copy_def split: prod.splits)
  note r = copy_ptr_result [OF c(1)] copy_ptr_result [OF c(2)] copy_ptr_result [OF c(3)]
  have x: "extends h h2" "extends h h'" "extends h1 h'" "extends h' h'" using r(1,4,7) by (auto intro: extends_trans simp: extends_def)
  have "strings_at h1 (om_Finalizers m) = strings_at h (om_Finalizers m)" "time_at h2 (om_DeletionTimestamp m) = time_at h (om_DeletionTimestamp m)"
    using m r(1) x(1) by (auto intro!: at_frame simp: extends_def meta_refs_def)
  then have "same_meta h m h' m'" using r(3) [OF x(3)] r(6) [OF r(7)] r(9) [OF x(4)] by (simp add: same_meta_def m')
  moreover have "\<forall>p \<in> meta_refs m'. hp_next h \<le> p \<and> p < hp_next h'"
    using r(2,5,8) r(1,4,7) by (fastforce simp: meta_refs_def m' extends_def)
  ultimately show "same_meta h m h' m' \<and> extends h h' \<and> (\<forall>p \<in> meta_refs m'. hp_next h \<le> p \<and> p < hp_next h')" using x(2) by blast
qed

definition demo_claim_obj :: ClaimObj where
  "demo_claim_obj = \<lparr>co_TypeMeta = (''SandboxClaim'', ''sandbox.kubebox.io/v1alpha1''),
     co_ObjectMeta = \<lparr>om_Namespace = ''team'', om_Name = ''box'', om_UID = ''u1'', om_Labels = Some 0, om_Finalizers = Some 1, om_DeletionTimestamp = None\<rparr>,
     co_Spec = \<lparr>ClassRef = ''kata'', SpecTemplate = ''python'', SpecTTLSeconds = 600, SpecDesiredState = [], SpecIdempotencyKey = ''k1''\<rparr>,
     co_Status = \<lparr>so_Phase = ''Ready'', so_SandboxRef = ''box'', so_ProxyEndpoint = [], so_AllocationID = [], so_ExpiresAt = Some 2\<rparr>\<rparr>"

definition demo_heap :: heap where
  "demo_heap = \<lparr>hp_at = (\<lambda>_. Time 0)(0 := Labels [''kubebox.io/tenant'' \<mapsto> ''acme''], 1 := Strings [claimFinalizer], 2 := Time 7,
     3 := Items [demo_claim_obj]), hp_next = 4\<rparr>"

theorem DeepCopy_independent_witness:
  "\<exists>c h'. DeepCopy demo_meta_copy demo_heap (Some demo_claim_obj) = (Some c, h') \<and> claim_at h' c = claim_at demo_heap demo_claim_obj \<and>
     claim_refs c \<inter> claim_refs demo_claim_obj = {} \<and> claim_refs c \<noteq> {}"
proof -
  obtain out h' where d: "DeepCopy demo_meta_copy demo_heap (Some demo_claim_obj) = (out, h')" by fastforce
  have refs: "\<forall>p \<in> claim_refs demo_claim_obj. p < hp_next demo_heap"
    by (simp add: claim_refs_def meta_refs_def demo_claim_obj_def demo_heap_def)
  from DeepCopy_independent [OF demo_copies_meta refs d] obtain c where c: "out = Some c" "claim_at h' c = claim_at demo_heap demo_claim_obj"
    "claim_refs c \<inter> claim_refs demo_claim_obj = {}" by blast
  have "labels_at h' (om_Labels (co_ObjectMeta c)) = [''kubebox.io/tenant'' \<mapsto> ''acme'']"
    using arg_cong [OF c(2), of ObjLabels] by (simp add: claim_at_def labels_at_def demo_claim_obj_def demo_heap_def Let_def)
  then have "labels_at h' (om_Labels (co_ObjectMeta c)) ''kubebox.io/tenant'' = Some ''acme''" by simp
  then have "claim_refs c \<noteq> {}" by (auto simp: claim_refs_def meta_refs_def labels_at_def split: option.splits)
  with c d show ?thesis by blast
qed

text \<open>
  A copied list is not: \<open>SandboxClaimList.DeepCopy\<close> copies the items with their
  addresses, so the labels of an item of the copy are those of the original, and a write
  of them through the copy shows in the item of the original list.
\<close>

theorem list_copy_shares_items:
  assumes "List_DeepCopy h (Some l) = (out, h')" and "li_Items l = Some q" and "q < hp_next h" and "hp_at h q = Items xs"
    and "k < length xs" and "om_Labels (co_ObjectMeta (xs ! k)) = Some p" and "p < hp_next h" and "hp_at h p = Labels old"
  shows "\<exists>l'. out = Some l' \<and> li_Items l' \<noteq> li_Items l \<and> list_items h' l' ! k = list_items h' l ! k \<and>
     (\<forall>new. ObjLabels (claim_at (store h' p (Labels new)) (list_items (store h' p (Labels new)) l ! k)) = new)"
proof -
  have pq: "p \<noteq> q" using assms(4,8) by auto
  have "list_items (store h' p (Labels new)) l ! k = xs ! k" for new
    using assms pq by (auto simp: List_DeepCopy_def List_DeepCopyInto_def alloc_def list_items_def store_def)
  with assms show ?thesis
    by (auto simp: List_DeepCopy_def List_DeepCopyInto_def alloc_def list_items_def claim_at_def labels_at_def store_def Let_def)
qed

theorem list_copy_shares_items_witness:
  "\<exists>l' h'. List_DeepCopy demo_heap (Some \<lparr>li_TypeMeta = ([], []), li_ListMeta = \<lparr>lm_ResourceVersion = [], lm_Continue = [], lm_RemainingItemCount = None\<rparr>,
      li_Items = Some 3\<rparr>) = (Some l', h') \<and> li_Items l' \<noteq> Some 3 \<and>
     ObjLabels (claim_at (store h' 0 (Labels Map.empty)) (list_items (store h' 0 (Labels Map.empty))
       \<lparr>li_TypeMeta = ([], []), li_ListMeta = \<lparr>lm_ResourceVersion = [], lm_Continue = [], lm_RemainingItemCount = None\<rparr>, li_Items = Some 3\<rparr> ! 0)) = Map.empty"
proof -
  let ?l = "\<lparr>li_TypeMeta = ([], []), li_ListMeta = \<lparr>lm_ResourceVersion = [], lm_Continue = [], lm_RemainingItemCount = None\<rparr>, li_Items = Some 3\<rparr>"
  obtain out h' where d: "List_DeepCopy demo_heap (Some ?l) = (out, h')" by fastforce
  have "hp_at demo_heap 3 = Items [demo_claim_obj]" "hp_at demo_heap 0 = Labels [''kubebox.io/tenant'' \<mapsto> ''acme'']" "hp_next demo_heap = 4"
    by (simp_all add: demo_heap_def)
  with list_copy_shares_items [OF d, of 3 "[demo_claim_obj]" 0 0] d show ?thesis by (auto simp: demo_claim_obj_def)
qed

end
