(* ===== verification/File_System.thy ===== *)
theory File_System
  imports Go_Path Kubebox_Prelude
begin

text \<open>
  The file system the envd executor works on: a map from canonical paths (lists of
  components from the root directory) to files, directories and symbolic links. The
  walk of a path follows links with a budget: 40 for a system call of Linux, 255 for Go's
  \<open>filepath.EvalSymlinks\<close>. Permissions, hard links, mounts and the limits on lengths are
  not modelled; the working directory is the root directory.
\<close>

section \<open>Model\<close>

datatype node = File string | Directory | Symlink string

type_synonym fs = "string list \<rightharpoonup> node"

datatype os_error = ENOENT | ENOTDIR | EISDIR | EEXIST | ELOOP

text \<open>
  The walk from the directory \<open>cur\<close> along the components. When only the last component
  is missing the result is the path it would have, as the kernel does for creation.
\<close>

function walk :: "nat \<Rightarrow> bool \<Rightarrow> fs \<Rightarrow> string list \<Rightarrow> string list \<Rightarrow> (os_error, string list) result" where
  "walk n follow m cur [] = Inr cur"
| "walk n follow m cur (c # cs) =
     (if c = [] \<or> c = ''.'' then walk n follow m cur cs
      else if c = ''..'' then walk n follow m (butlast cur) cs
      else (case m (cur @ [c]) of
              None \<Rightarrow> if cs = [] then Inr (cur @ [c]) else Inl ENOENT
            | Some (File _) \<Rightarrow> if cs = [] then Inr (cur @ [c]) else Inl ENOTDIR
            | Some Directory \<Rightarrow> walk n follow m (cur @ [c]) cs
            | Some (Symlink t) \<Rightarrow>
                if cs = [] \<and> \<not> follow then Inr (cur @ [c])
                else if n = 0 then Inl ELOOP
                else walk (n - 1) follow m (if IsAbs t then [] else cur) (Split t (CHR ''/'') @ cs)))"
  by pat_completeness auto
termination
  by (relation "measures [\<lambda>(n, _, _, _, _). n, \<lambda>(_, _, _, _, cs). length cs]") auto

definition kernel_links :: nat where "kernel_links = 40"

definition go_links :: nat where "go_links = 255"

definition kwalk :: "bool \<Rightarrow> fs \<Rightarrow> string \<Rightarrow> (os_error, string list) result" where
  "kwalk follow m s = (if s = [] then Inl ENOENT else walk kernel_links follow m [] (Split s (CHR ''/'')))"

definition stat_at :: "fs \<Rightarrow> (os_error, string list) result \<Rightarrow> (os_error, node) result" where
  "stat_at m r = (case r of Inl e \<Rightarrow> Inl e | Inr p \<Rightarrow> (case m p of None \<Rightarrow> Inl ENOENT | Some nd \<Rightarrow> Inr nd))"

definition Lstat :: "fs \<Rightarrow> string \<Rightarrow> (os_error, node) result" where
  "Lstat m s = stat_at m (kwalk False m s)"

definition Stat :: "fs \<Rightarrow> string \<Rightarrow> (os_error, node) result" where
  "Stat m s = stat_at m (kwalk True m s)"

definition EvalSymlinks :: "fs \<Rightarrow> string \<Rightarrow> (os_error, string) result" where
  "EvalSymlinks m s =
     (case walk go_links True m [] (Split s (CHR ''/'')) of
        Inl e \<Rightarrow> Inl e
      | Inr p \<Rightarrow> (case m p of None \<Rightarrow> Inl ENOENT | Some _ \<Rightarrow> Inr (abs_path p)))"

definition os_ReadFile :: "fs \<Rightarrow> string \<Rightarrow> (os_error, string) result" where
  "os_ReadFile m s =
     (case Stat m s of
        Inl e \<Rightarrow> Inl e
      | Inr (File t) \<Rightarrow> Inr t
      | Inr Directory \<Rightarrow> Inl EISDIR
      | Inr (Symlink _) \<Rightarrow> Inl ELOOP)"

definition os_WriteFile :: "fs \<Rightarrow> string \<Rightarrow> string \<Rightarrow> (os_error, fs) result" where
  \<comment> \<open>open with \<open>O_CREATE\<close> and \<open>O_TRUNC\<close>, then write\<close>
  "os_WriteFile m s data =
     (case kwalk True m s of
        Inl e \<Rightarrow> Inl e
      | Inr p \<Rightarrow>
          (case m p of
             None \<Rightarrow> Inr (m(p \<mapsto> File data))
           | Some (File _) \<Rightarrow> Inr (m(p \<mapsto> File data))
           | Some Directory \<Rightarrow> Inl EISDIR
           | Some (Symlink _) \<Rightarrow> Inl ELOOP))"

definition Mkdir :: "fs \<Rightarrow> string list \<Rightarrow> (os_error, fs) result" where
  \<comment> \<open>the system call, on the components of an absolute path\<close>
  "Mkdir m cs =
     (case walk kernel_links False m [] cs of
        Inl e \<Rightarrow> Inl e
      | Inr p \<Rightarrow> (case m p of None \<Rightarrow> Inr (m(p \<mapsto> Directory)) | Some _ \<Rightarrow> Inl EEXIST))"

text \<open>
  \<open>os.MkdirAll\<close> of an absolute clean path, given by its components, last first. What it
  created stays when a later step fails.
\<close>

fun MkdirAll :: "fs \<Rightarrow> string list \<Rightarrow> os_error option \<times> fs" where
  "MkdirAll m [] = (None, m)"
| "MkdirAll m (c # rcs) =
     (case stat_at m (walk kernel_links True m [] (rev (c # rcs))) of
        Inr nd \<Rightarrow> (if nd = Directory then None else Some ENOTDIR, m)
      | Inl _ \<Rightarrow>
          (case MkdirAll m rcs of
             (Some e, m1) \<Rightarrow> (Some e, m1)
           | (None, m1) \<Rightarrow>
               (case Mkdir m1 (rev (c # rcs)) of
                  Inr m2 \<Rightarrow> (None, m2)
                | Inl e \<Rightarrow>
                    if stat_at m1 (walk kernel_links False m1 [] (rev (c # rcs))) = Inr Directory then (None, m1)
                    else (Some e, m1))))"

section \<open>Well-formed file systems\<close>

definition fs_wf :: "fs \<Rightarrow> bool" where
  "fs_wf m \<longleftrightarrow> m [] = Some Directory \<and>
     (\<forall>p c. m (p @ [c]) \<noteq> None \<longrightarrow> m p = Some Directory \<and> proper c)"

lemma fs_root: "fs_wf m \<Longrightarrow> m [] = Some Directory"
  by (simp add: fs_wf_def)

lemma fs_parent: "fs_wf m \<Longrightarrow> m (p @ [c]) \<noteq> None \<Longrightarrow> m p = Some Directory"
  by (simp add: fs_wf_def)

lemma fs_butlast: "fs_wf m \<Longrightarrow> m p = Some Directory \<Longrightarrow> m (butlast p) = Some Directory"
  by (cases p rule: rev_cases) (auto simp: fs_wf_def)

lemma fs_prefix: "fs_wf m \<Longrightarrow> m (p @ q) \<noteq> None \<Longrightarrow> q \<noteq> [] \<Longrightarrow> m p = Some Directory"
proof (induction q rule: rev_induct)
  case (snoc c q)
  then have "m (p @ q) = Some Directory" by (metis append_assoc fs_parent)
  with snoc show ?case by (cases "q = []") auto
qed simp

lemma fs_components: "fs_wf m \<Longrightarrow> m p \<noteq> None \<Longrightarrow> list_all proper p"
proof (induction p rule: rev_induct)
  case (snoc c p)
  then have "m p = Some Directory" "proper c" by (auto simp: fs_wf_def)
  with snoc show ?case by simp
qed simp

lemma fs_wf_add:
  assumes "fs_wf m" and "m p = Some Directory" and "proper c" and "m (p @ [c]) = None \<or> (\<exists>t. m (p @ [c]) = Some (File t))"
  shows "fs_wf (m(p @ [c] \<mapsto> nd))"
proof -
  have leaf: "m (p @ [c] @ [d]) = None" for d
    using assms(1,4) fs_parent [of m "p @ [c]" d] by (cases "m (p @ [c, d])") auto
  have "q @ [d] = p @ [c] \<Longrightarrow> q = p \<and> d = c" for q d by simp
  then show ?thesis
    using assms leaf by (auto simp: fs_wf_def)
qed

section \<open>Walks\<close>

text \<open>A walk that succeeds gives the same path with a larger budget.\<close>

lemma walk_budget: "walk n b m cur cs = Inr p \<Longrightarrow> n \<le> n' \<Longrightarrow> walk n' b m cur cs = Inr p"
proof (induction n b m cur cs arbitrary: n' rule: walk.induct)
  case (2 n b m cur c cs)
  show ?case
  proof (cases "c = [] \<or> c = ''.'' \<or> c = ''..''")
    case True
    with 2 show ?thesis by (elim disjE) simp_all
  next
    case False
    show ?thesis
    proof (cases "m (cur @ [c])")
      case None
      with False "2.prems" show ?thesis by (simp split: if_splits)
    next
      case (Some nd)
      show ?thesis
      proof (cases nd)
        case (File x)
        with False Some "2.prems" show ?thesis by (simp split: if_splits)
      next
        case Directory
        with False Some "2.prems" "2.IH"(3) [of nd n'] show ?thesis by simp
      next
        case (Symlink l)
        show ?thesis
        proof (cases "cs = [] \<and> \<not> b")
          case True
          with False Some Symlink "2.prems" show ?thesis by simp
        next
          case go: False
          with False Some Symlink "2.prems"(1) have "n \<noteq> 0" by (auto split: if_splits)
          moreover from this False Some Symlink go "2.prems"(1)
          have "walk (n - 1) b m (if IsAbs l then [] else cur) (Split l (CHR ''/'') @ cs) = Inr p" by (simp split: if_splits)
          moreover have "n - 1 \<le> n' - 1" using "2.prems"(2) by simp
          ultimately have "walk (n' - 1) b m (if IsAbs l then [] else cur) (Split l (CHR ''/'') @ cs) = Inr p"
            using "2.IH"(4) [of nd l "n' - 1"] False Some Symlink go by blast
          with False Some Symlink go \<open>n \<noteq> 0\<close> "2.prems"(2) show ?thesis by auto
        qed
      qed
    qed
  qed
qed simp

text \<open>A walk that reaches a last component went through a directory.\<close>

lemma walk_snoc:
  assumes "walk n b m cur (cs @ [t]) = Inr q" and "fs_wf m" and "m cur = Some Directory" and "proper t"
  shows "\<exists>r. walk n True m cur cs = Inr r \<and> m r = Some Directory \<and> (\<not> b \<longrightarrow> q = r @ [t])"
  using assms
proof (induction n True m cur cs rule: walk.induct)
  case (1 n m cur)
  then show ?case
    by (cases b) (auto simp: proper_def split: option.splits node.splits if_splits)
next
  case (2 n m cur c cs)
  show ?case
  proof (cases "c = [] \<or> c = ''.'' \<or> c = ''..''")
    case True
    with 2 show ?thesis by (auto simp: fs_butlast)
  next
    case False
    with "2.prems" obtain nd where nd: "m (cur @ [c]) = Some nd" by (cases "m (cur @ [c])") auto
    show ?thesis
    proof (cases nd)
      case (File x)
      with False nd "2.prems" show ?thesis by simp
    next
      case Directory
      with False nd "2.prems" "2.hyps"(3) show ?thesis by simp
    next
      case (Symlink l)
      with False nd "2.prems" "2.hyps"(4) show ?thesis by (auto simp: fs_root split: if_splits)
    qed
  qed
qed


text \<open>A walk that follows links never ends at one.\<close>

lemma walk_follow_node:
  assumes "walk n True m cur cs = Inr p" and "m cur = Some Directory" and "fs_wf m"
  shows "m p \<noteq> Some (Symlink l)"
  using assms
proof (induction n True m cur cs rule: walk.induct)
  case (2 n m cur c cs)
  show ?case
  proof (cases "c = [] \<or> c = ''.'' \<or> c = ''..''")
    case True
    with 2 show ?thesis by (auto simp: fs_butlast)
  next
    case False
    show ?thesis
    proof (cases "m (cur @ [c])")
      case None
      with False "2.prems" show ?thesis by (auto split: if_splits)
    next
      case (Some nd)
      with False "2.prems" "2.hyps"(3,4) show ?thesis by (cases nd) (auto simp: fs_root split: if_splits)
    qed
  qed
qed auto

text \<open>
  The walk of a longer path, with a budget that may be smaller, goes on from where the
  walk of its first part ended.
\<close>

lemma walk_split:
  assumes "walk n True m cur as = Inr r" and "m r \<noteq> None" and "n' \<le> n" and "ts \<noteq> []"
    and "m cur = Some Directory" and "fs_wf m"
  shows "walk n' b m cur (as @ ts) = Inl ELOOP \<or>
         (m r \<noteq> Some Directory \<and> walk n' b m cur (as @ ts) = Inl ENOTDIR) \<or>
         (m r = Some Directory \<and> (\<exists>n'' \<le> n'. walk n' b m cur (as @ ts) = walk n'' b m r ts))"
  using assms
proof (induction n True m cur as arbitrary: n' rule: walk.induct)
  case (1 n m cur)
  then show ?case by auto
next
  case (2 n m cur c cs)
  show ?case
  proof (cases "c = [] \<or> c = ''.'' \<or> c = ''..''")
    case True
    note prems = "2.prems"
    from True consider "c = [] \<or> c = ''.''" | "c = ''..''" by blast
    then show ?thesis
    proof cases
      case 1
      then have "walk n True m cur cs = Inr r" using prems(1) by auto
      from "2.hyps"(1) [OF 1 this prems(2-6)] show ?thesis using 1 by auto
    next
      case dots: 2
      then have "walk n True m (butlast cur) cs = Inr r" using prems(1) by simp
      from "2.hyps"(2) [OF _ dots this prems(2-4) fs_butlast [OF prems(6,5)] prems(6)]
      show ?thesis using dots by simp
    qed
  next
    case False
    with "2.prems"(1,2) obtain nd where nd: "m (cur @ [c]) = Some nd"
      by (cases "m (cur @ [c])") (auto split: if_splits)
    show ?thesis
    proof (cases nd)
      case (File x)
      with False nd "2.prems" show ?thesis by (auto split: if_splits)
    next
      case Directory
      with False nd "2.prems" "2.hyps"(3) [of nd n'] show ?thesis by simp
    next
      case (Symlink l)
      show ?thesis
      proof (cases "n' = 0")
        case True
        with False nd Symlink "2.prems"(4) show ?thesis by simp
      next
        case n': False
        let ?cur = "if IsAbs l then [] else cur"
        have "n \<noteq> 0" using n' "2.prems"(3) by simp
        with False nd Symlink "2.prems"(1)
        have "walk (n - 1) True m ?cur (Split l (CHR ''/'') @ cs) = Inr r" by simp
        moreover have "m ?cur = Some Directory" using "2.prems"(5,6) by (simp add: fs_root)
        moreover have "n' - 1 \<le> n - 1" using "2.prems"(3) by simp
        ultimately have "walk (n' - 1) b m ?cur ((Split l (CHR ''/'') @ cs) @ ts) = Inl ELOOP \<or>
            (m r \<noteq> Some Directory \<and> walk (n' - 1) b m ?cur ((Split l (CHR ''/'') @ cs) @ ts) = Inl ENOTDIR) \<or>
            (m r = Some Directory \<and> (\<exists>n'' \<le> n' - 1. walk (n' - 1) b m ?cur ((Split l (CHR ''/'') @ cs) @ ts) = walk n'' b m r ts))"
          using "2.hyps"(4) [of nd l "n' - 1"] False nd Symlink \<open>n \<noteq> 0\<close> "2.prems"(2,4,6) by blast
        moreover have "walk n' b m cur ((c # cs) @ ts) = walk (n' - 1) b m ?cur ((Split l (CHR ''/'') @ cs) @ ts)"
          using False nd Symlink n' "2.prems"(4) by simp
        moreover have "n'' \<le> n' - 1 \<Longrightarrow> n'' \<le> n'" for n'' by simp
        ultimately show ?thesis by metis
      qed
    qed
  qed
qed

text \<open>Adding nodes or changing the text of files does not change a walk that succeeded.\<close>

definition grows :: "fs \<Rightarrow> fs \<Rightarrow> bool" where
  "grows m m' \<longleftrightarrow> (\<forall>p nd. m p = Some nd \<longrightarrow>
     (case nd of File _ \<Rightarrow> \<exists>t. m' p = Some (File t) | _ \<Rightarrow> m' p = Some nd))"

lemma grows_refl: "grows m m"
  by (auto simp: grows_def split: node.splits)

lemma grows_upd:
  assumes "grows m m1" and "m1 p = None \<or> (\<exists>t d. m1 p = Some (File t) \<and> nd = File d)"
  shows "grows m (m1(p \<mapsto> nd))"
  unfolding grows_def
proof (intro allI impI)
  fix q x assume "m q = Some x"
  with assms(1) have g: "case x of File _ \<Rightarrow> \<exists>t. m1 q = Some (File t) | _ \<Rightarrow> m1 q = Some x" by (auto simp: grows_def)
  show "case x of File _ \<Rightarrow> \<exists>t. (m1(p \<mapsto> nd)) q = Some (File t) | _ \<Rightarrow> (m1(p \<mapsto> nd)) q = Some x"
    using g assms(2) by (cases x; cases "q = p") auto
qed

lemma walk_grows:
  assumes "walk n b m cur cs = Inr p" and "m p \<noteq> None" and "grows m m'"
  shows "walk n b m' cur cs = Inr p"
  using assms
proof (induction n b m cur cs rule: walk.induct)
  case (2 n b m cur c cs)
  show ?case
  proof (cases "c = [] \<or> c = ''.'' \<or> c = ''..''")
    case True
    with 2 show ?thesis by auto
  next
    case False
    with "2.prems"(1,2) obtain nd where nd: "m (cur @ [c]) = Some nd"
      by (cases "m (cur @ [c])") (auto split: if_splits)
    with "2.prems"(3) have g: "case nd of File _ \<Rightarrow> \<exists>t. m' (cur @ [c]) = Some (File t) | _ \<Rightarrow> m' (cur @ [c]) = Some nd"
      by (auto simp: grows_def)
    show ?thesis
    proof (cases nd)
      case (File x)
      with False nd g "2.prems" show ?thesis by (auto split: if_splits)
    next
      case Directory
      with False nd g "2.prems" "2.IH"(3) show ?thesis by simp
    next
      case (Symlink l)
      with False nd g "2.prems" "2.IH"(4) show ?thesis by (auto split: if_splits)
    qed
  qed
qed simp

text \<open>A walk along directories that may be missing stays on them.\<close>

lemma walk_plain:
  assumes "walk n b m r ts = Inr p" and "list_all proper ts"
    and "\<And>us vs. ts = us @ vs \<Longrightarrow> us \<noteq> [] \<Longrightarrow> m (r @ us) = None \<or> m (r @ us) = Some Directory"
  shows "p = r @ ts"
  using assms
proof (induction ts arbitrary: r)
  case (Cons t ts)
  have t: "t \<noteq> []" "t \<noteq> ''.''" "t \<noteq> ''..''" using Cons.prems(2) by (auto simp: proper_def)
  have "m (r @ [t]) = None \<or> m (r @ [t]) = Some Directory" using Cons.prems(3) [of "[t]" ts] by simp
  then show ?case
  proof
    assume "m (r @ [t]) = None"
    with t Cons.prems(1) show ?thesis by (auto split: if_splits)
  next
    assume "m (r @ [t]) = Some Directory"
    with t Cons.prems(1) have "walk n b m (r @ [t]) ts = Inr p" by simp
    moreover have "m ((r @ [t]) @ us) = None \<or> m ((r @ [t]) @ us) = Some Directory" if "ts = us @ vs" "us \<noteq> []" for us vs
      using Cons.prems(3) [of "t # us" vs] that by simp
    ultimately show ?thesis using Cons.IH [of "r @ [t]"] Cons.prems(2) by simp
  qed
qed simp

text \<open>Writing the file a walk reached does not change the walk.\<close>

lemma walk_write:
  assumes "walk n b m cur cs = Inr p" and "m p = None \<or> (\<exists>t. m p = Some (File t))"
  shows "walk n b (m(p \<mapsto> File d)) cur cs = Inr p"
  using assms
proof (induction n b m cur cs rule: walk.induct)
  case (2 n b m cur c cs)
  note prems = "2.prems"
  show ?case
  proof (cases "c = [] \<or> c = ''.'' \<or> c = ''..''")
    case True
    then consider "c = [] \<or> c = ''.''" | "c = ''..''" by blast
    then show ?thesis
    proof cases
      case 1
      then have "walk n b m cur cs = Inr p" using prems(1) by auto
      from "2.IH"(1) [OF 1 this prems(2)] show ?thesis using 1 by auto
    next
      case dots: 2
      then have "walk n b m (butlast cur) cs = Inr p" using prems(1) by simp
      from "2.IH"(2) [OF _ dots this prems(2)] show ?thesis using dots by simp
    qed
  next
    case False
    show ?thesis
    proof (cases "cur @ [c] = p")
      case True
      then have "cs = []" using False prems by (auto split: if_splits)
      with True False show ?thesis by simp
    next
      case other: False
      then have same: "(m(p \<mapsto> File d)) (cur @ [c]) = m (cur @ [c])" by simp
      show ?thesis
      proof (cases "m (cur @ [c])")
        case None
        with False other prems show ?thesis by (auto split: if_splits)
      next
        case (Some nd)
        show ?thesis
        proof (cases nd)
          case (File x)
          with False Some same prems show ?thesis by (auto split: if_splits)
        next
          case Directory
          with False Some prems(1) have "walk n b m (cur @ [c]) cs = Inr p" by simp
          with "2.IH"(3) [of nd] False Some Directory prems(2)
          have "walk n b (m(p \<mapsto> File d)) (cur @ [c]) cs = Inr p" by blast
          with False same [unfolded Some Directory] show ?thesis by (simp del: fun_upd_apply)
        next
          case (Symlink l)
          show ?thesis
          proof (cases "cs = [] \<and> \<not> b")
            case True
            with False Some same Symlink prems(1) show ?thesis by simp
          next
            case go: False
            with False Some Symlink prems(1) have n: "n \<noteq> 0" by (auto split: if_splits)
            with False Some Symlink go prems(1)
            have "walk (n - 1) b m (if IsAbs l then [] else cur) (Split l (CHR ''/'') @ cs) = Inr p" by (simp split: if_splits)
            with "2.IH"(4) [of nd l] False Some Symlink go n prems(2)
            have "walk (n - 1) b (m(p \<mapsto> File d)) (if IsAbs l then [] else cur) (Split l (CHR ''/'') @ cs) = Inr p" by blast
            with False same [unfolded Some Symlink] go n show ?thesis by (auto simp del: fun_upd_apply)
          qed
        qed
      qed
    qed
  qed
qed simp

text \<open>A path that can be followed to a node also has a node when its last link is not followed.\<close>

lemma walk_nofollow:
  assumes "walk n True m cur cs = Inr p" and "m p \<noteq> None" and "m cur \<noteq> None"
    and "fs_wf m" and "m cur = Some Directory"
  shows "\<exists>q. walk n False m cur cs = Inr q \<and> m q \<noteq> None"
  using assms
proof (induction n True m cur cs rule: walk.induct)
  case (2 n m cur c cs)
  note prems = "2.prems"
  show ?case
  proof (cases "c = [] \<or> c = ''.'' \<or> c = ''..''")
    case True
    then consider "c = [] \<or> c = ''.''" | "c = ''..''" by blast
    then show ?thesis
    proof cases
      case 1
      then have "walk n True m cur cs = Inr p" using prems(1) by auto
      from "2.hyps"(1) [OF 1 this prems(2-5)] show ?thesis using 1 by auto
    next
      case dots: 2
      then have "walk n True m (butlast cur) cs = Inr p" using prems(1) by simp
      from "2.hyps"(2) [OF _ dots this prems(2) _ prems(4) fs_butlast [OF prems(4,5)]] fs_butlast [OF prems(4,5)]
      show ?thesis using dots by simp
    qed
  next
    case False
    with prems(1,2) obtain nd where nd: "m (cur @ [c]) = Some nd"
      by (cases "m (cur @ [c])") (auto split: if_splits)
    show ?thesis
    proof (cases nd)
      case (File x)
      with False nd prems show ?thesis by (auto split: if_splits)
    next
      case Directory
      with False nd prems "2.hyps"(3) show ?thesis by simp
    next
      case (Symlink l)
      let ?cur = "if IsAbs l then [] else cur"
      show ?thesis
      proof (cases "cs = []")
        case True
        with False nd Symlink show ?thesis by simp
      next
        case cs: False
        with False nd Symlink prems(1) have n: "n \<noteq> 0" by (auto split: if_splits)
        with False nd Symlink prems(1)
        have "walk (n - 1) True m ?cur (Split l (CHR ''/'') @ cs) = Inr p" by simp
        moreover have "m ?cur = Some Directory" using prems(4,5) by (simp add: fs_root)
        ultimately obtain q where "walk (n - 1) False m ?cur (Split l (CHR ''/'') @ cs) = Inr q" "m q \<noteq> None"
          using "2.hyps"(4) [of nd l] False nd Symlink n prems(2,4) by blast
        with False nd Symlink n cs show ?thesis by auto
      qed
    qed
  qed
qed simp

section \<open>MkdirAll\<close>

text \<open>
  A path whose links are all within the kernel's budget up to its last component: the
  directories of the path exist, and \<open>MkdirAll\<close> of the path or of its parent changes
  nothing.
\<close>

lemma MkdirAll_parent:
  assumes "walk kernel_links False m [] (cs @ [c]) = Inr q" and "fs_wf m" and "proper c"
  shows "MkdirAll m (rev cs) = (None, m)"
proof -
  from walk_snoc [OF assms(1,2) fs_root [OF assms(2)] assms(3)] obtain r where
    "walk kernel_links True m [] cs = Inr r" "m r = Some Directory" by blast
  then show ?thesis by (cases cs rule: rev_cases) (simp_all add: stat_at_def)
qed

lemma MkdirAll_existing:
  assumes "walk kernel_links False m [] cs = Inr q" and "m q \<noteq> None" and "fs_wf m" and "list_all proper cs"
  shows "snd (MkdirAll m (rev cs)) = m"
proof (cases cs rule: rev_cases)
  case (snoc ds c)
  with assms(4) have "proper c" by simp
  with snoc assms(1,3) have "MkdirAll m (rev ds) = (None, m)" by (blast intro: MkdirAll_parent)
  moreover have "Mkdir m (ds @ [c]) = Inl EEXIST" using assms(1,2) snoc by (auto simp: Mkdir_def)
  ultimately show ?thesis using snoc by (simp split: sum.split)
qed simp

text \<open>
  Below a directory \<open>r\<close> that a prefix of the path leads to, with nothing at the first of
  the other components, \<open>MkdirAll\<close> creates directories along these components only.
\<close>

definition made_below :: "string list \<Rightarrow> string list \<Rightarrow> fs \<Rightarrow> fs \<Rightarrow> bool" where
  "made_below r us m m' \<longleftrightarrow> fs_wf m' \<and> grows m m' \<and>
     (\<forall>p. m' p \<noteq> m p \<longrightarrow> m' p = Some Directory \<and> (\<exists>vs. vs \<noteq> [] \<and> prefix vs us \<and> p = r @ vs))"

lemma made_below_refl: "fs_wf m \<Longrightarrow> made_below r us m m"
  by (simp add: made_below_def grows_refl)

lemma made_below_mono: "made_below r us m m' \<Longrightarrow> prefix us ws \<Longrightarrow> made_below r ws m m'"
  unfolding made_below_def by (metis prefix_order.trans)

lemma nothing_below:
  assumes "fs_wf m" and "m (r @ [t]) = None"
  shows "m (r @ t # ts) = None"
proof (rule ccontr)
  assume "m (r @ t # ts) \<noteq> None"
  with fs_prefix [OF assms(1), of "r @ [t]" ts] assms(2) show False by (cases "ts = []") simp_all
qed

text \<open>A walk through the new directories ends where its components say.\<close>

lemma walk_made_below:
  assumes made: "made_below r ws m m'" and wf: "fs_wf m"
    and as: "walk go_links True m [] as = Inr r" and r: "m r = Some Directory" and t: "m (r @ [t]) = None"
    and walk: "walk kernel_links b m' [] (as @ us @ [u]) = Inr p"
    and proper: "list_all proper (us @ [u])" and hd: "hd (us @ [u]) = t"
  shows "p = r @ us @ [u] \<and> m' (r @ us) = Some Directory \<and> (m' p = None \<or> m' p = Some Directory)"
proof -
  have wf': "fs_wf m'" and grows: "grows m m'" using made by (auto simp: made_below_def)
  have as': "walk go_links True m' [] as = Inr r" using walk_grows [OF as _ grows] r by simp
  have r': "m' r = Some Directory" using grows r by (force simp: grows_def)
  have plain: "m' (r @ vs) = None \<or> m' (r @ vs) = Some Directory"
    if "us @ [u] = vs @ xs" "vs \<noteq> []" for vs xs
  proof -
    from that hd obtain vs' where "vs = t # vs'" by (cases vs) auto
    then have "m (r @ vs) = None" using nothing_below [OF wf t, of vs'] by simp
    moreover have "m' (r @ vs) \<noteq> m (r @ vs) \<longrightarrow> m' (r @ vs) = Some Directory" using made by (auto simp: made_below_def)
    ultimately show ?thesis by metis
  qed
  from walk_split [OF as' _ _ _ fs_root [OF wf'] wf', of kernel_links "us @ [u]" b] r' walk
  obtain n where n: "walk n b m' r (us @ [u]) = Inr p"
    by (auto simp: kernel_links_def go_links_def)
  from walk_plain [OF n proper plain] have p: "p = r @ us @ [u]" .
  from walk_snoc [OF n wf' r'] proper obtain q where q: "walk n True m' r us = Inr q" "m' q = Some Directory" by auto
  have "q = r @ us"
    by (rule walk_plain [OF q(1)]) (use proper plain in auto)
  with p q plain [of "us @ [u]" "[]"] show ?thesis by simp
qed

lemma MkdirAll_made_below:
  assumes wf: "fs_wf m" and as: "walk go_links True m [] as = Inr r" and r: "m r = Some Directory"
    and t: "m (r @ [t]) = None" and l: "walk kernel_links False m [] as = Inr q" "m q \<noteq> None"
    and "list_all proper (as @ us)" and "us = [] \<or> hd us = t"
  shows "made_below r us m (snd (MkdirAll m (rev (as @ us))))"
  using assms(7,8)
proof (induction us rule: rev_induct)
  case Nil
  with MkdirAll_existing [OF l wf] show ?case by (simp add: made_below_refl wf)
next
  case (snoc u us)
  have "us = [] \<or> hd us = t" using snoc.prems(2) by (cases us) auto
  with snoc have IH: "made_below r us m (snd (MkdirAll m (rev (as @ us))))" by simp
  obtain e m1 where m1: "MkdirAll m (rev (as @ us)) = (e, m1)" by fastforce
  with IH have made: "made_below r us m m1" by simp
  then have made': "made_below r (us @ [u]) m m1" by (rule made_below_mono) simp
  have step: "MkdirAll m (rev (as @ us @ [u])) = (e', m') \<Longrightarrow> m' = m \<or> m' = m1 \<or> Mkdir m1 (as @ us @ [u]) = Inr m'" for e' m'
    using m1 by (auto split: sum.splits option.splits if_splits)
  have new: "made_below r (us @ [u]) m m2" if mk: "Mkdir m1 (as @ us @ [u]) = Inr m2" for m2
  proof -
    from mk obtain p where p: "walk kernel_links False m1 [] (as @ us @ [u]) = Inr p" "m1 p = None" "m2 = m1(p \<mapsto> Directory)"
      by (auto simp: Mkdir_def split: sum.splits option.splits)
    have pu: "proper u" using snoc.prems(1) by simp
    have "hd (us @ [u]) = t" "list_all proper (us @ [u])" using snoc.prems by simp_all
    with walk_made_below [OF made wf as r t p(1)] have at: "p = r @ us @ [u] \<and> m1 (r @ us) = Some Directory" by simp
    have wf1: "fs_wf m1" using made by (simp add: made_below_def)
    have "fs_wf (m1((r @ us) @ [u] \<mapsto> Directory))"
      using at p(2) by (intro fs_wf_add [OF wf1 _ pu]) auto
    then have "fs_wf m2" unfolding p(3) using at by simp
    moreover have "grows m m2" unfolding p(3) using made p(2) by (intro grows_upd) (simp_all add: made_below_def)
    moreover have "m2 x = Some Directory \<and> (\<exists>vs. vs \<noteq> [] \<and> prefix vs (us @ [u]) \<and> x = r @ vs)" if "m2 x \<noteq> m x" for x
    proof (cases "x = p")
      case True
      with p(3) at show ?thesis by simp
    next
      case False
      with p(3) have "m2 x = m1 x" by simp
      with that have "m1 x \<noteq> m x" "m1 x = m2 x" by simp_all
      with made' [unfolded made_below_def, THEN conjunct2, THEN conjunct2, rule_format, of x]
      show ?thesis by metis
    qed
    ultimately show ?thesis unfolding made_below_def by blast
  qed
  obtain e' m' where m': "MkdirAll m (rev (as @ us @ [u])) = (e', m')" by fastforce
  from step [OF m'] consider "m' = m" | "m' = m1" | "Mkdir m1 (as @ us @ [u]) = Inr m'" by blast
  then have "made_below r (us @ [u]) m m'"
    by cases (use made_below_refl [OF wf] made' new in blast)+
  with m' show ?case by simp
qed

end
