(* ===== verification/Envd_Executor.thy ===== *)
theory Envd_Executor
  imports File_System
begin

text \<open>
  \<open>internal/envd/executor.go\<close>: the process executor of envd. File operations work on a
  file system and resolve every path below the root directory of the executor; commands
  are given to a shell, which is a parameter with its whole outcome (what it wrote, in
  which pieces, how it ended, whether the deadline passed).
\<close>

section \<open>Model\<close>

datatype exec_error =
    errEmptyCommand
  | errTimeout
  | errFileTooLarge
  | ErrInvalid
  | ErrPermission
  | ErrNotExist
  | OSError os_error
  | CreateParentDirs os_error
  | WriteFileError os_error
  | RunCommand string

record ProcessExecutor =
  Root :: string
  WorkDir :: string
  Timeout :: duration
  MaxOutput :: int
  MaxFileLen :: int

definition defaultTimeout :: duration where "defaultTimeout = 30 * Second"
definition defaultMaxOutput :: int where "defaultMaxOutput = 1048576"
definition defaultMaxFileLen :: int where "defaultMaxFileLen = 8388608"

text \<open>\<open>filepath.Abs\<close> with the working directory.\<close>

definition Abs :: "string \<Rightarrow> string \<Rightarrow> string" where
  "Abs wd s = (if IsAbs s then Clean s else JoinPath wd s)"

definition NewProcessExecutor :: "fs \<Rightarrow> string \<Rightarrow> string \<Rightarrow> ProcessExecutor" where
  "NewProcessExecutor m wd root =
     (let a = Clean (Abs wd root);
          a = (case EvalSymlinks m a of Inr resolved \<Rightarrow> resolved | Inl _ \<Rightarrow> a)
      in \<lparr>Root = a, WorkDir = a, Timeout = defaultTimeout, MaxOutput = defaultMaxOutput,
          MaxFileLen = defaultMaxFileLen\<rparr>)"

subsection \<open>Paths\<close>

definition withinRoot :: "string \<Rightarrow> string \<Rightarrow> bool" where
  "withinRoot root p =
     (case Rel root p of
        None \<Rightarrow> False
      | Some rel \<Rightarrow> rel = ''.'' \<or> (rel \<noteq> ''..'' \<and> \<not> HasPrefix rel ''../''))"

text \<open>The tail is collected last component first, and joined from its end.\<close>

definition rejoin :: "string \<Rightarrow> string list \<Rightarrow> string" where
  "rejoin resolved tail = foldr (\<lambda>t r. JoinPath r t) tail resolved"

text \<open>The loop of \<open>evalWithinRoot\<close>; \<open>None\<close> would be a loop that never ends.\<close>

partial_function (option) evalLoop :: "fs \<Rightarrow> string \<Rightarrow> string list \<Rightarrow> (exec_error, string) result option" where
  [code]: "evalLoop m cur tail =
     (case Lstat m cur of
        Inr _ \<Rightarrow>
          Some (case EvalSymlinks m cur of
                  Inl e \<Rightarrow> Inl (OSError e)
                | Inr resolved \<Rightarrow> Inr (Clean (rejoin resolved tail)))
      | Inl e \<Rightarrow>
          if e = ENOENT then
            (if Dir cur = cur then Some (Inl ErrNotExist)
             else evalLoop m (Dir cur) (tail @ [Base cur]))
          else Some (Inl (OSError e)))"

definition evalWithinRoot :: "fs \<Rightarrow> string \<Rightarrow> string \<Rightarrow> (exec_error, string) result option" where
  "evalWithinRoot m root target = evalLoop m target []"

definition trimmed :: "string \<Rightarrow> string" where
  "trimmed path = (if IsAbs path then TrimLeft path (CHR ''/'') else path)"

definition safePath :: "ProcessExecutor \<Rightarrow> fs \<Rightarrow> string \<Rightarrow> (exec_error, string) result option" where
  "safePath e m path =
     (if path = [] then Some (Inl ErrInvalid)
      else
        let joined = JoinPath (Root e) (trimmed path);
            cleaned = Clean joined
        in if \<not> withinRoot (Root e) cleaned then Some (Inl ErrPermission)
           else (case evalWithinRoot m (Root e) cleaned of
                   None \<Rightarrow> None
                 | Some (Inl err) \<Rightarrow> Some (Inl err)
                 | Some (Inr resolved) \<Rightarrow>
                     if \<not> withinRoot (Root e) resolved then Some (Inl ErrPermission)
                     else Some (Inr cleaned)))"

partial_function (option) createLoop ::
  "string \<Rightarrow> fs \<Rightarrow> string \<Rightarrow> string \<Rightarrow> string list \<Rightarrow> (exec_error, string) result option" where
  [code]: "createLoop root m cleaned cur tail =
     (case Lstat m cur of
        Inr _ \<Rightarrow>
          Some (case EvalSymlinks m cur of
                  Inl e \<Rightarrow> Inl (OSError e)
                | Inr resolved \<Rightarrow>
                    if \<not> withinRoot root (Clean (rejoin resolved tail)) then Inl ErrPermission
                    else Inr cleaned)
      | Inl e \<Rightarrow>
          if e = ENOENT then
            (if Dir cur = cur then Some (Inl ErrNotExist)
             else createLoop root m cleaned (Dir cur) (tail @ [Base cur]))
          else Some (Inl (OSError e)))"

definition createPath :: "ProcessExecutor \<Rightarrow> fs \<Rightarrow> string \<Rightarrow> (exec_error, string) result option" where
  "createPath e m path =
     (if path = [] then Some (Inl ErrInvalid)
      else
        let cleaned = Clean (JoinPath (Root e) (trimmed path))
        in if \<not> withinRoot (Root e) cleaned then Some (Inl ErrPermission)
           else createLoop (Root e) m cleaned cleaned [])"

subsection \<open>File operations\<close>

definition maxFileLen :: "ProcessExecutor \<Rightarrow> int" where
  "maxFileLen e = (if MaxFileLen e \<le> 0 then defaultMaxFileLen else MaxFileLen e)"

fun node_size :: "node \<Rightarrow> int" where
  "node_size (File t) = int (length t)"
| "node_size (Symlink t) = int (length t)"
| "node_size Directory = 0"

definition PE_ReadFile :: "ProcessExecutor \<Rightarrow> fs \<Rightarrow> string \<Rightarrow> (exec_error, string) result option" where
  "PE_ReadFile e m path =
     (case safePath e m path of
        None \<Rightarrow> None
      | Some (Inl err) \<Rightarrow> Some (Inl err)
      | Some (Inr p) \<Rightarrow>
          Some (case Stat m p of
                  Inl err \<Rightarrow> Inl (if err = ENOENT then ErrNotExist else OSError err)
                | Inr fi \<Rightarrow>
                    if fi = Directory then Inl ErrInvalid
                    else if node_size fi > maxFileLen e then Inl errFileTooLarge
                    else (case os_ReadFile m p of Inl err \<Rightarrow> Inl (OSError err) | Inr data \<Rightarrow> Inr data)))"

text \<open>\<open>errors.Is(err, fs.ErrNotExist)\<close>\<close>

definition isNotExist :: "exec_error \<Rightarrow> bool" where
  "isNotExist err \<longleftrightarrow> err = ErrNotExist \<or> err = OSError ENOENT"

definition writeAt :: "fs \<Rightarrow> string \<Rightarrow> string \<Rightarrow> (exec_error, int) result \<times> fs" where
  \<comment> \<open>the end of \<open>WriteFile\<close>, once it has a path\<close>
  "writeAt m p data =
     (case MkdirAll m (rev (comps (Dir p))) of
        (Some err, m1) \<Rightarrow> (Inl (CreateParentDirs err), m1)
      | (None, m1) \<Rightarrow>
          (case os_WriteFile m1 p data of
             Inl err \<Rightarrow> (Inl (WriteFileError err), m1)
           | Inr m2 \<Rightarrow> (Inr (int (length data)), m2)))"

definition PE_WriteFile :: "ProcessExecutor \<Rightarrow> fs \<Rightarrow> string \<Rightarrow> string \<Rightarrow> ((exec_error, int) result \<times> fs) option" where
  "PE_WriteFile e m path data =
     (if int (length data) > maxFileLen e then Some (Inl errFileTooLarge, m)
      else (case safePath e m path of
              None \<Rightarrow> None
            | Some (Inr p) \<Rightarrow> Some (writeAt m p data)
            | Some (Inl err) \<Rightarrow>
                if isNotExist err then
                  (case createPath e m path of
                     None \<Rightarrow> None
                   | Some (Inl err2) \<Rightarrow> Some (Inl err2, m)
                   | Some (Inr p) \<Rightarrow> Some (writeAt m p data))
                else Some (Inl err, m)))"

subsection \<open>Commands\<close>

text \<open>\<open>limitedWriter.Write\<close>: the buffer afterwards and the number of bytes reported.\<close>

definition lw_Write :: "int \<Rightarrow> string \<Rightarrow> string \<Rightarrow> string \<times> int" where
  "lw_Write mx buf p =
     (let room = mx - int (length buf) in
      if room \<le> 0 then (buf, int (length p))
      else if int (length p) > room then (buf @ take (nat room) p, int (length p))
      else (buf @ p, int (length p)))"

record ExecResponse =
  ExitCode :: int
  Stdout :: string
  Stderr :: string

record Cmd =
  Path :: string
  Args :: "string list"
  CmdDir :: string
  Env :: "string list"
  CmdTimeout :: duration

datatype run_error = ExitError int | RunError string

datatype stream = Out | Err

text \<open>
  What running a command does: the pieces it writes to its output streams, in order; the
  error of \<open>Run\<close>; whether the caller's context or the deadline had ended by then.
\<close>

record Run =
  run_writes :: "(stream \<times> string) list"
  run_error :: "run_error option"
  run_expired :: bool

definition collect :: "int \<Rightarrow> stream \<Rightarrow> (stream \<times> string) list \<Rightarrow> string" where
  "collect mx s ws = foldl (\<lambda>buf p. fst (lw_Write mx buf p)) [] (map snd (filter (\<lambda>w. fst w = s) ws))"

definition wrap32 :: "int \<Rightarrow> int" where
  "wrap32 x = (x + 2 ^ 31) mod 2 ^ 32 - 2 ^ 31"

definition maxOut :: "ProcessExecutor \<Rightarrow> int" where
  "maxOut e = (if MaxOutput e \<le> 0 then defaultMaxOutput else MaxOutput e)"

definition shell_cmd :: "ProcessExecutor \<Rightarrow> string \<Rightarrow> Cmd" where
  "shell_cmd e command =
     \<lparr>Path = ''/bin/sh'', Args = [''-c'', command], CmdDir = WorkDir e,
      Env = [''PATH=/usr/local/bin:/usr/bin:/bin'', ''HOME='' @ WorkDir e, ''LANG=C.UTF-8''],
      CmdTimeout = (if Timeout e \<le> 0 then defaultTimeout else Timeout e)\<rparr>"

text \<open>\<open>Exec\<close> returns its response beside the error.\<close>

definition PE_Exec :: "ProcessExecutor \<Rightarrow> (Cmd \<Rightarrow> Run) \<Rightarrow> string \<Rightarrow> ExecResponse \<times> exec_error option" where
  "PE_Exec e sh command =
     (if TrimSpace command = [] then (\<lparr>ExitCode = 0, Stdout = [], Stderr = []\<rparr>, Some errEmptyCommand)
      else
        let run = sh (shell_cmd e command);
            resp = \<lparr>ExitCode = 0, Stdout = collect (maxOut e) Out (run_writes run),
                    Stderr = collect (maxOut e) Err (run_writes run)\<rparr>
        in case run_error run of
             None \<Rightarrow> (resp, None)
           | Some err \<Rightarrow>
               if run_expired run then (resp, Some errTimeout)
               else (case err of
                       ExitError n \<Rightarrow> (resp\<lparr>ExitCode := wrap32 n\<rparr>, None)
                     | RunError t \<Rightarrow> (resp, Some (RunCommand t))))"

end
