(* ===== verification/Envd_Confinement.thy ===== *)
theory Envd_Confinement
  imports Envd_Executor
begin

text \<open>
  What the file operations of the executor promise: every path ends inside the root
  directory, whatever links the file system holds; what was written can be read; and the
  loops that look for an existing ancestor end.
\<close>

section \<open>Paths as lists of components\<close>

lemma Join_not_dots:
  assumes "list_all proper ts"
  shows "Join ts ''/'' \<noteq> ''..'' \<and> \<not> HasPrefix (Join ts ''/'') ''../''"
proof (cases ts)
  case (Cons t us)
  with assms have t: "t \<noteq> ''..''" "CHR ''/'' \<notin> set t" by (simp_all add: proper_def)
  have ex: "\<exists>v. Join ts ''/'' = t @ v \<and> (v = [] \<or> hd v = CHR ''/'')" using Cons by (cases us) auto
  then obtain v where v: "Join ts ''/'' = t @ v" "v = [] \<or> hd v = CHR ''/''" by blast
  have "Split (Join ts ''/'') (CHR ''/'') = ts"
    using Split_Join [of ts "CHR ''/''"] assms Cons by (auto simp: list_all_iff proper_def)
  then have hd: "hd (Split (Join ts ''/'') (CHR ''/'')) = t" using Cons by simp
  have "Join ts ''/'' \<noteq> ''..''" using hd t(1) by auto
  moreover have "\<not> HasPrefix (Join ts ''/'') ''../''"
  proof
    assume "HasPrefix (Join ts ''/'') ''../''"
    then obtain w where "Join ts ''/'' = ''..'' @ CHR ''/'' # w" by (auto simp: HasPrefix_iff)
    then have "hd (Split (Join ts ''/'') (CHR ''/'')) = ''..''" by (simp add: Split_append_sep)
    with hd t(1) show False by simp
  qed
  ultimately show ?thesis by simp
qed (simp add: HasPrefix_def)

lemma withinRoot_abs:
  assumes "list_all proper root" and "list_all proper ts"
  shows "withinRoot (abs_path root) (abs_path ts) \<longleftrightarrow> prefix root ts"
proof (cases "root = ts")
  case True
  then show ?thesis by (simp add: withinRoot_def Rel_def)
next
  case False
  obtain b t where bt: "strip_common root ts = (b, t)" by fastforce
  have parts: "ts = take (length ts - length t) ts @ t"
    using strip_common_parts [of root ts] bt by auto
  then have t: "list_all proper t" using assms(2) by (metis list_all_append)
  have pre: "prefix root ts \<longleftrightarrow> b = []" using strip_common_prefix [of root ts] bt by simp
  show ?thesis
  proof (cases "b = []")
    case True
    with Join_not_dots [OF t] pre show ?thesis by (simp add: withinRoot_def Rel_abs [OF assms False] bt)
  next
    case b: False
    then have "length b \<noteq> 0" by simp
    from replicate_dots_prefix [OF this, of t] pre b
    have "Join (replicate (length b) ''..'' @ t) ''/'' \<noteq> ''.''" by (auto simp: HasPrefix_def)
    with replicate_dots_prefix [OF \<open>length b \<noteq> 0\<close>, of t] pre b show ?thesis
      by (auto simp: withinRoot_def Rel_abs [OF assms False] bt)
  qed
qed

lemma walk_abs:
  assumes "list_all proper cs"
  shows "walk n b m [] (Split (abs_path cs) (CHR ''/'')) = walk n b m [] cs"
  using assms by (simp add: Split_abs_path)

lemma abs_path_not_Nil [simp]: "abs_path cs \<noteq> []"
  by (simp add: abs_path_def)

lemma kwalk_abs: "list_all proper cs \<Longrightarrow> kwalk b m (abs_path cs) = walk kernel_links b m [] cs"
  by (simp add: kwalk_def walk_abs)

lemma Lstat_abs_iff:
  assumes "list_all proper cs"
  shows "Lstat m (abs_path cs) = Inr nd \<longleftrightarrow> (\<exists>q. walk kernel_links False m [] cs = Inr q \<and> m q = Some nd)"
  by (auto simp: Lstat_def stat_at_def kwalk_abs [OF assms] split: sum.splits option.splits)

lemma EvalSymlinks_abs_iff:
  assumes "list_all proper cs" and "fs_wf m"
  shows "EvalSymlinks m (abs_path cs) = Inr s \<longleftrightarrow>
     (\<exists>r. walk go_links True m [] cs = Inr r \<and> m r \<noteq> None \<and> s = abs_path r)"
  by (auto simp: EvalSymlinks_def walk_abs [OF assms(1)] split: sum.splits option.splits)

lemma rejoin_abs:
  assumes "list_all proper r" and "list_all proper ts"
  shows "rejoin (abs_path r) (rev ts) = abs_path (r @ ts)"
  using assms(2)
proof (induction ts rule: rev_induct)
  case (snoc t ts)
  then have "rejoin (abs_path r) (rev (ts @ [t])) = JoinPath (abs_path (r @ ts)) t" by (simp add: rejoin_def)
  also have "\<dots> = abs_path ((r @ ts) @ [t])" using snoc.prems assms(1) by (intro JoinPath_one) simp_all
  finally show ?case by simp
qed (simp add: rejoin_def)

text \<open>The path of a request below the root directory.\<close>

definition target :: "string list \<Rightarrow> string \<Rightarrow> string list" where
  "target root path = rev (foldl (clean_step True) (rev root) (Split (trimmed path) (CHR ''/'')))"

lemma target_path:
  assumes "list_all proper root"
  shows "Clean (JoinPath (abs_path root) (trimmed path)) = abs_path (target root path)"
    and "list_all proper (target root path)"
proof -
  show p: "list_all proper (target root path)"
    using JoinPath_abs(2) [OF assms, of "trimmed path"] by (simp add: target_def)
  have "JoinPath (abs_path root) (trimmed path) = abs_path (target root path)"
    using JoinPath_abs(1) [OF assms, of "trimmed path"] by (simp add: target_def)
  then show "Clean (JoinPath (abs_path root) (trimmed path)) = abs_path (target root path)"
    by (simp add: Clean_abs_path p)
qed

section \<open>The search for an existing ancestor\<close>

text \<open>
  The outcome of the search from \<open>cs\<close>, with the components \<open>ts\<close> already stripped: the
  longest prefix that exists leads to \<open>r\<close>, everything after it is missing.
\<close>

definition resolves :: "fs \<Rightarrow> string list \<Rightarrow> string list \<Rightarrow> string list \<Rightarrow> string list \<Rightarrow> bool" where
  "resolves m cs as us r \<longleftrightarrow> cs = as @ us \<and>
     (\<exists>q. walk kernel_links False m [] as = Inr q \<and> m q \<noteq> None) \<and>
     walk go_links True m [] as = Inr r \<and> m r \<noteq> None \<and>
     (\<forall>vs ws. us = vs @ ws \<longrightarrow> vs \<noteq> [] \<longrightarrow> Lstat m (abs_path (as @ vs)) = Inl ENOENT)"

lemma evalLoop_result:
  assumes "fs_wf m" and "list_all proper (cs @ ts)"
  shows "\<exists>res. evalLoop m (abs_path cs) (rev ts) = Some res \<and>
     (\<forall>s. res = Inr s \<longrightarrow> (\<exists>as us r. resolves m cs as us r \<and> s = abs_path (r @ us @ ts)))"
  using assms(2)
proof (induction cs arbitrary: ts rule: rev_induct)
  case Nil
  have root: "Lstat m (abs_path []) = Inr Directory" "EvalSymlinks m (abs_path []) = Inr (abs_path [])"
    using fs_root [OF assms(1)] by (auto simp: Lstat_abs_iff EvalSymlinks_abs_iff assms(1))
  have ts: "Clean (rejoin (abs_path []) (rev ts)) = abs_path ts"
    using Nil rejoin_abs [of "[]" ts] Clean_abs_path [of ts] by simp
  have "evalLoop m (abs_path []) (rev ts) = Some (Inr (abs_path ts))"
    by (subst evalLoop.simps) (simp add: root ts)
  moreover have "resolves m [] [] [] []" using fs_root [OF assms(1)] by (simp add: resolves_def)
  ultimately show ?case by (intro exI [of _ "Inr (abs_path ts)"]) force
next
  case (snoc c cs)
  note proper = snoc.prems
  show ?case
  proof (cases "Lstat m (abs_path (cs @ [c]))")
    case (Inr nd)
    show ?thesis
    proof (cases "EvalSymlinks m (abs_path (cs @ [c]))")
      case (Inl e)
      with \<open>Lstat _ _ = _\<close> show ?thesis by (subst evalLoop.simps) simp
    next
      case eval: (Inr s)
      from eval obtain r where r: "walk go_links True m [] (cs @ [c]) = Inr r" "m r \<noteq> None" "s = abs_path r"
        using EvalSymlinks_abs_iff [of "cs @ [c]" m s] proper assms(1) by auto
      have pr: "list_all proper (r @ ts)" using fs_components [OF assms(1) r(2)] proper by simp
      then have "Clean (rejoin s (rev ts)) = abs_path (r @ ts)" using r(3) by (simp add: rejoin_abs Clean_abs_path)
      with Inr eval have "evalLoop m (abs_path (cs @ [c])) (rev ts) = Some (Inr (abs_path (r @ ts)))"
        by (subst evalLoop.simps) simp
      moreover have "resolves m (cs @ [c]) (cs @ [c]) [] r"
        using r Inr Lstat_abs_iff [of "cs @ [c]" m nd] proper by (auto simp: resolves_def)
      ultimately show ?thesis by (intro exI [of _ "Inr (abs_path (r @ ts))"]) force
    qed
  next
    case (Inl e)
    show ?thesis
    proof (cases "e = ENOENT")
      case False
      with Inl show ?thesis by (subst evalLoop.simps) simp
    next
      case True
      have d: "Dir (abs_path (cs @ [c])) = abs_path cs" "Base (abs_path (cs @ [c])) = c"
        using proper by (simp_all add: Dir_abs_path Base_abs_path)
      have "abs_path cs \<noteq> abs_path (cs @ [c])" using proper by (simp add: abs_path_inject)
      with d Inl True have "evalLoop m (abs_path (cs @ [c])) (rev ts) = evalLoop m (abs_path cs) (rev (c # ts))"
        by (subst evalLoop.simps) simp
      moreover from proper have "list_all proper (cs @ c # ts)" by simp
      from snoc.IH [OF this] obtain res where "evalLoop m (abs_path cs) (rev (c # ts)) = Some res"
        and res: "\<And>s. res = Inr s \<Longrightarrow> \<exists>as us r. resolves m cs as us r \<and> s = abs_path (r @ us @ c # ts)" by blast
      moreover have "resolves m (cs @ [c]) as (us @ [c]) r" if "resolves m cs as us r" for as us r
      proof -
        have "Lstat m (abs_path (as @ vs)) = Inl ENOENT" if eq: "us @ [c] = vs @ ws" and "vs \<noteq> []" for vs ws
        proof (cases "ws = []")
          case True
          then have "vs = us @ [c]" using eq by simp
          with \<open>resolves m cs as us r\<close> Inl \<open>e = ENOENT\<close> show ?thesis by (simp add: resolves_def)
        next
          case False
          then have "us = vs @ butlast ws" using eq by (metis butlast_append butlast_snoc)
          with \<open>resolves m cs as us r\<close> \<open>vs \<noteq> []\<close> show ?thesis by (simp add: resolves_def)
        qed
        with that show ?thesis by (simp add: resolves_def)
      qed
      ultimately show ?thesis
      proof (intro exI [of _ res] conjI allI impI)
        fix s assume "res = Inr s"
        from res [OF this] obtain as us r where r: "resolves m cs as us r" "s = abs_path (r @ us @ c # ts)" by blast
        with \<open>\<And>as us r. resolves m cs as us r \<Longrightarrow> _\<close> have "resolves m (cs @ [c]) as (us @ [c]) r" by blast
        with r(2) show "\<exists>as us r. resolves m (cs @ [c]) as us r \<and> s = abs_path (r @ us @ ts)"
          by (intro exI [of _ as] exI [of _ "us @ [c]"] exI [of _ r]) simp
      qed simp
    qed
  qed
qed

text \<open>The second loop finds the same ancestor as the first.\<close>

definition check_root :: "string \<Rightarrow> string \<Rightarrow> (exec_error, string) result \<Rightarrow> (exec_error, string) result" where
  "check_root root cleaned res =
     (case res of Inl e \<Rightarrow> Inl e | Inr s \<Rightarrow> if \<not> withinRoot root s then Inl ErrPermission else Inr cleaned)"

lemma createLoop_evalLoop:
  assumes "fs_wf m" and "list_all proper cs"
  shows "createLoop root m cleaned (abs_path cs) tail = map_option (check_root root cleaned) (evalLoop m (abs_path cs) tail)"
  using assms(2)
proof (induction cs arbitrary: tail rule: rev_induct)
  case Nil
  have root: "Lstat m (abs_path []) = Inr Directory"
    using fs_root [OF assms(1)] by (auto simp: Lstat_abs_iff)
  show ?case by (subst createLoop.simps, subst evalLoop.simps) (simp add: root check_root_def split: sum.split)
next
  case (snoc c cs)
  have d: "Dir (abs_path (cs @ [c])) = abs_path cs" using snoc.prems by (simp add: Dir_abs_path)
  from snoc have IH: "createLoop root m cleaned (abs_path cs) t = map_option (check_root root cleaned) (evalLoop m (abs_path cs) t)" for t
    by simp
  show ?case
    by (subst createLoop.simps, subst evalLoop.simps) (simp add: d IH check_root_def split: sum.split)
qed

definition rooted :: "ProcessExecutor \<Rightarrow> fs \<Rightarrow> string list \<Rightarrow> bool" where
  "rooted e m root \<longleftrightarrow> fs_wf m \<and> m root = Some Directory \<and> Root e = abs_path root"

lemma rooted_proper: "rooted e m root \<Longrightarrow> list_all proper root"
  unfolding rooted_def by (rule fs_components [of m]) simp_all

lemma safePath_eq:
  assumes "rooted e m root" and "path \<noteq> []"
  shows "safePath e m path =
     (if \<not> prefix root (target root path) then Some (Inl ErrPermission)
      else map_option (check_root (abs_path root) (abs_path (target root path))) (evalLoop m (abs_path (target root path)) []))"
proof -
  note p = rooted_proper [OF assms(1)]
  have R: "Root e = abs_path root" using assms(1) by (simp add: rooted_def)
  show ?thesis
    using assms(2)
    by (simp add: safePath_def R Let_def target_path [OF p] withinRoot_abs [OF p target_path(2) [OF p]] evalWithinRoot_def
          check_root_def split: option.split sum.split)
qed

lemma createPath_eq:
  assumes "rooted e m root"
  shows "createPath e m path = safePath e m path"
proof (cases "path = []")
  case False
  note p = rooted_proper [OF assms]
  have R: "Root e = abs_path root" and wf: "fs_wf m" using assms by (simp_all add: rooted_def)
  show ?thesis
    by (simp add: safePath_eq [OF assms False] False createPath_def R Let_def target_path [OF p]
          withinRoot_abs [OF p target_path(2) [OF p]] createLoop_evalLoop [OF wf target_path(2) [OF p]])
qed (simp add: createPath_def safePath_def)

text \<open>A path that is accepted leads, as far as it exists, into the root directory.\<close>

lemma safePath_result:
  assumes "rooted e m root"
  shows "\<exists>res. safePath e m path = Some res \<and>
    (\<forall>s. res = Inr s \<longrightarrow> s = abs_path (target root path) \<and>
       (\<exists>as us r. resolves m (target root path) as us r \<and> prefix root (r @ us)))"
proof (cases "path = [] \<or> \<not> prefix root (target root path)")
  case True
  then show ?thesis using safePath_eq [OF assms, of path] by (auto simp: safePath_def)
next
  case False
  note p = rooted_proper [OF assms]
  have wf: "fs_wf m" using assms by (simp add: rooted_def)
  have t: "list_all proper (target root path @ [])" using target_path(2) [OF p] by simp
  from evalLoop_result [OF wf t] obtain res where res: "evalLoop m (abs_path (target root path)) [] = Some res"
    and ok: "\<And>s. res = Inr s \<Longrightarrow> \<exists>as us r. resolves m (target root path) as us r \<and> s = abs_path (r @ us)" by auto
  have "\<exists>as us r. resolves m (target root path) as us r \<and> prefix root (r @ us)"
    if s: "res = Inr s" and w: "withinRoot (abs_path root) s" for s
  proof -
    from ok [OF s] obtain as us r where r: "resolves m (target root path) as us r" "s = abs_path (r @ us)" by blast
    have "list_all proper (r @ us)"
      using r(1) t fs_components [OF wf, of r] by (auto simp: resolves_def)
    with w r(2) p have "prefix root (r @ us)" by (simp add: withinRoot_abs)
    with r(1) show ?thesis by blast
  qed
  then show ?thesis
    using False res safePath_eq [OF assms, of path] by (auto simp: check_root_def split: sum.splits)
qed

section \<open>Writing\<close>

lemma resolves_missing:
  assumes "resolves m cs as (t # us) r" and "fs_wf m" and "list_all proper cs"
  shows "m r = Some Directory \<and> m (r @ [t]) = None"
proof -
  have t: "proper t" and p: "list_all proper (as @ [t])" using assms(1,3) by (auto simp: resolves_def)
  have r: "walk go_links True m [] as = Inr r" "m r \<noteq> None" using assms(1) by (auto simp: resolves_def)
  have "Lstat m (abs_path (as @ [t])) = Inl ENOENT" using assms(1) by (auto simp: resolves_def)
  then have "stat_at m (walk kernel_links False m [] (as @ [t])) = Inl ENOENT"
    by (simp add: Lstat_def kwalk_abs [OF p])
  with walk_split [OF r _ _ fs_root [OF assms(2)] assms(2), of kernel_links "[t]" False]
  obtain n where "m r = Some Directory" "stat_at m (walk n False m r [t]) = Inl ENOENT"
    by (auto simp: stat_at_def kernel_links_def go_links_def)
  with t show ?thesis
    by (auto simp: stat_at_def proper_def split: option.splits node.splits)
qed

lemma resolves_inside:
  assumes "rooted e m root" and "resolves m cs as us r" and "prefix root (r @ us)" and "list_all proper cs"
  shows "prefix root r"
proof (cases us)
  case (Cons t ts)
  have wf: "fs_wf m" and root: "m root \<noteq> None" using assms(1) by (simp_all add: rooted_def)
  from resolves_missing [OF _ wf assms(4)] assms(2) Cons have none: "m (r @ [t]) = None" by blast
  show ?thesis
  proof (rule ccontr)
    assume "\<not> prefix root r"
    with assms(3) obtain vs where vs: "root = r @ vs" "vs \<noteq> []" "prefix vs us"
      by (auto simp: prefix_append)
    then obtain vs' where "vs = t # vs'" using Cons by (cases vs) auto
    with vs(1) nothing_below [OF wf none, of vs'] root show False by simp
  qed
qed (use assms(3) in simp)

text \<open>What a write may do: everything it changes is below the root directory, and only files change their text.\<close>

definition confined :: "string list \<Rightarrow> fs \<Rightarrow> fs \<Rightarrow> bool" where
  "confined root m m' \<longleftrightarrow> fs_wf m' \<and> grows m m' \<and> (\<forall>p. m' p \<noteq> m p \<longrightarrow> prefix root p)"

definition written :: "string list \<Rightarrow> string list \<Rightarrow> string \<Rightarrow> fs \<Rightarrow> bool" where
  "written root cs data m \<longleftrightarrow>
     (\<exists>p. prefix root p \<and> walk kernel_links True m [] cs = Inr p \<and> m p = Some (File data))"

lemma confined_refl: "fs_wf m \<Longrightarrow> confined root m m"
  by (simp add: confined_def grows_refl)

lemma confined_write:
  assumes "confined root m m1" and "m1 p = None \<or> (\<exists>t. m1 p = Some (File t))" and "m1 (butlast p) = Some Directory"
    and "p \<noteq> []" and "proper (last p)" and "prefix root p"
  shows "confined root m (m1(p \<mapsto> File d))"
proof -
  have "fs_wf (m1(butlast p @ [last p] \<mapsto> File d))"
    using assms by (intro fs_wf_add) (auto simp: confined_def)
  moreover have "grows m (m1(p \<mapsto> File d))" using assms(1,2) by (intro grows_upd) (auto simp: confined_def)
  ultimately show ?thesis using assms(1,4,6) by (auto simp: confined_def)
qed

lemma made_below_confined: "made_below r us m m' \<Longrightarrow> prefix root r \<Longrightarrow> confined root m m'"
  by (auto simp: made_below_def confined_def intro: prefix_prefix)

lemma os_WriteFile_at:
  assumes "os_WriteFile m (abs_path cs) data = Inr m'" and "list_all proper cs"
  obtains p where "walk kernel_links True m [] cs = Inr p" and "m' = m(p \<mapsto> File data)"
    and "m p = None \<or> (\<exists>t. m p = Some (File t))"
  using assms by (auto simp: os_WriteFile_def kwalk_abs split: sum.splits option.splits node.splits)

lemma written_at:
  assumes "walk kernel_links True m [] cs = Inr p" and "m p = None \<or> (\<exists>t. m p = Some (File t))" and "prefix root p"
  shows "written root cs d (m(p \<mapsto> File d))"
  using walk_write [OF assms(1,2), of d] assms(3) by (auto simp: written_def)

lemma writeAt_frame:
  assumes "writeAt m (abs_path cs) data = (res, m')" and "list_all proper cs"
    and "snd (MkdirAll m (rev (butlast cs))) = m1" and "confined root m m1"
    and "\<And>p. walk kernel_links True m1 [] cs = Inr p \<Longrightarrow> m1 p = None \<or> (\<exists>t. m1 p = Some (File t)) \<Longrightarrow>
           p \<noteq> [] \<and> m1 (butlast p) = Some Directory \<and> proper (last p) \<and> prefix root p"
  shows "confined root m m' \<and> (\<forall>n. res = Inr n \<longrightarrow> n = int (length data) \<and> written root cs data m')"
proof -
  have d: "comps (Dir (abs_path cs)) = butlast cs"
  proof (cases cs rule: rev_cases)
    case Nil
    have "abs_path [] = ''/''" by (simp add: abs_path_def)
    with Nil Dir_root comps_abs_path [of "[]"] show ?thesis by (simp del: comps_abs_path)
  next
    case (snoc ds c)
    with assms(2) show ?thesis by (simp add: Dir_abs_path)
  qed
  obtain err where mk: "MkdirAll m (rev (butlast cs)) = (err, m1)" using assms(3) by (cases "MkdirAll m (rev (butlast cs))") auto
  consider (fail) "m' = m1" "\<exists>x. res = Inl x"
    | (ok) "os_WriteFile m1 (abs_path cs) data = Inr m'" "res = Inr (int (length data))"
    using assms(1) by (auto simp: writeAt_def d mk split: option.splits sum.splits)
  then show ?thesis
  proof cases
    case fail
    with assms(4) show ?thesis by auto
  next
    case ok
    from os_WriteFile_at [OF ok(1) assms(2)] obtain p where p: "walk kernel_links True m1 [] cs = Inr p"
      "m' = m1(p \<mapsto> File data)" "m1 p = None \<or> (\<exists>t. m1 p = Some (File t))" by blast
    from assms(5) [OF p(1,3)] have at: "p \<noteq> []" "m1 (butlast p) = Some Directory" "proper (last p)" "prefix root p" by blast+
    from confined_write [OF assms(4) p(3) at(2,1,3,4)] written_at [OF p(1,3) at(4)] p(2) ok(2)
    show ?thesis by simp
  qed
qed

lemma writeAt_confined:
  assumes root: "rooted e m root" and res: "resolves m cs as us r" and pre: "prefix root (r @ us)"
    and proper: "list_all proper cs" and w: "writeAt m (abs_path cs) data = (x, m')"
  shows "confined root m m' \<and> (\<forall>n. x = Inr n \<longrightarrow> n = int (length data) \<and> written root cs data m')"
proof -
  have wf: "fs_wf m" using root by (simp add: rooted_def)
  have cs: "cs = as @ us" and as: "walk go_links True m [] as = Inr r" and r: "m r \<noteq> None" using res by (auto simp: resolves_def)
  from res obtain q where q: "walk kernel_links False m [] as = Inr q" "m q \<noteq> None" by (auto simp: resolves_def)
  note inside = resolves_inside [OF root res pre proper]
  show ?thesis
  proof (cases us rule: rev_cases)
    case Nil
    have same: "snd (MkdirAll m (rev (butlast cs))) = m"
      using Nil cs proper q MkdirAll_parent [of m "butlast cs" "last cs" q] wf by (cases cs rule: rev_cases) auto
    have at: "p \<noteq> [] \<and> m (butlast p) = Some Directory \<and> proper (last p) \<and> prefix root p"
      if p: "walk kernel_links True m [] cs = Inr p" and f: "m p = None \<or> (\<exists>t. m p = Some (File t))" for p
    proof -
      have "p = r" using walk_budget [OF p, of go_links] as cs Nil by (simp add: kernel_links_def go_links_def)
      with r f fs_root [OF wf] have "p \<noteq> []" by auto
      then obtain p' c where p': "p = p' @ [c]" by (cases p rule: rev_cases) auto
      then have "m (p' @ [c]) \<noteq> None" using \<open>p = r\<close> r by simp
      from fs_parent [OF wf this] fs_components [OF wf this] have "m p' = Some Directory" "proper c" by simp_all
      with p' inside \<open>p = r\<close> show ?thesis by simp
    qed
    from writeAt_frame [OF w proper same confined_refl [OF wf] at] show ?thesis .
  next
    case (snoc us' u)
    then obtain t ts where t: "us = t # ts" by (metis append_is_Nil_conv list.exhaust not_Cons_self2)
    with resolves_missing [OF _ wf proper] res have rd: "m r = Some Directory" "m (r @ [t]) = None" by blast+
    let ?m1 = "snd (MkdirAll m (rev (butlast cs)))"
    have bl: "butlast cs = as @ us'" using cs snoc by (simp add: butlast_append)
    have hd: "us' = [] \<or> hd us' = t" using t snoc by (cases us') auto
    have made: "made_below r us' m ?m1"
      unfolding bl using proper cs snoc by (intro MkdirAll_made_below [OF wf as rd q _ hd]) simp
    have at: "p \<noteq> [] \<and> ?m1 (butlast p) = Some Directory \<and> proper (last p) \<and> prefix root p"
      if p: "walk kernel_links True ?m1 [] cs = Inr p" for p
    proof -
      have "hd (us' @ [u]) = t" using t snoc by simp
      moreover have pu: "list_all proper (us' @ [u])" using proper cs snoc by simp
      ultimately have "p = r @ us' @ [u] \<and> ?m1 (r @ us') = Some Directory"
        using walk_made_below [OF made wf as rd] p cs snoc by simp
      with pu inside show ?thesis by (auto simp: butlast_append intro: prefix_prefix)
    qed
    from writeAt_frame [OF w proper refl made_below_confined [OF made inside] at] show ?thesis .
  qed
qed

section \<open>Reading\<close>

lemma Stat_inside:
  assumes root: "rooted e m root" and res: "resolves m cs as us r" and pre: "prefix root (r @ us)"
    and proper: "list_all proper cs" and stat: "Stat m (abs_path cs) = Inr nd" "nd \<noteq> Directory"
  shows "\<exists>p. prefix root p \<and> m p = Some nd"
proof -
  have wf: "fs_wf m" using root by (simp add: rooted_def)
  from stat obtain p where p: "walk kernel_links True m [] cs = Inr p" "m p = Some nd"
    by (auto simp: Stat_def stat_at_def kwalk_abs [OF proper] split: sum.splits option.splits)
  have cs: "cs = as @ us" and as: "walk go_links True m [] as = Inr r" using res by (auto simp: resolves_def)
  show ?thesis
  proof (cases us rule: rev_cases)
    case Nil
    with walk_budget [OF p(1), of go_links] as cs have "p = r" by (simp add: kernel_links_def go_links_def)
    with p pre Nil show ?thesis by auto
  next
    case (snoc us' u)
    then obtain t ts where t: "us = t # ts" by (metis append_is_Nil_conv list.exhaust not_Cons_self2)
    with resolves_missing [OF _ wf proper] res have rd: "m r = Some Directory" "m (r @ [t]) = None" by blast+
    have hd: "hd (us' @ [u]) = t" using snoc t by (metis list.sel(1))
    have "list_all proper (us' @ [u])" using proper cs snoc by simp
    with walk_made_below [OF made_below_refl [OF wf] wf as rd] p(1) cs snoc hd have "m p = None \<or> m p = Some Directory" by simp
    with p(2) stat(2) show ?thesis by simp
  qed
qed

lemma safePath_written:
  assumes root: "rooted e m root" and w: "written root (target root path) data m" and "path \<noteq> []"
    and pre: "prefix root (target root path)"
  shows "safePath e m path = Some (Inr (abs_path (target root path)))"
    and "Stat m (abs_path (target root path)) = Inr (File data)"
proof -
  let ?cs = "target root path"
  have wf: "fs_wf m" using root by (simp add: rooted_def)
  note proper = target_path(2) [OF rooted_proper [OF root], of path]
  from w obtain p where p: "prefix root p" "walk kernel_links True m [] ?cs = Inr p" "m p = Some (File data)"
    by (auto simp: written_def)
  then show "Stat m (abs_path ?cs) = Inr (File data)"
    by (simp add: Stat_def stat_at_def kwalk_abs [OF proper])
  have "walk go_links True m [] ?cs = Inr p" using walk_budget [OF p(2)] by (simp add: kernel_links_def go_links_def)
  with p(3) have "EvalSymlinks m (abs_path ?cs) = Inr (abs_path p)" by (simp add: EvalSymlinks_abs_iff [OF proper wf])
  moreover from walk_nofollow [OF p(2) _ _ wf] p(3) fs_root [OF wf]
  obtain nd where "Lstat m (abs_path ?cs) = Inr nd" by (auto simp: Lstat_abs_iff [OF proper])
  moreover have pp: "list_all proper p" using fs_components [OF wf] p(3) by blast
  ultimately have "evalLoop m (abs_path ?cs) [] = Some (Inr (abs_path p))"
    by (subst evalLoop.simps) (simp add: rejoin_def Clean_abs_path)
  then show "safePath e m path = Some (Inr (abs_path ?cs))"
    using p(1) pre assms(3) withinRoot_abs [OF rooted_proper [OF root] pp]
    by (simp add: safePath_eq [OF root] check_root_def)
qed

section \<open>Results of the operations\<close>

lemma PE_WriteFile_result:
  assumes root: "rooted e m root" and w: "PE_WriteFile e m path data = Some (x, m')"
  shows "confined root m m' \<and> (\<forall>n. x = Inr n \<longrightarrow> n = int (length data) \<and> int (length data) \<le> maxFileLen e \<and>
     path \<noteq> [] \<and> prefix root (target root path) \<and> written root (target root path) data m')"
proof -
  have wf: "fs_wf m" using root by (simp add: rooted_def)
  consider (fail) "m' = m" "\<exists>y. x = Inl y"
    | (ok) p where "safePath e m path = Some (Inr p)" "writeAt m p data = (x, m')" "int (length data) \<le> maxFileLen e"
    using w by (auto simp: PE_WriteFile_def createPath_eq [OF root] split: if_splits option.splits sum.splits)
  then show ?thesis
  proof cases
    case fail
    with confined_refl [OF wf] show ?thesis by auto
  next
    case ok
    from safePath_result [OF root, of path] ok(1) obtain as us r where
      p: "p = abs_path (target root path)" and r: "resolves m (target root path) as us r" "prefix root (r @ us)" by auto
    have "path \<noteq> []" using ok(1) by (auto simp: safePath_def)
    moreover have "prefix root (target root path)" using safePath_eq [OF root \<open>path \<noteq> []\<close>] ok(1) by (auto split: if_splits)
    moreover note writeAt_confined [OF root r target_path(2) [OF rooted_proper [OF root]], of data x m'] ok(2,3) p
    ultimately show ?thesis by auto
  qed
qed

lemma confined_rooted: "rooted e m root \<Longrightarrow> confined root m m' \<Longrightarrow> rooted e m' root"
  by (force simp: rooted_def confined_def grows_def)

lemma confined_trans:
  assumes "confined root m m'" and "confined root m' m''"
  shows "confined root m m''"
proof -
  have "grows m m''"
    unfolding grows_def
  proof (intro allI impI)
    fix p nd assume "m p = Some nd"
    with assms(1) have "case nd of File _ \<Rightarrow> \<exists>t. m' p = Some (File t) | _ \<Rightarrow> m' p = Some nd" by (simp add: confined_def grows_def)
    with assms(2) show "case nd of File _ \<Rightarrow> \<exists>t. m'' p = Some (File t) | _ \<Rightarrow> m'' p = Some nd"
      by (cases nd) (force simp: confined_def grows_def)+
  qed
  moreover have "prefix root p" if "m'' p \<noteq> m p" for p
    using assms that by (cases "m' p = m p") (auto simp: confined_def)
  ultimately show ?thesis using assms(2) by (simp add: confined_def)
qed

lemma IsAbs_Abs:
  assumes "IsAbs wd"
  shows "IsAbs (Abs wd root)"
proof (cases "IsAbs root")
  case False
  have "wd \<noteq> []" using assms by (auto simp: IsAbs_def HasPrefix_def)
  moreover have "IsAbs (wd @ ''/'' @ root)" using assms by (auto simp: IsAbs_def HasPrefix_iff)
  ultimately show ?thesis using False Clean_rooted(1) [of "wd @ ''/'' @ root"] by (simp add: Abs_def JoinPath_def)
qed (simp add: Abs_def Clean_rooted)

lemma NewProcessExecutor_Root:
  assumes "fs_wf m" and "IsAbs wd"
  shows "\<exists>rs. list_all proper rs \<and> Root (NewProcessExecutor m wd root) = abs_path rs"
proof -
  obtain cs where cs: "Clean (Abs wd root) = abs_path cs" "list_all proper cs"
    using IsAbs_Abs [OF assms(2)] by (rule Clean_rootedE)
  show ?thesis
  proof (cases "EvalSymlinks m (abs_path cs)")
    case (Inl err)
    with cs show ?thesis by (auto simp: NewProcessExecutor_def Let_def)
  next
    case (Inr s)
    then obtain r where "m r \<noteq> None" "s = abs_path r" by (auto simp: EvalSymlinks_abs_iff [OF cs(2) assms(1)])
    with Inr cs fs_components [OF assms(1)] show ?thesis by (auto simp: NewProcessExecutor_def Let_def)
  qed
qed

lemma evalLoop_returns:
  assumes "fs_wf m" and "list_all proper cs"
  shows "evalLoop m (abs_path cs) [] \<noteq> None"
  using evalLoop_result [OF assms(1), of cs "[]"] assms(2) by auto

lemma paths_return:
  assumes "fs_wf m" and "list_all proper rs" and "Root e = abs_path rs"
  shows "safePath e m path \<noteq> None" and "createPath e m path \<noteq> None"
proof -
  note t = target_path [OF assms(2), of path]
  show "safePath e m path \<noteq> None"
    using evalLoop_returns [OF assms(1) t(2)]
    by (auto simp: safePath_def Let_def assms(3) t evalWithinRoot_def split: option.split sum.split)
  show "createPath e m path \<noteq> None"
    using evalLoop_returns [OF assms(1) t(2)] createLoop_evalLoop [OF assms(1) t(2)]
    by (auto simp: createPath_def Let_def assms(3) t)
qed

lemma rooted_returns:
  assumes "rooted e m root"
  shows "\<exists>r. PE_ReadFile e m p = Some r" and "\<exists>w. PE_WriteFile e m p d = Some w"
proof -
  have "fs_wf m" "Root e = abs_path root" using assms by (simp_all add: rooted_def)
  from paths_return [OF this(1) rooted_proper [OF assms] this(2), of p]
  show "\<exists>r. PE_ReadFile e m p = Some r" and "\<exists>w. PE_WriteFile e m p d = Some w"
    by (auto simp: PE_ReadFile_def PE_WriteFile_def split: option.splits sum.splits)
qed

lemma rooted_write_read:
  assumes root: "rooted e m root" and w: "PE_WriteFile e m p d = Some (Inr n, m')"
  shows "n = int (length d) \<and> PE_ReadFile e m' p = Some (Inr d)"
proof -
  from PE_WriteFile_result [OF assms] have c: "confined root m m'" and w: "n = int (length d)" "int (length d) \<le> maxFileLen e"
    "p \<noteq> []" "prefix root (target root p)" "written root (target root p) d m'" by auto
  from safePath_written [OF confined_rooted [OF root c] w(5,3,4)] w(1,2)
  show ?thesis by (simp add: PE_ReadFile_def os_ReadFile_def)
qed

section \<open>Output of commands\<close>

lemma lw_Write_take: "fst (lw_Write (int k) (take k s) p) = take k (s @ p)"
  by (auto simp: lw_Write_def Let_def min_def nat_diff_distrib)

lemma collect_take_gen:
  "foldl (\<lambda>buf p. fst (lw_Write (int k) buf p)) (take k s) ps = take k (s @ concat ps)"
proof (induction ps arbitrary: s)
  case (Cons p ps)
  have "foldl (\<lambda>buf p. fst (lw_Write (int k) buf p)) (take k s) (p # ps)
      = foldl (\<lambda>buf p. fst (lw_Write (int k) buf p)) (take k (s @ p)) ps"
    by (simp only: foldl_Cons lw_Write_take)
  also have "\<dots> = take k ((s @ p) @ concat ps)" by (rule Cons.IH)
  finally show ?case by simp
qed simp

text \<open>What a stream received in all, whatever the pieces.\<close>

definition stream_text :: "stream \<Rightarrow> (stream \<times> string) list \<Rightarrow> string" where
  "stream_text s ws = concat (map snd (filter (\<lambda>w. fst w = s) ws))"

lemma collect_take: "0 \<le> mx \<Longrightarrow> collect mx s ws = take (nat mx) (stream_text s ws)"
  using collect_take_gen [of "nat mx" "[]" "map snd (filter (\<lambda>w. fst w = s) ws)"] by (simp add: collect_def stream_text_def)

lemma maxOut_pos: "0 < maxOut e"
  by (simp add: maxOut_def defaultMaxOutput_def)

end
