(* ===== verification/Envd_Claims.thy ===== *)
theory Envd_Claims
  imports Envd_Confinement
begin

text \<open>
  The properties of the process executor, from its construction on: any sequence of file
  operations stays inside the root directory.
\<close>

section \<open>Sequences of file operations\<close>

inductive file_step :: "ProcessExecutor \<Rightarrow> fs \<Rightarrow> fs \<Rightarrow> bool" for e where
  fs_read: "PE_ReadFile e m path = Some r \<Longrightarrow> file_step e m m"
| fs_write: "PE_WriteFile e m path data = Some (r, m') \<Longrightarrow> file_step e m m'"

inductive_cases file_stepE: "file_step e m m'"

lemma file_steps_confined:
  assumes "(file_step e)\<^sup>*\<^sup>* m m'" and "rooted e m root"
  shows "confined root m m' \<and> rooted e m' root"
  using assms
proof (induction rule: rtranclp_induct)
  case base
  then show ?case by (simp add: confined_refl rooted_def)
next
  case (step y z)
  then have y: "confined root m y" "rooted e y root" by simp_all
  from step.hyps(2) have "confined root y z"
    by (cases rule: file_stepE) (use y(2) PE_WriteFile_result confined_refl in \<open>auto simp: rooted_def\<close>)
  with y show ?case using confined_trans confined_rooted by blast
qed

lemma NewProcessExecutor_rooted:
  assumes "fs_wf m" and "IsAbs wd" and "Stat m (Clean (Abs wd root)) = Inr Directory"
  shows "\<exists>r. rooted (NewProcessExecutor m wd root) m r"
proof -
  obtain cs where cs: "Clean (Abs wd root) = abs_path cs" "list_all proper cs"
    using IsAbs_Abs [OF assms(2)] by (rule Clean_rootedE)
  from assms(3) obtain r where r: "walk kernel_links True m [] cs = Inr r" "m r = Some Directory"
    by (auto simp: cs Stat_def stat_at_def kwalk_abs split: sum.splits option.splits)
  from walk_budget [OF r(1), of go_links] have "walk go_links True m [] cs = Inr r"
    by (simp add: kernel_links_def go_links_def)
  with r(2) have "EvalSymlinks m (abs_path cs) = Inr (abs_path r)" by (simp add: EvalSymlinks_abs_iff [OF cs(2) assms(1)])
  with r(2) cs assms(1) have "rooted (NewProcessExecutor m wd root) m r"
    by (simp add: rooted_def NewProcessExecutor_def Let_def)
  then show ?thesis ..
qed

text \<open>An example: a root directory with a link that leads out of it.\<close>

definition demo_fs :: fs where
  "demo_fs = map_of
     [([], Directory), ([''srv''], Directory), ([''etc''], Directory), ([''etc'', ''passwd''], File ''root''),
      ([''srv'', ''out''], Symlink ''/etc''), ([''srv'', ''in''], Symlink ''sub/../sub''),
      ([''srv'', ''sub''], Directory)]"

definition demo_executor :: ProcessExecutor where
  "demo_executor = NewProcessExecutor demo_fs ''/'' ''srv''"

lemma demo_fs_wf: "fs_wf demo_fs"
  unfolding fs_wf_def
proof (intro conjI allI impI)
  show "demo_fs [] = Some Directory" by code_simp
  fix p c assume "demo_fs (p @ [c]) \<noteq> None"
  then have "(p, c) \<in> {([], ''srv''), ([], ''etc''), ([''etc''], ''passwd''), ([''srv''], ''out''), ([''srv''], ''in''), ([''srv''], ''sub'')}"
    by (auto simp: demo_fs_def append_eq_Cons_conv split: if_splits)
  then show "demo_fs p = Some Directory" and "proper c"
    by (auto simp: demo_fs_def proper_def)
qed

lemma demo_rooted: "rooted demo_executor demo_fs [''srv'']"
proof -
  have "Root demo_executor = abs_path [''srv'']" "demo_fs [''srv''] = Some Directory" by code_simp+
  then show ?thesis using demo_fs_wf by (simp add: rooted_def)
qed

section \<open>Claims\<close>

text \<open>
  C23. Confinement of writes: once the executor is built on a directory, no sequence of its
  reads and writes, whatever the paths and whatever links the file system holds, changes
  anything outside the directory the root stands for; no node disappears, and only files
  change.
\<close>

theorem file_operations_confined:
  assumes "fs_wf m" and "IsAbs wd" and "Stat m (Clean (Abs wd root)) = Inr Directory"
    and "(file_step (NewProcessExecutor m wd root))\<^sup>*\<^sup>* m m'"
  shows "\<exists>r. Root (NewProcessExecutor m wd root) = abs_path r \<and> m r = Some Directory \<and>
     (\<forall>p. m' p \<noteq> m p \<longrightarrow> prefix r p \<and> (\<forall>nd. m p = Some nd \<longrightarrow> (\<exists>s t. nd = File s \<and> m' p = Some (File t))))"
proof -
  from NewProcessExecutor_rooted [OF assms(1-3)] obtain r where r: "rooted (NewProcessExecutor m wd root) m r" ..
  from file_steps_confined [OF assms(4) r] have c: "confined r m m'" by simp
  have "\<exists>s t. nd = File s \<and> m' p = Some (File t)" if "m' p \<noteq> m p" "m p = Some nd" for p nd
    using c that by (cases nd) (force simp: confined_def grows_def)+
  with c r show ?thesis by (intro exI [of _ r]) (auto simp: confined_def rooted_def)
qed

theorem file_operations_confined_witness:
  "Stat demo_fs (Clean (Abs ''/'' ''srv'')) = Inr Directory \<and>
   (\<exists>m'. (file_step (NewProcessExecutor demo_fs ''/'' ''srv''))\<^sup>*\<^sup>* demo_fs m' \<and> m' [''srv'', ''a'', ''b''] = Some (File ''x'') \<and>
      m' [''etc'', ''passwd''] = demo_fs [''etc'', ''passwd''])"
proof -
  let ?e = "NewProcessExecutor demo_fs ''/'' ''srv''"
  have stat: "Stat demo_fs (Clean (Abs ''/'' ''srv'')) = Inr Directory" by code_simp
  have "map_option (\<lambda>(r, m). (r, m [''srv'', ''a'', ''b''])) (PE_WriteFile ?e demo_fs ''a/b'' ''x'') = Some (Inr 1, Some (File ''x''))"
    by code_simp
  then obtain r m' where m': "PE_WriteFile ?e demo_fs ''a/b'' ''x'' = Some (r, m')" "m' [''srv'', ''a'', ''b''] = Some (File ''x'')" by auto
  then have steps: "(file_step ?e)\<^sup>*\<^sup>* demo_fs m'" by (blast intro: file_step.fs_write)
  have "IsAbs ''/''" by code_simp
  from file_operations_confined [OF demo_fs_wf this stat steps] obtain q where
    q: "Root ?e = abs_path q" "demo_fs q = Some Directory" "\<And>p. m' p \<noteq> demo_fs p \<Longrightarrow> prefix q p" by blast
  have "Root ?e = abs_path [''srv'']" "list_all proper [''srv'']" by code_simp+
  with q(1,2) fs_components [OF demo_fs_wf, of q] have "q = [''srv'']" by (simp add: abs_path_inject)
  with q(3) [of "[''etc'', ''passwd'']"] have "m' [''etc'', ''passwd''] = demo_fs [''etc'', ''passwd'']" by auto
  with stat steps m'(2) show ?thesis by blast
qed

text \<open>
  C24. Confinement of reads: what \<open>ReadFile\<close> returns is the text of a file whose real
  path, after all links, is inside the root directory, and it is not longer than the limit.
\<close>

theorem ReadFile_confined:
  assumes "rooted e m root" and "PE_ReadFile e m path = Some (Inr data)"
  shows "\<exists>p. prefix root p \<and> m p = Some (File data) \<and> int (length data) \<le> maxFileLen e"
proof -
  from assms(2) obtain s nd where s: "safePath e m path = Some (Inr s)" "Stat m s = Inr nd" "nd \<noteq> Directory"
    "node_size nd \<le> maxFileLen e" "os_ReadFile m s = Inr data"
    by (auto simp: PE_ReadFile_def split: option.splits sum.splits if_splits)
  from s(2,3,5) have nd: "nd = File data" by (auto simp: os_ReadFile_def split: node.splits)
  from safePath_result [OF assms(1), of path] s(1) obtain as us r where
    "s = abs_path (target root path)" "resolves m (target root path) as us r" "prefix root (r @ us)" by auto
  with Stat_inside [OF assms(1) _ _ target_path(2) [OF rooted_proper [OF assms(1)]]] s(2,3)
  obtain p where "prefix root p" "m p = Some nd" by blast
  with nd s(4) show ?thesis by auto
qed

theorem ReadFile_confined_witness:
  "\<exists>m' p. PE_WriteFile demo_executor demo_fs ''in/f'' ''hello'' = Some (Inr 5, m') \<and>
     PE_ReadFile demo_executor m' ''/sub/f'' = Some (Inr ''hello'') \<and> prefix [''srv''] p \<and> m' p = Some (File ''hello'')"
proof -
  have "map_option (\<lambda>(r, m). (r, PE_ReadFile demo_executor m ''/sub/f'')) (PE_WriteFile demo_executor demo_fs ''in/f'' ''hello'')
      = Some (Inr 5, Some (Inr ''hello''))"
    by code_simp
  then obtain m' where m': "PE_WriteFile demo_executor demo_fs ''in/f'' ''hello'' = Some (Inr 5, m')"
    "PE_ReadFile demo_executor m' ''/sub/f'' = Some (Inr ''hello'')" by auto
  have "rooted demo_executor m' [''srv'']"
    using PE_WriteFile_result [OF demo_rooted m'(1)] confined_rooted [OF demo_rooted] by blast
  from ReadFile_confined [OF this m'(2)] m' show ?thesis by blast
qed

text \<open>
  Round trip: after a write that succeeds, reading the same path gives what was
  written, and the number of bytes reported is its length.
\<close>

theorem WriteFile_ReadFile:
  assumes "rooted e m root" and "PE_WriteFile e m path data = Some (Inr n, m')"
  shows "n = int (length data) \<and> PE_ReadFile e m' path = Some (Inr data)"
  using assms by (rule rooted_write_read)

theorem WriteFile_ReadFile_witness:
  "\<exists>m'. PE_WriteFile demo_executor demo_fs ''new/dir/f'' ''data'' = Some (Inr 4, m') \<and>
     PE_ReadFile demo_executor m' ''new/dir/f'' = Some (Inr ''data'')"
proof -
  have "map_option fst (PE_WriteFile demo_executor demo_fs ''new/dir/f'' ''data'') = Some (Inr 4)" by code_simp
  then obtain m' where m': "PE_WriteFile demo_executor demo_fs ''new/dir/f'' ''data'' = Some (Inr 4, m')" by auto
  from WriteFile_ReadFile [OF demo_rooted m'] m' show ?thesis by blast
qed

text \<open>
  C25. The search for an existing ancestor ends: for an executor built by
  \<open>NewProcessExecutor\<close>, a read and a write of any path return, on any file system.
\<close>

theorem file_operations_return:
  assumes "fs_wf m" and "fs_wf m'" and "IsAbs wd"
  shows "\<exists>r w. PE_ReadFile (NewProcessExecutor m wd root) m' path = Some r \<and>
     PE_WriteFile (NewProcessExecutor m wd root) m' path data = Some w"
proof -
  let ?e = "NewProcessExecutor m wd root"
  from NewProcessExecutor_Root [OF assms(1,3)] obtain rs where rs: "list_all proper rs" "Root ?e = abs_path rs" by blast
  note ret = paths_return [OF assms(2) rs, of path]
  have "PE_ReadFile ?e m' path \<noteq> None"
    using ret(1) by (simp add: PE_ReadFile_def split: option.split sum.split)
  moreover have "PE_WriteFile ?e m' path data \<noteq> None"
    using ret by (auto simp: PE_WriteFile_def split: option.splits sum.splits)
  ultimately show ?thesis by auto
qed

theorem file_operations_return_witness:
  "\<exists>r w. PE_ReadFile (NewProcessExecutor demo_fs ''/'' ''no/such/root'') demo_fs ''a/b/c'' = Some r \<and>
     PE_WriteFile (NewProcessExecutor demo_fs ''/'' ''no/such/root'') demo_fs ''a/b/c'' ''x'' = Some w"
proof -
  have "IsAbs ''/''" by code_simp
  from file_operations_return [OF demo_fs_wf demo_fs_wf this] show ?thesis by blast
qed

text \<open>
  \<open>createPath\<close> gives what \<open>safePath\<close> gives: a write whose path \<open>safePath\<close> refuses is
  refused with the same error, and a file that does not exist yet needs no second search.
\<close>

theorem createPath_is_safePath:
  assumes "rooted e m root"
  shows "createPath e m path = safePath e m path \<and>
     PE_WriteFile e m path data =
       (if int (length data) > maxFileLen e then Some (Inl errFileTooLarge, m)
        else map_option (\<lambda>r. case r of Inl err \<Rightarrow> (Inl err, m) | Inr p \<Rightarrow> writeAt m p data) (safePath e m path))"
  using createPath_eq [OF assms, of path]
  by (auto simp: PE_WriteFile_def split: option.split sum.split)

theorem createPath_is_safePath_witness:
  "createPath demo_executor demo_fs ''out/passwd'' = Some (Inl ErrPermission) \<and>
   PE_WriteFile demo_executor demo_fs ''out/passwd'' ''x'' = Some (Inl ErrPermission, demo_fs)"
proof -
  have "safePath demo_executor demo_fs ''out/passwd'' = Some (Inl ErrPermission)" "\<not> int (length ''x'') > maxFileLen demo_executor"
    by code_simp+
  with createPath_is_safePath [OF demo_rooted, of "''out/passwd''" "''x''"] show ?thesis by simp
qed

text \<open>
  C26. The output of a command: whatever pieces it arrives in, each stream of the response
  is the first \<open>MaxOutput\<close> bytes of what the command wrote to it, and every piece is
  reported to the copier as written in full, so the command is never stopped by a full
  buffer.
\<close>

theorem Exec_output:
  "Stdout (fst (PE_Exec e sh command)) =
     (if TrimSpace command = [] then [] else take (nat (maxOut e)) (stream_text Out (run_writes (sh (shell_cmd e command))))) \<and>
   Stderr (fst (PE_Exec e sh command)) =
     (if TrimSpace command = [] then [] else take (nat (maxOut e)) (stream_text Err (run_writes (sh (shell_cmd e command))))) \<and>
   snd (lw_Write mx buf p) = int (length p)"
  using maxOut_pos [of e]
  by (simp add: PE_Exec_def Let_def collect_take lw_Write_def split: option.split run_error.split)

end
