(* ===== verification/Envd_Service.thy ===== *)
theory Envd_Service
  imports Envd_Claims
begin

text \<open>
  \<open>internal/envd/service.go\<close>: the \<open>Executor\<close> interface, its in-memory implementation and
  the gRPC server. The state of an executor is passed explicitly; a call that never
  returned would be \<open>None\<close>. The handlers and the client are in the theory \<open>Envd_Rpc\<close>.
\<close>

section \<open>The executor interface\<close>

text \<open>An error is the text of its \<open>Error\<close> method: the servers use nothing else of it.\<close>

record 's Executor =
  ex_Exec :: "'s \<Rightarrow> string \<Rightarrow> (ExecResponse \<times> string option \<times> 's) option"
  ex_ReadFile :: "'s \<Rightarrow> string \<Rightarrow> (string, string) result option"
  ex_WriteFile :: "'s \<Rightarrow> string \<Rightarrow> string \<Rightarrow> ((string, int) result \<times> 's) option"

locale executor =
  fixes ex :: "'s Executor" and inv :: "'s \<Rightarrow> bool"
  assumes read_returns: "inv s \<Longrightarrow> \<exists>r. ex_ReadFile ex s p = Some r"
    and write_returns: "inv s \<Longrightarrow> \<exists>r s'. ex_WriteFile ex s p d = Some (r, s')"
    and write_inv: "inv s \<Longrightarrow> ex_WriteFile ex s p d = Some (r, s') \<Longrightarrow> inv s'"
    and write_read: "inv s \<Longrightarrow> ex_WriteFile ex s p d = Some (Inr n, s') \<Longrightarrow> n = int (length d) \<and> ex_ReadFile ex s' p = Some (Inr d)"

section \<open>The in-memory executor\<close>

record MemoryExecutor =
  me_files :: "string \<rightharpoonup> string"

definition NewMemoryExecutor :: MemoryExecutor where
  "NewMemoryExecutor = \<lparr>me_files = Map.empty\<rparr>"

definition Mem_Exec :: "string \<Rightarrow> ExecResponse" where
  "Mem_Exec command = \<lparr>ExitCode = 0, Stdout = ''executed: '' @ command @ [CHR 0x0A], Stderr = []\<rparr>"

definition Mem_ReadFile :: "MemoryExecutor \<Rightarrow> string \<Rightarrow> (string, string) result" where
  "Mem_ReadFile e path = (case me_files e path of None \<Rightarrow> Inl ''file does not exist'' | Some data \<Rightarrow> Inr data)"

definition Mem_WriteFile :: "MemoryExecutor \<Rightarrow> string \<Rightarrow> string \<Rightarrow> (string, int) result \<times> MemoryExecutor" where
  "Mem_WriteFile e path data =
     (if path = [] \<or> Contains path ''..'' then (Inl ''invalid path'', e)
      else (Inr (int (length data)), e\<lparr>me_files := (me_files e)(path \<mapsto> data)\<rparr>))"

definition memory_executor :: "MemoryExecutor Executor" where
  "memory_executor =
     \<lparr>ex_Exec = \<lambda>s c. Some (Mem_Exec c, None, s),
      ex_ReadFile = \<lambda>s p. Some (Mem_ReadFile s p),
      ex_WriteFile = \<lambda>s p d. Some (Mem_WriteFile s p d)\<rparr>"

interpretation mem: executor memory_executor "\<lambda>_. True"
  by unfold_locales (auto simp: memory_executor_def Mem_WriteFile_def Mem_ReadFile_def split: if_splits)

section \<open>The process executor\<close>

text \<open>
  The shell is an argument: what a command does to the file system, and its run. The text
  of an error is an argument too, since it comes from the operating system.
\<close>

definition process_executor ::
  "ProcessExecutor \<Rightarrow> (fs \<Rightarrow> Cmd \<Rightarrow> Run \<times> fs) \<Rightarrow> (exec_error \<Rightarrow> string) \<Rightarrow> fs Executor" where
  "process_executor e sh errText =
     \<lparr>ex_Exec = \<lambda>m c.
        (case PE_Exec e (\<lambda>cmd. fst (sh m cmd)) c of
           (resp, err) \<Rightarrow> Some (resp, map_option errText err,
              if TrimSpace c = [] then m else snd (sh m (shell_cmd e c)))),
      ex_ReadFile = \<lambda>m p. map_option (map_sum errText id) (PE_ReadFile e m p),
      ex_WriteFile = \<lambda>m p d. map_option (\<lambda>(r, m'). (map_sum errText id r, m')) (PE_WriteFile e m p d)\<rparr>"

section \<open>The gRPC server\<close>

datatype codes = Unauthenticated | PermissionDenied | FailedPrecondition | InvalidArgument | NotFound | Internal | Unimplemented
  | Canceled | Unknown | DeadlineExceeded | AlreadyExists | ResourceExhausted | Aborted | OutOfRange | Unavailable | DataLoss

type_synonym status = "codes \<times> string"

text \<open>The metadata of the incoming context, under lower-case keys; \<open>None\<close> when there is none.\<close>

type_synonym MD = "(string \<rightharpoonup> string list) option"

definition MD_Get :: "MD \<Rightarrow> string \<Rightarrow> string list" where
  "MD_Get md k = (case md of None \<Rightarrow> [] | Some h \<Rightarrow> (case h k of None \<Rightarrow> [] | Some vs \<Rightarrow> vs))"

record 's Server =
  SandboxID :: string
  srv_Executor :: "'s Executor option"

definition granted :: "string list \<Rightarrow> string \<Rightarrow> bool" where
  \<comment> \<open>the two loops over the scope values\<close>
  "granted values scope = list_ex (\<lambda>value. list_ex (\<lambda>g. TrimSpace g = scope) (Split value (CHR '',''))) values"

definition Server_authorize :: "'s Server \<Rightarrow> MD \<Rightarrow> string \<Rightarrow> status option" where
  "Server_authorize s md scope =
     (if md = None \<or> MD_Get md ''x-kubebox-sandbox-id'' = []
      then Some (Unauthenticated, ''internal sandbox identity is required'')
      else if hd (MD_Get md ''x-kubebox-sandbox-id'') \<noteq> SandboxID s
      then Some (PermissionDenied, ''sandbox identity rejected'')
      else if granted (MD_Get md ''x-kubebox-scope'') scope then None
      else Some (PermissionDenied, ''scope rejected''))"

definition Server_Health :: "(status, string) result" where
  "Server_Health = Inr ''ok''"

definition Server_Exec :: "'s Server \<Rightarrow> MD \<Rightarrow> 's \<Rightarrow> string \<Rightarrow> ((status, ExecResponse) result \<times> 's) option" where
  "Server_Exec s md st command =
     (case Server_authorize s md ''commands'' of
        Some err \<Rightarrow> Some (Inl err, st)
      | None \<Rightarrow>
          (case srv_Executor s of
             None \<Rightarrow> Some (Inl (FailedPrecondition, ''executor unavailable''), st)
           | Some ex \<Rightarrow>
               if TrimSpace command = [] then Some (Inl (InvalidArgument, ''command is required''), st)
               else (case ex_Exec ex st command of
                       None \<Rightarrow> None
                     | Some (response, Some err, st') \<Rightarrow> Some (Inl (Internal, err), st')
                     | Some (response, None, st') \<Rightarrow> Some (Inr response, st'))))"

definition Server_ReadFile :: "'s Server \<Rightarrow> MD \<Rightarrow> 's \<Rightarrow> string \<Rightarrow> (status, string) result option" where
  "Server_ReadFile s md st path =
     (case Server_authorize s md ''files'' of
        Some err \<Rightarrow> Some (Inl err)
      | None \<Rightarrow>
          (case srv_Executor s of
             None \<Rightarrow> Some (Inl (FailedPrecondition, ''executor unavailable''))
           | Some ex \<Rightarrow>
               (case ex_ReadFile ex st path of
                  None \<Rightarrow> None
                | Some (Inl err) \<Rightarrow> Some (Inl (NotFound, err))
                | Some (Inr data) \<Rightarrow> Some (Inr data))))"

definition Server_WriteFile :: "'s Server \<Rightarrow> MD \<Rightarrow> 's \<Rightarrow> string \<Rightarrow> string \<Rightarrow> ((status, int) result \<times> 's) option" where
  "Server_WriteFile s md st path data =
     (case Server_authorize s md ''files'' of
        Some err \<Rightarrow> Some (Inl err, st)
      | None \<Rightarrow>
          (case srv_Executor s of
             None \<Rightarrow> Some (Inl (FailedPrecondition, ''executor unavailable''), st)
           | Some ex \<Rightarrow>
               (case ex_WriteFile ex st path data of
                  None \<Rightarrow> None
                | Some (Inl err, st') \<Rightarrow> Some (Inl (InvalidArgument, err), st')
                | Some (Inr n, st') \<Rightarrow> Some (Inr n, st'))))"

section \<open>Interpretation on the process executor\<close>

lemma map_sum_Inr_iff: "map_sum f id x = Inr v \<longleftrightarrow> x = Inr v"
  by (cases x) auto

lemma process_ReadFile_iff:
  "ex_ReadFile (process_executor e sh errText) m p = Some (Inr d) \<longleftrightarrow> PE_ReadFile e m p = Some (Inr d)"
  by (auto simp: process_executor_def map_sum_Inr_iff)

lemma process_WriteFile_Some:
  "ex_WriteFile (process_executor e sh errText) m p d = Some (r, m') \<longleftrightarrow>
     (\<exists>x. PE_WriteFile e m p d = Some (x, m') \<and> r = map_sum errText id x)"
  by (auto simp: process_executor_def)

interpretation process: executor "process_executor e sh errText" "\<lambda>m. \<exists>root. rooted e m root" for e sh errText
proof unfold_locales
  fix m p assume "\<exists>root. rooted e m root"
  then show "\<exists>r. ex_ReadFile (process_executor e sh errText) m p = Some r"
    using rooted_returns(1) by (force simp: process_executor_def)
next
  fix m p d assume "\<exists>root. rooted e m root"
  then show "\<exists>r m'. ex_WriteFile (process_executor e sh errText) m p d = Some (r, m')"
    using rooted_returns(2) by (fastforce simp: process_WriteFile_Some)
next
  fix m p d r m' assume "\<exists>root. rooted e m root" "ex_WriteFile (process_executor e sh errText) m p d = Some (r, m')"
  then show "\<exists>root. rooted e m' root"
    using PE_WriteFile_result confined_rooted by (fastforce simp: process_WriteFile_Some)
next
  fix m p d n m' assume "\<exists>root. rooted e m root" "ex_WriteFile (process_executor e sh errText) m p d = Some (Inr n, m')"
  then show "n = int (length d) \<and> ex_ReadFile (process_executor e sh errText) m' p = Some (Inr d)"
    using rooted_write_read by (fastforce simp: process_WriteFile_Some process_ReadFile_iff eq_commute [of "Inr n"] map_sum_Inr_iff)
qed

definition demo_sh :: "fs \<Rightarrow> Cmd \<Rightarrow> Run \<times> fs" where
  "demo_sh m cmd = (\<lparr>run_writes = [], run_error = None, run_expired = False\<rparr>, m)"

end
