(* ===== verification/Http_Gateway.thy ===== *)
theory Http_Gateway
  imports Envd_Service Go_Http Go_Json_Decode
begin

text \<open>
  \<open>internal/envd/http_gateway.go\<close>: the HTTP form of the envd surface. A handler gives the
  response and the state of the executor afterwards, \<open>None\<close> when the executor never
  returned.
\<close>

section \<open>Model\<close>

record 's HTTPGateway =
  gw_SandboxID :: string
  gw_Executor :: "'s Executor option"

definition NewHTTPGateway :: "string \<Rightarrow> 's Executor option \<Rightarrow> 's HTTPGateway" where
  "NewHTTPGateway sandboxID ex = \<lparr>gw_SandboxID = sandboxID, gw_Executor = ex\<rparr>"

text \<open>An \<open>httpStatusError\<close> is its code and its message.\<close>

type_synonym httpStatusError = "int \<times> string"

definition statusError :: "int \<Rightarrow> string \<Rightarrow> httpStatusError" where
  [simp]: "statusError code msg = (code, msg)"

definition codesUnauthenticated :: int where
  [simp]: "codesUnauthenticated = StatusUnauthorized"

definition codesPermissionDenied :: int where
  [simp]: "codesPermissionDenied = StatusForbidden"

definition writeGatewayJSON :: "int \<Rightarrow> string \<Rightarrow> Response" where
  [simp]: "writeGatewayJSON status v = writeJSON status v"

definition writeGatewayError :: "httpStatusError \<Rightarrow> Response" where
  "writeGatewayError err = jsonError (fst err) (snd err)"

definition gateway_authorize :: "'s HTTPGateway \<Rightarrow> Request \<Rightarrow> string \<Rightarrow> httpStatusError option" where
  "gateway_authorize g r scope =
     (let vs = Header_Values (rq_Header r) ''X-Kubebox-Sandbox-ID'' in
      if vs = [] \<or> TrimSpace (hd vs) = [] then Some (statusError codesUnauthenticated ''internal sandbox identity is required'')
      else if TrimSpace (hd vs) \<noteq> gw_SandboxID g then Some (statusError codesPermissionDenied ''sandbox identity rejected'')
      else if granted (Header_Values (rq_Header r) ''X-Kubebox-Scope'') scope then None
      else Some (statusError codesPermissionDenied ''scope rejected''))"

definition withIncomingIdentity :: "'s HTTPGateway \<Rightarrow> MD" where
  "withIncomingIdentity g = Some [''x-kubebox-sandbox-id'' \<mapsto> [gw_SandboxID g]]"

definition gateway_Health :: "Response" where
  "gateway_Health = writeGatewayJSON StatusOK (json_field ''status'' ''ok'')"

definition execFields :: "(string \<times> string setter) list" where
  "execFields = [(''command'', \<lambda>v q. decode_string v q)]"

definition json_ExecResponse :: "ExecResponse \<Rightarrow> string" where
  "json_ExecResponse r = json_object
     [(''exitCode'', json_int (ExitCode r)), (''stdout'', json_string (Stdout r)), (''stderr'', json_string (Stderr r))]"

definition maxBody :: nat where "maxBody = 1048576"

definition handleCommands :: "'s HTTPGateway \<Rightarrow> 's \<Rightarrow> Request \<Rightarrow> (Response \<times> 's) option" where
  "handleCommands g st r =
     (if rq_Method r \<noteq> ''POST'' then Some (jsonError StatusMethodNotAllowed ''POST required'', st)
      else (case gateway_authorize g r ''commands'' of
        Some err \<Rightarrow> Some (writeGatewayError err, st)
      | None \<Rightarrow>
          (case gw_Executor g of
             None \<Rightarrow> Some (jsonError StatusServiceUnavailable ''executor unavailable'', st)
           | Some ex \<Rightarrow>
               (case readLimited maxBody r of
                  None \<Rightarrow> Some (jsonError StatusBadRequest ''read body'', st)
                | Some body \<Rightarrow>
                    (case Unmarshal execFields [] body of
                       None \<Rightarrow> Some (jsonError StatusBadRequest ''invalid JSON'', st)
                     | Some command \<Rightarrow>
                         if TrimSpace command = [] then Some (jsonError StatusBadRequest ''command is required'', st)
                         else (case ex_Exec ex st command of
                                 None \<Rightarrow> None
                               | Some (response, Some err, st') \<Rightarrow> Some (jsonError StatusInternalServerError err, st')
                               | Some (response, None, st') \<Rightarrow> Some (writeGatewayJSON StatusOK (json_ExecResponse response), st')))))))"

definition handleFilesRead :: "'s HTTPGateway \<Rightarrow> 's \<Rightarrow> Request \<Rightarrow> (Response \<times> 's) option" where
  "handleFilesRead g st r =
     (if rq_Method r \<noteq> ''GET'' then Some (jsonError StatusMethodNotAllowed ''GET required'', st)
      else (case gateway_authorize g r ''files'' of
        Some err \<Rightarrow> Some (writeGatewayError err, st)
      | None \<Rightarrow>
          (case gw_Executor g of
             None \<Rightarrow> Some (jsonError StatusServiceUnavailable ''executor unavailable'', st)
           | Some ex \<Rightarrow>
               let path = Query_Get r ''path'' in
               if path = [] then Some (jsonError StatusBadRequest ''path is required'', st)
               else (case ex_ReadFile ex st path of
                       None \<Rightarrow> None
                     | Some (Inl err) \<Rightarrow> Some (jsonError StatusNotFound err, st)
                     | Some (Inr data) \<Rightarrow> Some (writeGatewayJSON StatusOK (json_field ''data'' data), st)))))"

record WriteRequest =
  wr_Path :: string
  wr_Data :: string

definition writeFields :: "(string \<times> WriteRequest setter) list" where
  "writeFields =
     [(''path'', \<lambda>v q. map_option (\<lambda>x. q\<lparr>wr_Path := x\<rparr>) (decode_string v (wr_Path q))),
      (''data'', \<lambda>v q. map_option (\<lambda>x. q\<lparr>wr_Data := x\<rparr>) (decode_string v (wr_Data q)))]"

definition unmarshalWrite :: "string \<Rightarrow> WriteRequest option" where
  "unmarshalWrite body = Unmarshal writeFields \<lparr>wr_Path = [], wr_Data = []\<rparr> body"

definition handleFilesWrite :: "'s HTTPGateway \<Rightarrow> 's \<Rightarrow> Request \<Rightarrow> (Response \<times> 's) option" where
  "handleFilesWrite g st r =
     (if rq_Method r \<noteq> ''POST'' then Some (jsonError StatusMethodNotAllowed ''POST required'', st)
      else (case gateway_authorize g r ''files'' of
        Some err \<Rightarrow> Some (writeGatewayError err, st)
      | None \<Rightarrow>
          (case gw_Executor g of
             None \<Rightarrow> Some (jsonError StatusServiceUnavailable ''executor unavailable'', st)
           | Some ex \<Rightarrow>
               (case readLimited maxBody r of
                  None \<Rightarrow> Some (jsonError StatusBadRequest ''read body'', st)
                | Some body \<Rightarrow>
                    (case unmarshalWrite body of
                       None \<Rightarrow> Some (jsonError StatusBadRequest ''invalid JSON'', st)
                     | Some req \<Rightarrow>
                         if wr_Path req = [] then Some (jsonError StatusBadRequest ''path is required'', st)
                         else (case ex_WriteFile ex st (wr_Path req) (wr_Data req) of
                                 None \<Rightarrow> None
                               | Some (Inl err, st') \<Rightarrow> Some (jsonError StatusBadRequest err, st')
                               | Some (Inr n, st') \<Rightarrow>
                                   Some (writeGatewayJSON StatusOK (json_object [(''bytesWritten'', json_int n)]), st')))))))"

text \<open>The multiplexer in front of the handlers.\<close>

definition gateway_patterns :: "string list" where
  "gateway_patterns = [''/healthz'', ''/commands'', ''/files/read'', ''/files/write'']"

definition HTTPGateway_Handler :: "'s HTTPGateway \<Rightarrow> 's \<Rightarrow> Request \<Rightarrow> (served \<times> 's) option" where
  "HTTPGateway_Handler g st r =
     (case ServeMux gateway_patterns r of
        MuxRedirect p \<Rightarrow> Some (MovedPermanently p, st)
      | MuxNotFound \<Rightarrow> Some (PageNotFound, st)
      | Dispatch p \<Rightarrow>
          map_option (\<lambda>(resp, st'). (Served resp, st'))
            (if p = ''/healthz'' then Some (gateway_Health, st)
             else if p = ''/commands'' then handleCommands g st r
             else if p = ''/files/read'' then handleFilesRead g st r
             else handleFilesWrite g st r))"

section \<open>Authorization\<close>

definition route_scope :: "string \<Rightarrow> string" where
  "route_scope p = (if p = ''/commands'' then ''commands'' else ''files'')"

text \<open>An executor is reached only through \<open>gateway_authorize\<close>: a refused request gets the refusal or is malformed.\<close>

lemma handlers_refuse:
  assumes "gateway_authorize g r scope = Some err"
  shows "scope = ''commands'' \<Longrightarrow> \<exists>resp. handleCommands g st r = Some (resp, st) \<and> rs_Status resp \<in> {StatusMethodNotAllowed, fst err}"
    and "scope = ''files'' \<Longrightarrow> \<exists>resp. handleFilesRead g st r = Some (resp, st) \<and> rs_Status resp \<in> {StatusMethodNotAllowed, fst err}"
    and "scope = ''files'' \<Longrightarrow> \<exists>resp. handleFilesWrite g st r = Some (resp, st) \<and> rs_Status resp \<in> {StatusMethodNotAllowed, fst err}"
  using assms by (auto simp: handleCommands_def handleFilesRead_def handleFilesWrite_def writeGatewayError_def)

lemma handleCommands_allowed:
  assumes "handleCommands g st r = Some (resp, st')" and "st' \<noteq> st \<or> rs_Status resp = StatusOK"
  shows "gateway_authorize g r ''commands'' = None"
  using assms by (auto simp: handleCommands_def writeGatewayError_def gateway_authorize_def Let_def status_defs split: if_splits)

lemma handleFilesRead_allowed:
  assumes "handleFilesRead g st r = Some (resp, st')" and "st' \<noteq> st \<or> rs_Status resp = StatusOK"
  shows "gateway_authorize g r ''files'' = None"
  using assms by (auto simp: handleFilesRead_def writeGatewayError_def gateway_authorize_def Let_def status_defs split: if_splits)

lemma handleFilesWrite_allowed:
  assumes "handleFilesWrite g st r = Some (resp, st')" and "st' \<noteq> st \<or> rs_Status resp = StatusOK"
  shows "gateway_authorize g r ''files'' = None"
  using assms by (auto simp: handleFilesWrite_def writeGatewayError_def gateway_authorize_def Let_def status_defs split: if_splits)

lemma gateway_authorize_iff:
  "gateway_authorize g r scope = None \<longleftrightarrow>
     (\<exists>v vs. Header_Values (rq_Header r) ''X-Kubebox-Sandbox-ID'' = v # vs \<and> TrimSpace v = gw_SandboxID g \<and> gw_SandboxID g \<noteq> []) \<and>
     granted (Header_Values (rq_Header r) ''X-Kubebox-Scope'') scope"
  by (cases "Header_Values (rq_Header r) ''X-Kubebox-Sandbox-ID''") (auto simp: gateway_authorize_def Let_def)

text \<open>An identity without scopes passes no method of the server.\<close>

lemma withIncomingIdentity_refused:
  "gw_SandboxID g = SandboxID s \<Longrightarrow> Server_authorize s (withIncomingIdentity g) scope = Some (PermissionDenied, ''scope rejected'')"
  by (simp add: Server_authorize_def withIncomingIdentity_def MD_Get_def granted_def)

lemma granted_Join:
  assumes "\<forall>s \<in> set scopes. CHR '','' \<notin> set s \<and> TrimSpace s = s" and "scope \<noteq> []"
  shows "granted [Join scopes '',''] scope \<longleftrightarrow> scope \<in> set scopes"
proof (cases "scopes = []")
  case False
  have "Split (Join scopes '','') (CHR '','') = scopes" using assms(1) False Split_Join [of scopes "CHR '',''"] by auto
  with assms(1) show ?thesis by (auto simp: granted_def list_ex_iff)
qed (use assms(2) in \<open>simp add: granted_def\<close>)

lemma HTTPGateway_Handler_guard:
  assumes "HTTPGateway_Handler g st r = Some (out, st')"
    and "st' \<noteq> st \<or> (\<exists>resp. out = Served resp \<and> rs_Status resp = StatusOK \<and> ServeMux gateway_patterns r \<noteq> Dispatch ''/healthz'')"
  shows "\<exists>p. ServeMux gateway_patterns r = Dispatch p \<and> p \<in> {''/commands'', ''/files/read'', ''/files/write''} \<and>
     gateway_authorize g r (route_scope p) = None"
proof (cases "ServeMux gateway_patterns r")
  case (Dispatch p)
  then have p: "p \<in> {''/healthz'', ''/commands'', ''/files/read'', ''/files/write''}"
    using ServeMux_pattern [OF Dispatch] by (simp add: gateway_patterns_def)
  have "p \<noteq> ''/healthz''" using assms Dispatch by (auto simp: HTTPGateway_Handler_def)
  then consider "p = ''/commands''" | "p = ''/files/read''" | "p = ''/files/write''" using p by blast
  then have "gateway_authorize g r (route_scope p) = None"
  proof cases
    case 1
    with assms Dispatch obtain resp where "handleCommands g st r = Some (resp, st')" "st' \<noteq> st \<or> rs_Status resp = StatusOK"
      by (auto simp: HTTPGateway_Handler_def)
    from handleCommands_allowed [OF this] 1 show ?thesis by (simp add: route_scope_def)
  next
    case 2
    with assms Dispatch obtain resp where "handleFilesRead g st r = Some (resp, st')" "st' \<noteq> st \<or> rs_Status resp = StatusOK"
      by (auto simp: HTTPGateway_Handler_def)
    from handleFilesRead_allowed [OF this] 2 show ?thesis by (simp add: route_scope_def)
  next
    case 3
    with assms Dispatch obtain resp where "handleFilesWrite g st r = Some (resp, st')" "st' \<noteq> st \<or> rs_Status resp = StatusOK"
      by (auto simp: HTTPGateway_Handler_def)
    from handleFilesWrite_allowed [OF this] 3 show ?thesis by (simp add: route_scope_def)
  qed
  with Dispatch p \<open>p \<noteq> ''/healthz''\<close> show ?thesis by blast
qed (use assms in \<open>auto simp: HTTPGateway_Handler_def\<close>)

end
