(* ===== verification/Envd_Rpc.thy ===== *)
theory Envd_Rpc
  imports Http_Gateway Go_Crypto
begin

text \<open>
  The gRPC side of \<open>internal/envd/service.go\<close>: the JSON codec and the messages, the
  service description with its handlers, and the client. The gRPC library is a connection,
  an argument: what \<open>Invoke\<close> gives for a method and the bytes of a request. What gRPC documents
  of a connection to a registered server is the hypothesis \<open>grpc_conn\<close>: the handler gets the bytes
  and the metadata of the client, messages are limited to 4 MiB, and a call may fail on the way.
\<close>

section \<open>Base64 with padding\<close>

text \<open>
  \<open>base64.StdEncoding\<close>: the other two characters of the alphabet and padding to a multiple
  of four. \<open>encoding/json\<close> writes a byte slice with it.
\<close>

definition std_char :: "char \<Rightarrow> char" where
  "std_char c = (if c = CHR ''-'' then CHR ''+'' else if c = CHR ''_'' then CHR ''/'' else c)"

definition url_char :: "char \<Rightarrow> char" where
  "url_char c = (if c = CHR ''+'' then CHR ''-'' else if c = CHR ''/'' then CHR ''_'' else c)"

definition b64_StdEncode :: "string \<Rightarrow> string" where
  "b64_StdEncode s =
     (let e = map std_char (b64_EncodeToString s) in e @ replicate ((4 - length e mod 4) mod 4) (CHR ''=''))"

definition b64_pads :: "string \<Rightarrow> nat" where
  "b64_pads t = (if take 2 (rev t) = ''=='' then 2 else if take 1 (rev t) = ''='' then 1 else 0)"

definition b64_StdDecode :: "string \<Rightarrow> string option" where
  "b64_StdDecode s =
     (let t = filter (\<lambda>c. c \<noteq> CHR 0x0D \<and> c \<noteq> CHR 0x0A) s;
          u = take (length t - b64_pads t) t
      in if length t mod 4 \<noteq> 0 \<or> CHR ''-'' \<in> set u \<or> CHR ''_'' \<in> set u then None
         else b64_DecodeString (map url_char u))"

section \<open>Messages\<close>

text \<open>A byte slice; \<open>None\<close> is the nil slice. An array of small numbers is read as bytes too.\<close>

definition json_bytes :: "string option \<Rightarrow> string" where
  "json_bytes d = (case d of None \<Rightarrow> ''null'' | Some s \<Rightarrow> [quote] @ b64_StdEncode s @ [quote])"

definition decode_byte :: "json \<Rightarrow> char option" where
  "decode_byte v =
     (case v of
        JNum l \<Rightarrow> if l \<noteq> [] \<and> list_all digitp l \<and> atoi l < 256 then Some (char_of (atoi l)) else None
      | JNull \<Rightarrow> Some (CHR 0x00)
      | _ \<Rightarrow> None)"

definition decode_bytes :: "json \<Rightarrow> string option" where
  "decode_bytes v =
     (case v of
        JStr t \<Rightarrow> b64_StdDecode t
      | JNull \<Rightarrow> Some []
      | JArr xs \<Rightarrow> those (map decode_byte xs)
      | _ \<Rightarrow> None)"

definition decode_int32 :: "json \<Rightarrow> int \<Rightarrow> int option" where
  "decode_int32 v old =
     (case decode_int v old of None \<Rightarrow> None | Some n \<Rightarrow> if - (2 ^ 31) \<le> n \<and> n < 2 ^ 31 then Some n else None)"

definition marshal_HealthRequest :: string where "marshal_HealthRequest = json_object []"

definition unmarshal_HealthRequest :: "string \<Rightarrow> unit option" where
  "unmarshal_HealthRequest b = Unmarshal [] () b"

definition marshal_HealthResponse :: "string \<Rightarrow> string" where
  "marshal_HealthResponse st = json_object [(''status'', json_string st)]"

definition unmarshal_HealthResponse :: "string \<Rightarrow> string option" where
  "unmarshal_HealthResponse b = Unmarshal [(''status'', \<lambda>v q. decode_string v q)] [] b"

definition marshal_ExecRequest :: "string \<Rightarrow> string" where
  "marshal_ExecRequest command = json_object [(''command'', json_string command)]"

definition unmarshal_ExecRequest :: "string \<Rightarrow> string option" where
  "unmarshal_ExecRequest b = Unmarshal execFields [] b"

definition execResponseFields :: "(string \<times> ExecResponse setter) list" where
  "execResponseFields =
     [(''exitCode'', \<lambda>v q. map_option (\<lambda>x. q\<lparr>ExitCode := x\<rparr>) (decode_int32 v (ExitCode q))),
      (''stdout'', \<lambda>v q. map_option (\<lambda>x. q\<lparr>Stdout := x\<rparr>) (decode_string v (Stdout q))),
      (''stderr'', \<lambda>v q. map_option (\<lambda>x. q\<lparr>Stderr := x\<rparr>) (decode_string v (Stderr q)))]"

definition unmarshal_ExecResponse :: "string \<Rightarrow> ExecResponse option" where
  "unmarshal_ExecResponse b = Unmarshal execResponseFields \<lparr>ExitCode = 0, Stdout = [], Stderr = []\<rparr> b"

definition marshal_ReadFileRequest :: "string \<Rightarrow> string" where
  "marshal_ReadFileRequest path = json_object [(''path'', json_string path)]"

definition unmarshal_ReadFileRequest :: "string \<Rightarrow> string option" where
  "unmarshal_ReadFileRequest b = Unmarshal [(''path'', \<lambda>v q. decode_string v q)] [] b"

definition marshal_ReadFileResponse :: "string option \<Rightarrow> string" where
  "marshal_ReadFileResponse d = json_object [(''data'', json_bytes d)]"

definition unmarshal_ReadFileResponse :: "string \<Rightarrow> string option" where
  "unmarshal_ReadFileResponse b = Unmarshal [(''data'', \<lambda>v q. decode_bytes v)] [] b"

definition marshal_WriteFileRequest :: "string \<Rightarrow> string option \<Rightarrow> string" where
  "marshal_WriteFileRequest path d = json_object [(''path'', json_string path), (''data'', json_bytes d)]"

definition writeRequestFields :: "(string \<times> (string \<times> string) setter) list" where
  "writeRequestFields =
     [(''path'', \<lambda>v (p, d). map_option (\<lambda>x. (x, d)) (decode_string v p)),
      (''data'', \<lambda>v (p, d). map_option (\<lambda>x. (p, x)) (decode_bytes v))]"

definition unmarshal_WriteFileRequest :: "string \<Rightarrow> (string \<times> string) option" where
  "unmarshal_WriteFileRequest b = Unmarshal writeRequestFields ([], []) b"

definition marshal_WriteFileResponse :: "int \<Rightarrow> string" where
  "marshal_WriteFileResponse n = json_object [(''bytesWritten'', json_int n)]"

definition unmarshal_WriteFileResponse :: "string \<Rightarrow> int option" where
  "unmarshal_WriteFileResponse b = Unmarshal [(''bytesWritten'', \<lambda>v q. decode_int v q)] 0 b"

section \<open>The service\<close>

text \<open>The interface \<open>EnvdServer\<close>, and the methods a server that embeds \<open>UnimplementedEnvdServer\<close> inherits.\<close>

record 's EnvdServer =
  es_Health :: "(status, string) result"
  es_Exec :: "MD \<Rightarrow> 's \<Rightarrow> string \<Rightarrow> ((status, ExecResponse) result \<times> 's) option"
  es_ReadFile :: "MD \<Rightarrow> 's \<Rightarrow> string \<Rightarrow> (status, string) result option"
  es_WriteFile :: "MD \<Rightarrow> 's \<Rightarrow> string \<Rightarrow> string \<Rightarrow> ((status, int) result \<times> 's) option"

definition UnimplementedEnvdServer :: "'s EnvdServer" where
  "UnimplementedEnvdServer =
     \<lparr>es_Health = Inl (Unimplemented, ''method Health not implemented''),
      es_Exec = \<lambda>_ st _. Some (Inl (Unimplemented, ''method Exec not implemented''), st),
      es_ReadFile = \<lambda>_ _ _. Some (Inl (Unimplemented, ''method ReadFile not implemented'')),
      es_WriteFile = \<lambda>_ st _ _. Some (Inl (Unimplemented, ''method WriteFile not implemented''), st)\<rparr>"

definition server_methods :: "'s Server \<Rightarrow> 's EnvdServer" where
  \<comment> \<open>the methods of \<open>Server\<close> hide those it embeds\<close>
  "server_methods s = UnimplementedEnvdServer
     \<lparr>es_Health := Server_Health, es_Exec := Server_Exec s, es_ReadFile := Server_ReadFile s, es_WriteFile := Server_WriteFile s\<rparr>"

text \<open>A handler's \<open>dec\<close> is what the decoder of gRPC gives for the bytes of the request.\<close>

definition healthHandler :: "'s EnvdServer \<Rightarrow> (status, unit) result \<Rightarrow> (status, string) result" where
  "healthHandler srv dec = (case dec of Inl err \<Rightarrow> Inl err | Inr _ \<Rightarrow> es_Health srv)"

definition execHandler ::
  "'s EnvdServer \<Rightarrow> MD \<Rightarrow> 's \<Rightarrow> (status, string) result \<Rightarrow> ((status, ExecResponse) result \<times> 's) option" where
  "execHandler srv md st dec = (case dec of Inl err \<Rightarrow> Some (Inl err, st) | Inr command \<Rightarrow> es_Exec srv md st command)"

definition readFileHandler ::
  "'s EnvdServer \<Rightarrow> MD \<Rightarrow> 's \<Rightarrow> (status, string) result \<Rightarrow> (status, string) result option" where
  "readFileHandler srv md st dec = (case dec of Inl err \<Rightarrow> Some (Inl err) | Inr path \<Rightarrow> es_ReadFile srv md st path)"

definition writeFileHandler ::
  "'s EnvdServer \<Rightarrow> MD \<Rightarrow> 's \<Rightarrow> (status, string \<times> string) result \<Rightarrow> ((status, int) result \<times> 's) option" where
  "writeFileHandler srv md st dec =
     (case dec of Inl err \<Rightarrow> Some (Inl err, st) | Inr (path, data) \<Rightarrow> es_WriteFile srv md st path data)"

definition serviceName :: string where "serviceName = ''kubebox.envd.v1.Envd''"

text \<open>
  The methods of the service description, on bytes: \<open>bad\<close> is the status gRPC gives for a
  request it cannot decode, \<open>nilEmpty\<close> says whether the executor returns an empty file as a nil slice.
\<close>

definition decoded :: "status \<Rightarrow> 'a option \<Rightarrow> (status, 'a) result" where
  "decoded bad x = (case x of None \<Rightarrow> Inl bad | Some v \<Rightarrow> Inr v)"

type_synonym 's rpc = "'s EnvdServer \<Rightarrow> MD \<Rightarrow> 's \<Rightarrow> string \<Rightarrow> ((status, string) result \<times> 's) option"

definition Envd_ServiceDesc :: "status \<Rightarrow> bool \<Rightarrow> (string \<times> 's rpc) list" where
  "Envd_ServiceDesc bad nilEmpty =
     [(''Health'', \<lambda>srv md st b.
         Some (map_sum id marshal_HealthResponse (healthHandler srv (decoded bad (unmarshal_HealthRequest b))), st)),
      (''Exec'', \<lambda>srv md st b.
         map_option (\<lambda>(r, st'). (map_sum id json_ExecResponse r, st'))
           (execHandler srv md st (decoded bad (unmarshal_ExecRequest b)))),
      (''ReadFile'', \<lambda>srv md st b.
         map_option (\<lambda>r. (map_sum id (\<lambda>d. marshal_ReadFileResponse (if d = [] \<and> nilEmpty then None else Some d)) r, st))
           (readFileHandler srv md st (decoded bad (unmarshal_ReadFileRequest b)))),
      (''WriteFile'', \<lambda>srv md st b.
         map_option (\<lambda>(r, st'). (map_sum id marshal_WriteFileResponse r, st'))
           (writeFileHandler srv md st (decoded bad (unmarshal_WriteFileRequest b))))]"

text \<open>
  \<open>RegisterEnvdServer\<close> adds the service to those of the server it is given: under its name, the
  handlers of the description with the implementation they are called with.
\<close>

type_synonym 's handler = "MD \<Rightarrow> 's \<Rightarrow> string \<Rightarrow> ((status, string) result \<times> 's) option"

definition RegisterEnvdServer ::
  "status \<Rightarrow> bool \<Rightarrow> (string \<times> (string \<times> 's handler) list) list \<Rightarrow> 's EnvdServer \<Rightarrow> (string \<times> (string \<times> 's handler) list) list" where
  "RegisterEnvdServer bad nilEmpty services srv =
     services @ [(serviceName, map (\<lambda>(m, f). (m, f srv)) (Envd_ServiceDesc bad nilEmpty))]"

section \<open>The client\<close>

record 'w ClientConn =
  cc_Invoke :: "MD \<Rightarrow> string \<Rightarrow> string \<Rightarrow> 'w \<Rightarrow> ((status, string) result \<times> 'w) option"
  cc_BadReply :: status \<comment> \<open>for a reply that cannot be decoded\<close>

definition Invoke ::
  "'w ClientConn \<Rightarrow> MD \<Rightarrow> string \<Rightarrow> string \<Rightarrow> (string \<Rightarrow> 'a option) \<Rightarrow> 'w \<Rightarrow> ((status, 'a) result \<times> 'w) option" where
  "Invoke conn md method req dec w =
     (case cc_Invoke conn md method req w of
        None \<Rightarrow> None
      | Some (Inl err, w) \<Rightarrow> Some (Inl err, w)
      | Some (Inr b, w) \<Rightarrow> Some (decoded (cc_BadReply conn) (dec b), w))"

definition Client_Health :: "'w ClientConn \<Rightarrow> MD \<Rightarrow> 'w \<Rightarrow> ((status, string) result \<times> 'w) option" where
  "Client_Health conn md w = Invoke conn md (''/'' @ serviceName @ ''/Health'') marshal_HealthRequest unmarshal_HealthResponse w"

definition Client_Exec :: "'w ClientConn \<Rightarrow> MD \<Rightarrow> string \<Rightarrow> 'w \<Rightarrow> ((status, ExecResponse) result \<times> 'w) option" where
  "Client_Exec conn md command w =
     Invoke conn md (''/'' @ serviceName @ ''/Exec'') (marshal_ExecRequest command) unmarshal_ExecResponse w"

definition Client_ReadFile :: "'w ClientConn \<Rightarrow> MD \<Rightarrow> string \<Rightarrow> 'w \<Rightarrow> ((status, string) result \<times> 'w) option" where
  "Client_ReadFile conn md path w =
     Invoke conn md (''/'' @ serviceName @ ''/ReadFile'') (marshal_ReadFileRequest path) unmarshal_ReadFileResponse w"

definition Client_WriteFile ::
  "'w ClientConn \<Rightarrow> MD \<Rightarrow> string \<Rightarrow> string option \<Rightarrow> 'w \<Rightarrow> ((status, int) result \<times> 'w) option" where
  "Client_WriteFile conn md path data w =
     Invoke conn md (''/'' @ serviceName @ ''/WriteFile'') (marshal_WriteFileRequest path data) unmarshal_WriteFileResponse w"

section \<open>A connection to the server\<close>

text \<open>
  What gRPC decides: the metadata as it arrives, a handler's status as the client gets it, the
  statuses for bytes that cannot be decoded, and the text for a message over the limit.
\<close>

record grpc =
  arrives :: "MD \<Rightarrow> MD"
  wire_status :: "status \<Rightarrow> status"
  bad_request :: status
  bad_reply :: status
  too_large :: "nat \<Rightarrow> string"

text \<open>
  \<open>grpc.NewServer()\<close> and a connection without call options receive messages of at most 4 MiB;
  a longer one is refused with \<open>ResourceExhausted\<close>, a request before its handler is called.
\<close>

definition maxReceive :: nat where "maxReceive = 4194304"

definition delivered :: "grpc \<Rightarrow> 's handler \<Rightarrow> 's handler" where
  "delivered lib f md st b =
     (if maxReceive < length b then Some (Inl (ResourceExhausted, too_large lib (length b)), st)
      else (case f (arrives lib md) st b of
              None \<Rightarrow> None
            | Some (Inl err, st') \<Rightarrow> Some (Inl (wire_status lib err), st')
            | Some (Inr reply, st') \<Rightarrow>
                if maxReceive < length reply then Some (Inl (ResourceExhausted, too_large lib (length reply)), st')
                else Some (Inr reply, st')))"

text \<open>
  The connection, as gRPC documents it for the methods of the registered services. \<open>lost\<close> says for
  which calls it breaks: the client then gets a status of gRPC's own, whether the handler
  was not called or its answer did not arrive. Any other call reaches the handler.
\<close>

definition grpc_conn ::
  "grpc \<Rightarrow> (MD \<Rightarrow> string \<Rightarrow> string \<Rightarrow> 's \<Rightarrow> bool) \<Rightarrow> (string \<times> (string \<times> 's handler) list) list \<Rightarrow> 's ClientConn \<Rightarrow> bool" where
  "grpc_conn lib lost services conn \<longleftrightarrow> cc_BadReply conn = bad_reply lib \<and>
     (\<forall>md svc ms m f b st. map_of services svc = Some ms \<longrightarrow> map_of ms m = Some f \<longrightarrow>
        (let method = ''/'' @ svc @ ''/'' @ m; out = cc_Invoke conn md method b st in
         if lost md method b st
         then \<exists>err. out = Some (Inl err, st) \<or>
                (\<exists>r st'. length b \<le> maxReceive \<and> f (arrives lib md) st b = Some (r, st') \<and> out = Some (Inl err, st'))
         else out = delivered lib f md st b))"

text \<open>
  What a client gets for a method: \<open>req\<close> is its request, \<open>res\<close> what the method gives, \<open>enc\<close> the
  text of a reply and \<open>arr\<close> the reply as it is decoded.
\<close>

definition over_wire ::
  "grpc \<Rightarrow> string \<Rightarrow> ('a \<Rightarrow> string) \<Rightarrow> ('a \<Rightarrow> 'b) \<Rightarrow> 's \<Rightarrow> ((status, 'a) result \<times> 's) option \<Rightarrow> ((status, 'b) result \<times> 's) option" where
  "over_wire lib req enc arr st res =
     (if maxReceive < length req then Some (Inl (ResourceExhausted, too_large lib (length req)), st)
      else (case res of
              None \<Rightarrow> None
            | Some (Inl err, st') \<Rightarrow> Some (Inl (wire_status lib err), st')
            | Some (Inr v, st') \<Rightarrow>
                if maxReceive < length (enc v) then Some (Inl (ResourceExhausted, too_large lib (length (enc v))), st')
                else Some (Inr (arr v), st')))"

definition carried ::
  "grpc \<Rightarrow> bool \<Rightarrow> string \<Rightarrow> ('a \<Rightarrow> string) \<Rightarrow> ('a \<Rightarrow> 'b) \<Rightarrow> 's \<Rightarrow> ((status, 'a) result \<times> 's) option
     \<Rightarrow> ((status, 'b) result \<times> 's) option \<Rightarrow> bool" where
  "carried lib lost req enc arr st res out \<longleftrightarrow>
     (if lost
      then \<exists>err. out = Some (Inl err, st) \<or> (\<exists>r st'. length req \<le> maxReceive \<and> res = Some (r, st') \<and> out = Some (Inl err, st'))
      else out = over_wire lib req enc arr st res)"

section \<open>Round trips of the codec\<close>

lemma b64_length: "length (b64_sextets s) mod 4 \<noteq> 1"
  by (induction s rule: b64_sextets.induct) auto

lemma std_alphabet:
  assumes "c \<in> set b64_alphabet"
  shows "url_char (std_char c) = c" and "std_char c \<notin> {CHR ''-'', CHR ''_'', CHR ''='', CHR 0x0D, CHR 0x0A, quote, backslash}"
    and "json_ascii (std_char c) = [std_char c]" and "of_char (std_char c) < (0x80 :: nat)"
proof -
  have "list_all (\<lambda>c. url_char (std_char c) = c \<and> std_char c \<notin> {CHR ''-'', CHR ''_'', CHR ''='', CHR 0x0D, CHR 0x0A, quote, backslash} \<and>
      json_ascii (std_char c) = [std_char c] \<and> of_char (std_char c) < (0x80 :: nat)) b64_alphabet"
    by code_simp
  with assms show "url_char (std_char c) = c" "std_char c \<notin> {CHR ''-'', CHR ''_'', CHR ''='', CHR 0x0D, CHR 0x0A, quote, backslash}"
    "json_ascii (std_char c) = [std_char c]" "of_char (std_char c) < (0x80 :: nat)"
    unfolding list_all_iff by blast+
qed

lemma pad_four:
  assumes "m mod 4 \<noteq> (1 :: nat)"
  shows "(4 - m mod 4) mod 4 \<le> 2" and "(m + (4 - m mod 4) mod 4) mod 4 = 0"
proof -
  have small: "(4 - r) mod 4 \<le> 2 \<and> (r + (4 - r) mod 4) mod 4 = 0" if "r < 4" "r \<noteq> 1" for r :: nat
  proof -
    have "r \<in> {0, 2, 3}" using that by auto
    then show ?thesis by auto
  qed
  have "m mod 4 < 4" by simp
  note s = small [OF this assms]
  then show "(4 - m mod 4) mod 4 \<le> 2" by blast
  from s show "(m + (4 - m mod 4) mod 4) mod 4 = 0" by (metis mod_add_left_eq)
qed

lemma b64_pads_replicate:
  assumes "k \<le> 2" and "CHR ''='' \<notin> set e"
  shows "b64_pads (e @ replicate k (CHR ''='')) = k"
proof -
  have "k = 0 \<or> k = 1 \<or> k = 2" using assms(1) by auto
  moreover have "take 1 (rev e) \<noteq> ''=''" "take 2 (rev e) \<noteq> ''==''"
    using assms(2) by (cases e rule: rev_cases; auto)+
  moreover have "take 2 (CHR ''='' # rev e) \<noteq> ''==''" using assms(2) by (cases e rule: rev_cases) auto
  ultimately show ?thesis by (auto simp: b64_pads_def numeral_2_eq_2)
qed

lemma b64_std_roundtrip: "b64_StdDecode (b64_StdEncode s) = Some s"
proof -
  let ?e = "b64_EncodeToString s"
  let ?t = "map std_char ?e" and ?k = "(4 - length (b64_EncodeToString s) mod 4) mod 4"
  have enc: "b64_StdEncode s = ?t @ replicate ?k (CHR ''='')" by (simp add: b64_StdEncode_def Let_def)
  have "length ?e mod 4 \<noteq> 1" using b64_length by (simp add: b64_EncodeToString_def)
  then have k: "?k \<le> 2" and len: "(length ?e + ?k) mod 4 = 0" by (rule pad_four)+
  have out: "c \<notin> set ?t" if "c \<in> {CHR ''-'', CHR ''_'', CHR ''='', CHR 0x0D, CHR 0x0A}" for c
    using that std_alphabet(2) [OF b64_in_alphabet] by fastforce
  then have "CHR 0x0D \<notin> set ?t" "CHR 0x0A \<notin> set ?t" by blast+
  then have "\<forall>c \<in> set (b64_StdEncode s). c \<noteq> CHR 0x0D \<and> c \<noteq> CHR 0x0A"
    unfolding enc by (auto simp del: set_map simp: set_replicate_conv_if split: if_splits)
  then have fl: "filter (\<lambda>c. c \<noteq> CHR 0x0D \<and> c \<noteq> CHR 0x0A) (b64_StdEncode s) = b64_StdEncode s"
    by (rule filter_True)
  have "CHR ''='' \<notin> set ?t" using out by blast
  then have pads: "b64_pads (b64_StdEncode s) = ?k" unfolding enc by (rule b64_pads_replicate [OF k])
  have e: "map url_char ?t = ?e" using std_alphabet(1) [OF b64_in_alphabet] by (simp add: map_idI)
  have u: "take (length (b64_StdEncode s) - b64_pads (b64_StdEncode s)) (b64_StdEncode s) = ?t"
    unfolding pads by (simp add: enc)
  have "length (b64_StdEncode s) mod 4 = 0" using len by (simp add: enc)
  moreover have "CHR ''-'' \<notin> set ?t" "CHR ''_'' \<notin> set ?t" using out by blast+
  ultimately show ?thesis unfolding b64_StdDecode_def fl Let_def u e by (simp add: b64_roundtrip del: set_map)
qed

lemma json_escape_plain: "\<forall>c \<in> set s. of_char c < (0x80 :: nat) \<and> json_ascii c = [c] \<Longrightarrow> json_escape s = s"
  by (induction s) simp_all

lemma b64_std_plain: "\<forall>c \<in> set (b64_StdEncode s). of_char c < (0x80 :: nat) \<and> json_ascii c = [c]"
proof -
  have "json_ascii (CHR ''='') = ''=''" by code_simp
  then show ?thesis using std_alphabet(3,4) [OF b64_in_alphabet] by (auto simp: b64_StdEncode_def Let_def)
qed

lemma encodes_bytes: "\<exists>v. encodes 0 (json_bytes d) v \<and> decode_bytes v = Some (case d of None \<Rightarrow> [] | Some s \<Rightarrow> s)"
proof (cases d)
  case None
  have "json_value n e (''null'' @ r) = Some (JNull, r)" if "2 * length ''null'' \<le> n" for n e r
    using that by (cases n) (auto simp: spacep_def expect_def HasPrefix_def TrimPrefix_def)
  then have "encodes 0 ''null'' JNull" by (simp only: encodes_def) simp
  with None show ?thesis by (intro exI [of _ JNull]) (simp add: json_bytes_def decode_bytes_def)
next
  case (Some s)
  have "json_bytes d = json_string (b64_StdEncode s)"
    using json_escape_plain [OF b64_std_plain] by (simp add: json_bytes_def json_string_def Some)
  moreover have "utf8_valid (b64_StdEncode s)" using b64_std_plain by (intro utf8_valid_ascii) blast
  ultimately have "encodes 0 (json_bytes d) (JStr (b64_StdEncode s))" using encodes_string by simp
  with Some show ?thesis by (intro exI [of _ "JStr (b64_StdEncode s)"]) (simp add: decode_bytes_def b64_std_roundtrip)
qed

lemma field_names:
  "fold_name ''status'' = ''STATUS''" "fold_name ''command'' = ''COMMAND''" "fold_name ''exitCode'' = ''EXITCODE''"
  "fold_name ''stdout'' = ''STDOUT''" "fold_name ''stderr'' = ''STDERR''" "fold_name ''path'' = ''PATH''"
  "fold_name ''data'' = ''DATA''" "fold_name ''bytesWritten'' = ''BYTESWRITTEN''"
  by code_simp+

lemmas message_simps = encodes_member_def encodes_string_any encodes_int utf8_valid_ascii field_names decode_string_def

lemma unmarshal_string:
  assumes "utf8_valid k"
  shows "Unmarshal [(k, \<lambda>v q. decode_string v q)] [] (json_object [(k, json_string s)]) = Some (to_valid s)"
proof -
  have l: "list_all2 (encodes_member 0) [(k, json_string s)] [(k, JStr (to_valid s))]"
    using assms by (simp add: message_simps)
  show ?thesis unfolding Unmarshal_flat [OF l] by (simp add: message_simps)
qed

lemma unmarshal_HealthRequest [simp]: "unmarshal_HealthRequest marshal_HealthRequest = Some ()"
  using Unmarshal_flat [of "[]" "[]"] by (simp add: unmarshal_HealthRequest_def marshal_HealthRequest_def)

lemma unmarshal_HealthResponse [simp]: "unmarshal_HealthResponse (marshal_HealthResponse s) = Some (to_valid s)"
  unfolding unmarshal_HealthResponse_def marshal_HealthResponse_def by (rule unmarshal_string) (simp add: utf8_valid_ascii)

lemma unmarshal_ExecRequest [simp]: "unmarshal_ExecRequest (marshal_ExecRequest s) = Some (to_valid s)"
  unfolding unmarshal_ExecRequest_def marshal_ExecRequest_def execFields_def by (rule unmarshal_string) (simp add: utf8_valid_ascii)

lemma unmarshal_ReadFileRequest [simp]: "unmarshal_ReadFileRequest (marshal_ReadFileRequest s) = Some (to_valid s)"
  unfolding unmarshal_ReadFileRequest_def marshal_ReadFileRequest_def by (rule unmarshal_string) (simp add: utf8_valid_ascii)

definition int32 :: "int \<Rightarrow> bool" where
  "int32 n \<longleftrightarrow> - (2 ^ 31) \<le> n \<and> n < 2 ^ 31"

definition valid_response :: "ExecResponse \<Rightarrow> ExecResponse" where
  "valid_response r = r\<lparr>Stdout := to_valid (Stdout r), Stderr := to_valid (Stderr r)\<rparr>"

lemma unmarshal_ExecResponse:
  assumes "int32 (ExitCode r)"
  shows "unmarshal_ExecResponse (json_ExecResponse r) = Some (valid_response r)"
proof -
  have l: "list_all2 (encodes_member 0)
      [(''exitCode'', json_int (ExitCode r)), (''stdout'', json_string (Stdout r)), (''stderr'', json_string (Stderr r))]
      [(''exitCode'', JNum (json_int (ExitCode r))), (''stdout'', JStr (to_valid (Stdout r))), (''stderr'', JStr (to_valid (Stderr r)))]"
    by (simp add: message_simps)
  have "decode_int32 (JNum (json_int (ExitCode r))) 0 = Some (ExitCode r)"
    using assms by (simp add: decode_int32_def decode_int_def ParseInt64_json_int int32_def)
  then show ?thesis
    unfolding unmarshal_ExecResponse_def json_ExecResponse_def Unmarshal_flat [OF l]
    by (simp add: message_simps execResponseFields_def valid_response_def)
qed

lemma unmarshal_ReadFileResponse [simp]:
  "unmarshal_ReadFileResponse (marshal_ReadFileResponse d) = Some (case d of None \<Rightarrow> [] | Some s \<Rightarrow> s)"
proof -
  obtain v where v: "encodes 0 (json_bytes d) v" "decode_bytes v = Some (case d of None \<Rightarrow> [] | Some s \<Rightarrow> s)"
    using encodes_bytes by blast
  then have l: "list_all2 (encodes_member 0) [(''data'', json_bytes d)] [(''data'', v)]" by (simp add: message_simps)
  from v(2) show ?thesis
    unfolding unmarshal_ReadFileResponse_def marshal_ReadFileResponse_def Unmarshal_flat [OF l] by (simp add: message_simps)
qed

lemma unmarshal_WriteFileRequest [simp]:
  "unmarshal_WriteFileRequest (marshal_WriteFileRequest p d) = Some (to_valid p, case d of None \<Rightarrow> [] | Some s \<Rightarrow> s)"
proof -
  obtain v where v: "encodes 0 (json_bytes d) v" "decode_bytes v = Some (case d of None \<Rightarrow> [] | Some s \<Rightarrow> s)"
    using encodes_bytes by blast
  then have l: "list_all2 (encodes_member 0) [(''path'', json_string p), (''data'', json_bytes d)] [(''path'', JStr (to_valid p)), (''data'', v)]"
    by (simp add: message_simps)
  from v(2) show ?thesis
    unfolding unmarshal_WriteFileRequest_def marshal_WriteFileRequest_def Unmarshal_flat [OF l]
    by (simp add: writeRequestFields_def message_simps)
qed

lemma unmarshal_WriteFileResponse:
  assumes "- (2 ^ 63) \<le> n" and "n < 2 ^ 63"
  shows "unmarshal_WriteFileResponse (marshal_WriteFileResponse n) = Some n"
proof -
  have l: "list_all2 (encodes_member 0) [(''bytesWritten'', json_int n)] [(''bytesWritten'', JNum (json_int n))]"
    by (simp add: message_simps)
  from assms show ?thesis
    unfolding unmarshal_WriteFileResponse_def marshal_WriteFileResponse_def Unmarshal_flat [OF l]
    by (simp add: message_simps decode_int_def ParseInt64_json_int)
qed

section \<open>The length of messages\<close>

lemma b64_StdEncode_length: "length (b64_StdEncode s) = 4 * ((length s + 2) div 3)"
proof -
  have six: "length (b64_sextets t) + (4 - length (b64_sextets t) mod 4) mod 4 = 4 * ((length t + 2) div 3)" for t
  proof (induction t rule: b64_sextets.induct)
    case (4 a b c s)
    have "(length s + 2 + 3) div 3 = (length s + 2) div 3 + 1" by (rule div_add_self2) simp
    moreover have "length (a # b # c # s) + 2 = length s + 2 + 3" "length (b64_sextets (a # b # c # s)) = length (b64_sextets s) + 4" by simp_all
    moreover have "(length (b64_sextets s) + 4) mod 4 = length (b64_sextets s) mod 4" by simp
    ultimately show ?case unfolding distrib_left [of 4] 4 [symmetric] by (simp only: ac_simps distrib_left 4 [symmetric])
  qed auto
  show ?thesis using six [of "map of_char s"] by (simp add: b64_StdEncode_def b64_EncodeToString_def Let_def)
qed

lemma thirds: "(n + 2) div 3 \<le> k \<longleftrightarrow> n \<le> 3 * (k :: nat)"
  by presburger

lemma message_lengths:
  "length (marshal_ReadFileRequest p) = length (json_string p) + 9"
  "length (marshal_ReadFileResponse (Some d)) = 4 * ((length d + 2) div 3) + 11"
  "length (marshal_ReadFileResponse None) = 13"
  "length (marshal_WriteFileRequest p (Some d)) = length (json_string p) + 4 * ((length d + 2) div 3) + 19"
proof -
  have "json_string ''path'' = quote # ''path'' @ [quote]" "json_string ''data'' = quote # ''data'' @ [quote]" by code_simp+
  then show "length (marshal_ReadFileRequest p) = length (json_string p) + 9"
    "length (marshal_ReadFileResponse (Some d)) = 4 * ((length d + 2) div 3) + 11"
    "length (marshal_ReadFileResponse None) = 13"
    "length (marshal_WriteFileRequest p (Some d)) = length (json_string p) + 4 * ((length d + 2) div 3) + 19"
    by (simp_all add: marshal_ReadFileRequest_def marshal_ReadFileResponse_def marshal_WriteFileRequest_def json_object_def
        json_bytes_def b64_StdEncode_length)
qed

text \<open>The longest file whose content arrives, and from where a write never does.\<close>

lemma read_reply_fits: "length (marshal_ReadFileResponse (if d = [] \<and> nilEmpty then None else Some d)) \<le> maxReceive \<longleftrightarrow> length d \<le> 3145719"
proof -
  have "4 * q + 11 \<le> maxReceive \<longleftrightarrow> q \<le> 1048573" for q unfolding maxReceive_def by linarith
  note this [of "(length d + 2) div 3"]
  then show ?thesis using thirds [of "length d" 1048573] by (simp add: message_lengths maxReceive_def)
qed

lemma write_request_fits: "length (marshal_WriteFileRequest p (Some d)) \<le> maxReceive \<Longrightarrow> length d \<le> 3145710"
proof -
  assume "length (marshal_WriteFileRequest p (Some d)) \<le> maxReceive"
  then have "4 * ((length d + 2) div 3) + 21 \<le> maxReceive" by (simp add: message_lengths json_string_def)
  then have "(length d + 2) div 3 \<le> 1048570" unfolding maxReceive_def by linarith
  then show ?thesis using thirds [of "length d" 1048570] by simp
qed

section \<open>The client of a registered server\<close>

abbreviation envd_services :: "grpc \<Rightarrow> bool \<Rightarrow> 's Server \<Rightarrow> (string \<times> (string \<times> 's handler) list) list" where
  "envd_services lib nilEmpty s \<equiv> RegisterEnvdServer (bad_request lib) nilEmpty [] (server_methods s)"

abbreviation method_path :: "string \<Rightarrow> string" where
  "method_path m \<equiv> ''/'' @ serviceName @ ''/'' @ m"

lemma registered_method:
  "map_of (Envd_ServiceDesc bad nilEmpty) m = Some f \<Longrightarrow>
     \<exists>ms. map_of (RegisterEnvdServer bad nilEmpty [] srv) serviceName = Some ms \<and> map_of ms m = Some (f srv)"
  by (simp add: RegisterEnvdServer_def map_of_map)

lemma reply_cases:
  obtains (diverges) "x = None" | (fails) e t where "x = Some (Inl e, t)" | (replies) v t where "x = Some (Inr v, t)"
  by (metis obj_sumE option.exhaust prod.exhaust)

lemma Invoke_carried:
  assumes conn: "grpc_conn lib lost (envd_services lib nilEmpty s) conn"
    and m: "map_option (\<lambda>f. f (server_methods s) (arrives lib md) st req) (map_of (Envd_ServiceDesc (bad_request lib) nilEmpty) m) =
      Some (map_option (\<lambda>(r, st'). (map_sum id enc r, st')) res)"
    and d: "\<And>v st'. length req \<le> maxReceive \<Longrightarrow> res = Some (Inr v, st') \<Longrightarrow> dec (enc v) = Some (arr v)"
  shows "carried lib (lost md (method_path m) req st) req enc arr st res (Invoke conn md (method_path m) req dec st)"
proof -
  from m obtain f where m: "map_of (Envd_ServiceDesc (bad_request lib) nilEmpty) m = Some f"
    and f: "f (server_methods s) (arrives lib md) st req = map_option (\<lambda>(r, st'). (map_sum id enc r, st')) res" by auto
  from registered_method [OF m, of "server_methods s"] obtain ms where
    ms: "map_of (envd_services lib nilEmpty s) serviceName = Some ms" "map_of ms m = Some (f (server_methods s))" by blast
  define out where "out = cc_Invoke conn md (method_path m) req st"
  have law: "if lost md (method_path m) req st
      then \<exists>err. out = Some (Inl err, st) \<or>
        (\<exists>r st'. length req \<le> maxReceive \<and> f (server_methods s) (arrives lib md) st req = Some (r, st') \<and> out = Some (Inl err, st'))
      else out = delivered lib (f (server_methods s)) md st req"
    using conn ms unfolding grpc_conn_def Let_def out_def by blast
  have bad: "cc_BadReply conn = bad_reply lib" using conn by (simp add: grpc_conn_def)
  show ?thesis
  proof (cases "lost md (method_path m) req st")
    case True
    with law f obtain err where "out = Some (Inl err, st) \<or>
      (\<exists>r st'. length req \<le> maxReceive \<and> res = Some (r, st') \<and> out = Some (Inl err, st'))" by (auto simp del: append.simps)
    then have "Invoke conn md (method_path m) req dec st = Some (Inl err, st) \<or>
      (\<exists>r st'. length req \<le> maxReceive \<and> res = Some (r, st') \<and> Invoke conn md (method_path m) req dec st = Some (Inl err, st'))"
      unfolding Invoke_def out_def [symmetric] by auto
    with True show ?thesis unfolding carried_def by (metis (lifting))
  next
    case False
    with law have "out = delivered lib (f (server_methods s)) md st req" by simp
    with f d bad have "Invoke conn md (method_path m) req dec st = over_wire lib req enc arr st res"
      unfolding Invoke_def out_def [symmetric] delivered_def over_wire_def
      by (cases res rule: reply_cases) (simp_all add: decoded_def)
    with False show ?thesis by (simp add: carried_def del: append.simps)
  qed
qed

lemma method_paths:
  "''/'' @ serviceName @ ''/Health'' = method_path ''Health''"
  "''/'' @ serviceName @ ''/Exec'' = method_path ''Exec''"
  "''/'' @ serviceName @ ''/ReadFile'' = method_path ''ReadFile''"
  "''/'' @ serviceName @ ''/WriteFile'' = method_path ''WriteFile''"
  by simp_all

lemmas rpc_simps = Envd_ServiceDesc_def decoded_def server_methods_def

lemma Server_Exec_range:
  assumes "\<And>ex r e st'. srv_Executor s = Some ex \<Longrightarrow> ex_Exec ex st c = Some (r, e, st') \<Longrightarrow> int32 (ExitCode r)"
    and "Server_Exec s md st c = Some (Inr r, st')"
  shows "int32 (ExitCode r)"
  using assms by (auto simp: Server_Exec_def split: option.splits if_splits)

lemma Server_WriteFile_range:
  assumes "\<And>ex n st'. srv_Executor s = Some ex \<Longrightarrow> ex_WriteFile ex st p d = Some (Inr n, st') \<Longrightarrow> - (2 ^ 63) \<le> n \<and> n < 2 ^ 63"
    and "Server_WriteFile s md st p d = Some (Inr n, st')"
  shows "- (2 ^ 63) \<le> n" and "n < 2 ^ 63"
  using assms by (auto simp: Server_WriteFile_def split: option.splits sum.splits)

lemma Client_Health_carried:
  assumes "grpc_conn lib lost (envd_services lib nilEmpty s) conn"
  shows "carried lib (lost md (method_path ''Health'') marshal_HealthRequest st) marshal_HealthRequest marshal_HealthResponse id st
    (Some (Inr ''ok'', st)) (Client_Health conn md st)"
  unfolding Client_Health_def method_paths
proof (rule Invoke_carried [OF assms])
  have "to_valid ''ok'' = ''ok''" by (rule to_valid_id) (simp add: utf8_valid_ascii)
  then show "unmarshal_HealthResponse (marshal_HealthResponse v) = Some (id v)" if "Some (Inr ''ok'', st) = Some (Inr v, st')" for v st'
    using that by auto
qed (simp_all add: rpc_simps healthHandler_def Server_Health_def)

lemma Client_Exec_carried:
  assumes "grpc_conn lib lost (envd_services lib nilEmpty s) conn"
    and "\<And>ex r e st'. srv_Executor s = Some ex \<Longrightarrow> ex_Exec ex st (to_valid c) = Some (r, e, st') \<Longrightarrow> int32 (ExitCode r)"
  shows "carried lib (lost md (method_path ''Exec'') (marshal_ExecRequest c) st) (marshal_ExecRequest c) json_ExecResponse valid_response st
    (Server_Exec s (arrives lib md) st (to_valid c)) (Client_Exec conn md c st)"
  unfolding Client_Exec_def method_paths
proof (rule Invoke_carried [OF assms(1)])
  show "unmarshal_ExecResponse (json_ExecResponse v) = Some (valid_response v)"
    if "Server_Exec s (arrives lib md) st (to_valid c) = Some (Inr v, st')" for v st'
    using Server_Exec_range [OF _ that] assms(2) by (blast intro: unmarshal_ExecResponse)
qed (simp_all add: rpc_simps execHandler_def)

lemma Client_ReadFile_carried:
  assumes "grpc_conn lib lost (envd_services lib nilEmpty s) conn"
  shows "carried lib (lost md (method_path ''ReadFile'') (marshal_ReadFileRequest p) st) (marshal_ReadFileRequest p)
    (\<lambda>d. marshal_ReadFileResponse (if d = [] \<and> nilEmpty then None else Some d)) id st
    (map_option (\<lambda>r. (r, st)) (Server_ReadFile s (arrives lib md) st (to_valid p))) (Client_ReadFile conn md p st)"
  unfolding Client_ReadFile_def method_paths
  by (rule Invoke_carried [OF assms]) (auto simp: rpc_simps readFileHandler_def option.map_comp comp_def)

lemma Client_WriteFile_carried:
  assumes "grpc_conn lib lost (envd_services lib nilEmpty s) conn"
    and "\<And>ex n st'. length (marshal_WriteFileRequest p (Some d)) \<le> maxReceive \<Longrightarrow> srv_Executor s = Some ex \<Longrightarrow>
      ex_WriteFile ex st (to_valid p) d = Some (Inr n, st') \<Longrightarrow> - (2 ^ 63) \<le> n \<and> n < 2 ^ 63"
  shows "carried lib (lost md (method_path ''WriteFile'') (marshal_WriteFileRequest p (Some d)) st) (marshal_WriteFileRequest p (Some d))
    marshal_WriteFileResponse id st (Server_WriteFile s (arrives lib md) st (to_valid p) d) (Client_WriteFile conn md p (Some d) st)"
  unfolding Client_WriteFile_def method_paths
proof (rule Invoke_carried [OF assms(1)])
  show "unmarshal_WriteFileResponse (marshal_WriteFileResponse n) = Some (id n)"
    if "length (marshal_WriteFileRequest p (Some d)) \<le> maxReceive" "Server_WriteFile s (arrives lib md) st (to_valid p) d = Some (Inr n, st')" for n st'
    using Server_WriteFile_range [OF _ that(2)] assms(2) [OF that(1)] by (simp add: unmarshal_WriteFileResponse)
qed (simp_all add: rpc_simps writeFileHandler_def)

lemma carried_success:
  assumes "carried lib lost req enc arr st res (Some (Inr v, st'))"
  shows "\<not> lost \<and> length req \<le> maxReceive \<and> (\<exists>u. res = Some (Inr u, st') \<and> v = arr u \<and> length (enc u) \<le> maxReceive)"
  using assms by (cases res rule: reply_cases) (auto simp: carried_def over_wire_def split: if_splits)

text \<open>A reply of the server that fits arrives; a request that does not fit changes nothing.\<close>

lemma carried_fits:
  "carried lib lost req enc arr st (Some (Inr u, st')) out \<Longrightarrow> \<not> lost \<Longrightarrow> length req \<le> maxReceive \<Longrightarrow> length (enc u) \<le> maxReceive \<Longrightarrow>
     out = Some (Inr (arr u), st')"
  by (simp add: carried_def over_wire_def)

lemma carried_too_long:
  "carried lib lost req enc arr st res out \<Longrightarrow> maxReceive < length req \<Longrightarrow> \<exists>err. out = Some (Inl err, st)"
  by (auto simp: carried_def over_wire_def split: if_splits)

lemma carried_long_reply:
  "carried lib lost req enc arr st (Some (Inr u, st)) out \<Longrightarrow> maxReceive < length (enc u) \<Longrightarrow> \<exists>err. out = Some (Inl err, st)"
  by (auto simp: carried_def over_wire_def split: if_splits)

text \<open>Any executor that keeps its contract gives back over gRPC the bytes it was sent.\<close>

context executor
begin

lemma rpc_written:
  assumes "inv st" and "srv_Executor s = Some ex" and "grpc_conn lib lost (envd_services lib nilEmpty s) conn"
    and "Client_WriteFile conn md p (Some d) st = Some (Inr n, st')"
  shows "n = int (length d)" and "ex_ReadFile ex st' (to_valid p) = Some (Inr d)" and "length (marshal_WriteFileRequest p (Some d)) \<le> maxReceive"
proof -
  have "- (2 ^ 63) \<le> n \<and> n < 2 ^ 63"
    if "length (marshal_WriteFileRequest p (Some d)) \<le> maxReceive" "ex_WriteFile ex st (to_valid p) d = Some (Inr n, st')" for n st'
    using write_read [OF assms(1) that(2)] write_request_fits [OF that(1)] by simp
  then have "carried lib (lost md (method_path ''WriteFile'') (marshal_WriteFileRequest p (Some d)) st) (marshal_WriteFileRequest p (Some d))
    marshal_WriteFileResponse id st (Server_WriteFile s (arrives lib md) st (to_valid p) d) (Client_WriteFile conn md p (Some d) st)"
    using assms(2) by (intro Client_WriteFile_carried [OF assms(3)]) simp
  from carried_success [OF this [unfolded assms(4)]]
  have "Server_WriteFile s (arrives lib md) st (to_valid p) d = Some (Inr n, st')"
    and fits: "length (marshal_WriteFileRequest p (Some d)) \<le> maxReceive" by auto
  then have "ex_WriteFile ex st (to_valid p) d = Some (Inr n, st')"
    using assms(2) by (auto simp: Server_WriteFile_def split: option.splits sum.splits)
  from write_read [OF assms(1) this] fits show "n = int (length d)" "ex_ReadFile ex st' (to_valid p) = Some (Inr d)"
    "length (marshal_WriteFileRequest p (Some d)) \<le> maxReceive" by simp_all
qed

lemma rpc_write_read:
  assumes "inv st" and "srv_Executor s = Some ex" and "grpc_conn lib lost (envd_services lib nilEmpty s) conn"
    and "Client_WriteFile conn md p (Some d) st = Some (Inr n, st')"
    and "Server_authorize s (arrives lib md') ''files'' = None" and "\<not> lost md' (method_path ''ReadFile'') (marshal_ReadFileRequest p) st'"
  shows "Client_ReadFile conn md' p st' = Some (Inr d, st')"
proof -
  note w = rpc_written [OF assms(1-4)]
  have "Server_ReadFile s (arrives lib md') st' (to_valid p) = Some (Inr d)" using w(2) assms(2,5) by (simp add: Server_ReadFile_def)
  with Client_ReadFile_carried [OF assms(3), of md' p st'] have c:
    "carried lib (lost md' (method_path ''ReadFile'') (marshal_ReadFileRequest p) st') (marshal_ReadFileRequest p)
      (\<lambda>d. marshal_ReadFileResponse (if d = [] \<and> nilEmpty then None else Some d)) id st' (Some (Inr d, st')) (Client_ReadFile conn md' p st')" by simp
  have "length (marshal_ReadFileRequest p) \<le> maxReceive" using w(3) by (simp add: message_lengths)
  moreover have "length (marshal_ReadFileResponse (if d = [] \<and> nilEmpty then None else Some d)) \<le> maxReceive"
    using write_request_fits [OF w(3)] read_reply_fits [of d nilEmpty] by linarith
  ultimately show ?thesis using carried_fits [OF c assms(6)] by simp
qed

end

section \<open>Claims\<close>

text \<open>
  C29. The gRPC client and the server agree, up to what gRPC documents of its messages and
  connections. A call whose connection holds gives what the server's method gives for the command
  or path with invalid UTF-8 replaced and for the same bytes of a file: \<open>Health\<close> answers ok, a
  refusal arrives as gRPC carries its status, output with invalid UTF-8 replaced, the bytes of a
  file unchanged; a request or a reply of more than 4 MiB is refused instead, a request before
  anything changed. A call whose connection breaks gives an error, with the method run
  once or not at all. So a file of more than 3145719 bytes is never returned although the server reads
  it, and data of more than 3145710 bytes is never written: the 8 MiB the executor admits cannot
  be used over gRPC. The executor's numbers have the widths of their Go types.
\<close>

theorem rpc_client_agrees:
  assumes "grpc_conn lib lost (RegisterEnvdServer (bad_request lib) nilEmpty [] (server_methods s)) conn"
    and "\<And>ex r e st'. srv_Executor s = Some ex \<Longrightarrow> ex_Exec ex st (to_valid command) = Some (r, e, st') \<Longrightarrow> int32 (ExitCode r)"
    and "\<And>ex n st'. srv_Executor s = Some ex \<Longrightarrow> ex_WriteFile ex st (to_valid path) data = Some (Inr n, st') \<Longrightarrow> - (2 ^ 63) \<le> n \<and> n < 2 ^ 63"
  shows "carried lib (lost md (''/'' @ serviceName @ ''/Health'') marshal_HealthRequest st) marshal_HealthRequest marshal_HealthResponse id st
      (Some (Inr ''ok'', st)) (Client_Health conn md st) \<and>
    carried lib (lost md (''/'' @ serviceName @ ''/Exec'') (marshal_ExecRequest command) st) (marshal_ExecRequest command) json_ExecResponse valid_response st
      (Server_Exec s (arrives lib md) st (to_valid command)) (Client_Exec conn md command st) \<and>
    carried lib (lost md (''/'' @ serviceName @ ''/ReadFile'') (marshal_ReadFileRequest path) st) (marshal_ReadFileRequest path)
      (\<lambda>d. marshal_ReadFileResponse (if d = [] \<and> nilEmpty then None else Some d)) id st
      (map_option (\<lambda>r. (r, st)) (Server_ReadFile s (arrives lib md) st (to_valid path))) (Client_ReadFile conn md path st) \<and>
    carried lib (lost md (''/'' @ serviceName @ ''/WriteFile'') (marshal_WriteFileRequest path (Some data)) st) (marshal_WriteFileRequest path (Some data))
      marshal_WriteFileResponse id st (Server_WriteFile s (arrives lib md) st (to_valid path) data) (Client_WriteFile conn md path (Some data) st) \<and>
    (\<forall>d. Server_ReadFile s (arrives lib md) st (to_valid path) = Some (Inr d) \<and> 3145719 < length d \<longrightarrow>
       (\<exists>err. Client_ReadFile conn md path st = Some (Inl err, st))) \<and>
    (3145710 < length data \<longrightarrow> (\<exists>err. Client_WriteFile conn md path (Some data) st = Some (Inl err, st)))"
proof -
  note read = Client_ReadFile_carried [OF assms(1), of md path st]
  have wrt: "carried lib (lost md (method_path ''WriteFile'') (marshal_WriteFileRequest path (Some data)) st) (marshal_WriteFileRequest path (Some data))
      marshal_WriteFileResponse id st (Server_WriteFile s (arrives lib md) st (to_valid path) data) (Client_WriteFile conn md path (Some data) st)"
    using assms(3) by (intro Client_WriteFile_carried [OF assms(1)])
  have "\<exists>err. Client_ReadFile conn md path st = Some (Inl err, st)"
    if "Server_ReadFile s (arrives lib md) st (to_valid path) = Some (Inr d)" "3145719 < length d" for d
    using read [unfolded that(1) option.map] read_reply_fits [of d nilEmpty] that(2) by (intro carried_long_reply) (assumption, linarith)
  moreover have "\<exists>err. Client_WriteFile conn md path (Some data) st = Some (Inl err, st)" if "3145710 < length data"
    using carried_too_long [OF wrt] write_request_fits [of path data] that by (meson not_le)
  moreover have "carried lib (lost md (method_path ''Exec'') (marshal_ExecRequest command) st) (marshal_ExecRequest command) json_ExecResponse
      valid_response st (Server_Exec s (arrives lib md) st (to_valid command)) (Client_Exec conn md command st)"
    using assms(2) by (intro Client_Exec_carried [OF assms(1)])
  ultimately show ?thesis unfolding method_paths using Client_Health_carried [OF assms(1), of md st] read wrt by blast
qed

text \<open>A connection that never breaks, within the limits.\<close>

definition loopback :: "grpc \<Rightarrow> (string \<times> (string \<times> 's handler) list) list \<Rightarrow> 's ClientConn" where
  "loopback lib services =
     \<lparr>cc_Invoke = \<lambda>md method b st.
        (case map_of (concat (map (\<lambda>(svc, ms). map (\<lambda>(m, f). (''/'' @ svc @ ''/'' @ m, f)) ms) services)) method of
           None \<Rightarrow> Some (Inl (Unimplemented, ''unknown method''), st)
         | Some f \<Rightarrow> delivered lib f md st b),
      cc_BadReply = bad_reply lib\<rparr>"

lemma loopback_conn:
  "grpc_conn lib (\<lambda>_ _ _ _. False) (envd_services lib nilEmpty s) (loopback lib (envd_services lib nilEmpty s))"
proof -
  have inj: "inj (\<lambda>m. ''/'' @ serviceName @ ''/'' @ m)" by (simp add: inj_def)
  have "map_of (map (\<lambda>(m, f). (''/'' @ serviceName @ ''/'' @ m, f)) ms) (''/'' @ serviceName @ ''/'' @ m) = map_of ms m" for ms :: "(string \<times> 'a handler) list" and m
    using map_of_mapk_SomeI [OF inj] by (induction ms) (auto simp del: append.simps dest: injD [OF inj])
  then show ?thesis
    by (auto simp: grpc_conn_def loopback_def RegisterEnvdServer_def Let_def simp del: append.simps map_map split: if_splits)
qed

definition demo_server :: "'s Executor \<Rightarrow> 's Server" where
  "demo_server ex = \<lparr>SandboxID = ''sbx-1'', srv_Executor = Some ex\<rparr>"

definition rpc_md :: MD where
  "rpc_md = Some [''x-kubebox-sandbox-id'' \<mapsto> [''sbx-1''], ''x-kubebox-scope'' \<mapsto> [''commands, files'']]"

definition demo_grpc :: grpc where
  "demo_grpc = \<lparr>arrives = id, wire_status = id, bad_request = (Internal, ''request''), bad_reply = (Internal, ''reply''),
     too_large = \<lambda>_. ''received message larger than max''\<rparr>"

lemma demo_authorized:
  "Server_authorize (demo_server ex) rpc_md ''commands'' = None"
  "Server_authorize (demo_server ex) rpc_md ''files'' = None"
proof -
  have "granted [''commands, files''] ''commands''" "granted [''commands, files''] ''files''" by code_simp+
  then show "Server_authorize (demo_server ex) rpc_md ''commands'' = None"
    "Server_authorize (demo_server ex) rpc_md ''files'' = None"
    by (simp_all add: Server_authorize_def demo_server_def rpc_md_def MD_Get_def)
qed

abbreviation demo_conn :: "'s Executor \<Rightarrow> 's ClientConn" where
  "demo_conn ex \<equiv> loopback demo_grpc (envd_services demo_grpc True (demo_server ex))"

theorem rpc_client_agrees_witness:
  "Client_Exec (demo_conn memory_executor) rpc_md ''ls'' NewMemoryExecutor =
     Some (Inr \<lparr>ExitCode = 0, Stdout = ''executed: ls'' @ [CHR 0x0A], Stderr = []\<rparr>, NewMemoryExecutor) \<and>
   (\<exists>err. Client_WriteFile (demo_conn memory_executor) rpc_md ''a'' (Some (replicate 4000000 (CHR ''x''))) NewMemoryExecutor =
     Some (Inl err, NewMemoryExecutor))"
proof -
  let ?s = "demo_server memory_executor" and ?d = "replicate 4000000 (CHR ''x'')"
  have ls: "to_valid ''ls'' = ''ls''" by (rule to_valid_id) (simp add: utf8_valid_ascii)
  have out: "valid_response (Mem_Exec ''ls'') = Mem_Exec ''ls''"
    by (simp add: valid_response_def Mem_Exec_def to_valid_id utf8_valid_ascii)
  have "TrimSpace ''ls'' \<noteq> []" by code_simp
  then have exec: "Server_Exec ?s (arrives demo_grpc rpc_md) NewMemoryExecutor (to_valid ''ls'') = Some (Inr (Mem_Exec ''ls''), NewMemoryExecutor)"
    unfolding Server_Exec_def ls by (simp add: demo_grpc_def demo_authorized) (simp add: demo_server_def memory_executor_def)
  have r: "int32 (ExitCode r)" if "srv_Executor ?s = Some ex" "ex_Exec ex NewMemoryExecutor (to_valid ''ls'') = Some (r, e, st')" for ex r e st'
    using that by (auto simp: demo_server_def memory_executor_def Mem_Exec_def int32_def)
  have n: "- (2 ^ 63) \<le> n \<and> n < 2 ^ 63"
    if "srv_Executor ?s = Some ex" "ex_WriteFile ex NewMemoryExecutor (to_valid ''a'') ?d = Some (Inr n, st')" for ex n st'
    using that by (auto simp: demo_server_def memory_executor_def Mem_WriteFile_def split: if_splits)
  have "length (marshal_ExecRequest ''ls'') = 16" "length (json_ExecResponse (Mem_Exec ''ls'')) = 52" by code_simp+
  then have "length (marshal_ExecRequest ''ls'') \<le> maxReceive" "length (json_ExecResponse (Mem_Exec ''ls'')) \<le> maxReceive" by (simp_all add: maxReceive_def)
  note fits = carried_fits [where enc = json_ExecResponse and arr = valid_response, OF _ _ this, unfolded out]
  note agrees = rpc_client_agrees [where s = ?s and st = NewMemoryExecutor and command = "''ls''" and path = "''a''" and data = ?d and md = rpc_md,
      OF loopback_conn [where lib = demo_grpc and nilEmpty = True]]
  have "carried demo_grpc False (marshal_ExecRequest ''ls'') json_ExecResponse valid_response NewMemoryExecutor
      (Some (Inr (Mem_Exec ''ls''), NewMemoryExecutor)) (Client_Exec (demo_conn memory_executor) rpc_md ''ls'' NewMemoryExecutor)"
    unfolding exec [symmetric] by (rule agrees [THEN conjunct2, THEN conjunct1]) (fact r n)+
  then have "Client_Exec (demo_conn memory_executor) rpc_md ''ls'' NewMemoryExecutor = Some (Inr (Mem_Exec ''ls''), NewMemoryExecutor)"
    by (rule fits) simp
  moreover have "3145710 < length ?d \<longrightarrow>
      (\<exists>err. Client_WriteFile (demo_conn memory_executor) rpc_md ''a'' (Some ?d) NewMemoryExecutor = Some (Inl err, NewMemoryExecutor))"
    by (rule agrees [THEN conjunct2, THEN conjunct2, THEN conjunct2, THEN conjunct2, THEN conjunct2]) (fact r n)+
  ultimately show ?thesis by (simp add: Mem_Exec_def)
qed

text \<open>
  Files over gRPC, byte for byte: when a client's write to a server with a process
  executor succeeds, it reports the length of the data, and any authorized read of the same
  path whose connection holds gives exactly the bytes that were sent, whatever they are.
\<close>

theorem rpc_file_roundtrip:
  assumes "rooted e m root" and "srv_Executor s = Some (process_executor e sh errText)"
    and "grpc_conn lib lost (RegisterEnvdServer (bad_request lib) nilEmpty [] (server_methods s)) conn"
    and "Client_WriteFile conn md path (Some data) m = Some (Inr n, m')"
    and "Server_authorize s (arrives lib md') ''files'' = None" and "\<not> lost md' (''/'' @ serviceName @ ''/ReadFile'') (marshal_ReadFileRequest path) m'"
  shows "n = int (length data) \<and> Client_ReadFile conn md' path m' = Some (Inr data, m')"
  using process.rpc_write_read [OF _ assms(2-5)] process.rpc_written(1) [OF _ assms(2-4)] assms(1,6) unfolding method_paths by blast

end
