(* ===== verification/Gateway_Claims.thy ===== *)
theory Gateway_Claims
  imports Http_Gateway Proxy
begin

text \<open>
  The properties of the envd gateway: it lets nothing through without the sandbox identity
  and the scope of the endpoint, agrees with the gRPC server, keeps what an executor
  promises, and completes the check of the proxy in front of it.
\<close>

section \<open>What an executor promises, over HTTP\<close>

context executor
begin

text \<open>A write that is answered with success can be read by any authorized request for the same path.\<close>

lemma http_write_read:
  assumes inv: "inv st" and g: "gw_Executor g = Some ex"
    and w: "handleFilesWrite g st r = Some (resp, st')" "rs_Status resp = StatusOK"
    and body: "readLimited maxBody r = Some body" "unmarshalWrite body = Some req"
    and r': "rq_Method r' = ''GET''" "gateway_authorize g r' ''files'' = None" "Query_Get r' ''path'' = wr_Path req"
  shows "inv st' \<and> handleFilesRead g st' r' = Some (writeJSON StatusOK (json_field ''data'' (wr_Data req)), st') \<and>
     resp = writeJSON StatusOK (json_object [(''bytesWritten'', json_int (int (length (wr_Data req))))])"
proof -
  have ne: "wr_Path req \<noteq> []" using w body g by (auto simp: handleFilesWrite_def writeGatewayError_def gateway_authorize_def Let_def status_defs split: if_splits)
  from w body g ne handleFilesWrite_allowed [OF w(1)] obtain n where
    n: "ex_WriteFile ex st (wr_Path req) (wr_Data req) = Some (Inr n, st')" "resp = writeJSON StatusOK (json_object [(''bytesWritten'', json_int n)])"
    by (auto simp: handleFilesWrite_def status_defs split: if_splits option.splits sum.splits)
  from write_read [OF inv n(1)] write_inv [OF inv n(1)] n(2) r' g ne show ?thesis
    by (simp add: handleFilesRead_def Let_def)
qed

text \<open>Every file request is answered.\<close>

lemma http_files_answered:
  assumes "inv st" and "gw_Executor g = Some ex"
  shows "\<exists>resp st'. handleFilesWrite g st r = Some (resp, st') \<and> inv st'"
    and "\<exists>resp. handleFilesRead g st r = Some (resp, st)"
proof -
  have "\<exists>resp st'. handleFilesWrite g st r = Some (resp, st') \<and> inv st'" if "rq_Method r = ''POST''"
      "gateway_authorize g r ''files'' = None" "readLimited maxBody r = Some body" "unmarshalWrite body = Some req" "wr_Path req \<noteq> []" for body req
  proof -
    from write_returns [OF assms(1), of "wr_Path req" "wr_Data req"] obtain x st' where
      x: "ex_WriteFile ex st (wr_Path req) (wr_Data req) = Some (x, st')" by blast
    with that assms(2) write_inv [OF assms(1) x] show ?thesis by (cases x) (simp_all add: handleFilesWrite_def)
  qed
  then show "\<exists>resp st'. handleFilesWrite g st r = Some (resp, st') \<and> inv st'"
    using assms by (cases "rq_Method r = ''POST''"; cases "gateway_authorize g r ''files''"; cases "readLimited maxBody r")
      (auto simp: handleFilesWrite_def split: option.split)
  from read_returns [OF assms(1), of "Query_Get r ''path''"] obtain x where "ex_ReadFile ex st (Query_Get r ''path'') = Some x" ..
  with assms(2) show "\<exists>resp. handleFilesRead g st r = Some (resp, st)"
    by (cases x) (auto simp: handleFilesRead_def Let_def split: option.split)
qed

end

section \<open>An example\<close>

definition gw_request :: "string \<Rightarrow> string \<Rightarrow> string \<Rightarrow> string \<Rightarrow> Header \<Rightarrow> Request" where
  "gw_request method path query body h =
     \<lparr>rq_Method = method, rq_Path = path, rq_EscapedPath = path, rq_RawQuery = [], rq_Query = [''path'' \<mapsto> [query]],
      rq_Header = h, rq_Body = body, rq_BodyErr = False, rq_ClientIP = None\<rparr>"

definition gw_headers :: Header where
  "gw_headers = [''X-Kubebox-Sandbox-Id'' \<mapsto> [''sbx-1''], ''X-Kubebox-Scope'' \<mapsto> [''commands, files'']]"

definition demo_body :: string where
  "demo_body = json_object [(''path'', json_string ''notes/a''), (''data'', json_string ''hi'')]"

lemma demo_body_decoded: "unmarshalWrite demo_body = Some \<lparr>wr_Path = ''notes/a'', wr_Data = ''hi''\<rparr>"
  by code_simp

lemma demo_body_read: "rq_Body r = demo_body \<Longrightarrow> \<not> rq_BodyErr r \<Longrightarrow> readLimited maxBody r = Some demo_body"
proof -
  have "length demo_body \<le> 100" by code_simp
  then show "rq_Body r = demo_body \<Longrightarrow> \<not> rq_BodyErr r \<Longrightarrow> readLimited maxBody r = Some demo_body"
    by (simp add: readLimited_def maxBody_def)
qed

definition demo_gateway :: "'s Executor \<Rightarrow> 's HTTPGateway" where
  "demo_gateway ex = NewHTTPGateway ''sbx-1'' (Some ex)"

lemma demo_gateway_Executor [simp]: "gw_Executor (demo_gateway ex) = Some ex"
  by (simp add: demo_gateway_def NewHTTPGateway_def)

lemma demo_gateway_authorize:
  "rq_Header r = gw_headers \<Longrightarrow> gateway_authorize (demo_gateway ex) r ''files'' = None"
proof -
  have "TrimSpace ''sbx-1'' = ''sbx-1''" "granted [''commands, files''] ''files''" by code_simp+
  then show "rq_Header r = gw_headers \<Longrightarrow> gateway_authorize (demo_gateway ex) r ''files'' = None"
    by (simp add: gateway_authorize_iff gw_headers_def Header_Values_def canonical_consts demo_gateway_def NewHTTPGateway_def)
qed

lemma demo_mux:
  "ServeMux gateway_patterns (gw_request ''POST'' ''/files/write'' q body h) = Dispatch ''/files/write''"
  "ServeMux gateway_patterns (gw_request ''GET'' ''/files/read'' q body h) = Dispatch ''/files/read''"
proof -
  have "cleanPath ''/files/write'' = ''/files/write''" "mux_match gateway_patterns ''/files/write'' = Some ''/files/write''"
    "cleanPath ''/files/read'' = ''/files/read''" "mux_match gateway_patterns ''/files/read'' = Some ''/files/read''"
    by code_simp+
  then show "ServeMux gateway_patterns (gw_request ''POST'' ''/files/write'' q body h) = Dispatch ''/files/write''"
    "ServeMux gateway_patterns (gw_request ''GET'' ''/files/read'' q body h) = Dispatch ''/files/read''"
    by (simp_all add: ServeMux_def gw_request_def)
qed

text \<open>The write of the example, for any headers the gateway accepts.\<close>

lemma demo_write:
  assumes "gateway_authorize (demo_gateway ex) (gw_request ''POST'' ''/files/write'' q demo_body h) ''files'' = None"
    and "ex_WriteFile ex st ''notes/a'' ''hi'' = Some (Inr n, st')"
  shows "handleFilesWrite (demo_gateway ex) st (gw_request ''POST'' ''/files/write'' q demo_body h) =
     Some (writeJSON StatusOK (json_object [(''bytesWritten'', json_int n)]), st')"
  using assms demo_body_read [of "gw_request ''POST'' ''/files/write'' q demo_body h"] demo_body_decoded
  by (simp add: handleFilesWrite_def gw_request_def)

lemma demo_write_served:
  assumes "gateway_authorize (demo_gateway ex) (gw_request ''POST'' ''/files/write'' q demo_body h) ''files'' = None"
    and "ex_WriteFile ex st ''notes/a'' ''hi'' = Some (Inr n, st')"
  shows "HTTPGateway_Handler (demo_gateway ex) st (gw_request ''POST'' ''/files/write'' q demo_body h) =
     Some (Served (writeJSON StatusOK (json_object [(''bytesWritten'', json_int n)])), st')"
  by (simp add: HTTPGateway_Handler_def demo_mux demo_write [OF assms])

lemma demo_memory_write:
  "ex_WriteFile memory_executor NewMemoryExecutor ''notes/a'' ''hi'' = Some (Inr 2, \<lparr>me_files = [''notes/a'' \<mapsto> ''hi'']\<rparr>)"
  by (simp add: memory_executor_def Mem_WriteFile_def NewMemoryExecutor_def HasPrefix_def)

text \<open>The HTTP status the gateway uses for a code of the server.\<close>

fun http_code :: "codes \<Rightarrow> int" where
  "http_code Unauthenticated = StatusUnauthorized"
| "http_code PermissionDenied = StatusForbidden"
| "http_code _ = StatusInternalServerError"

section \<open>Claims\<close>

text \<open>
  C27. The gateway guards its executor: a request that changes the executor's state, or is
  answered with success on any path but \<open>/healthz\<close>, carried this sandbox's identity and a
  grant of the scope of the endpoint.
\<close>

theorem gateway_guards_executor:
  assumes "HTTPGateway_Handler g st r = Some (out, st')"
    and "st' \<noteq> st \<or> (\<exists>resp. out = Served resp \<and> rs_Status resp = StatusOK \<and> ServeMux gateway_patterns r \<noteq> Dispatch ''/healthz'')"
  shows "\<exists>p v vs. ServeMux gateway_patterns r = Dispatch p \<and> p \<in> {''/commands'', ''/files/read'', ''/files/write''} \<and>
     Header_Values (rq_Header r) ''X-Kubebox-Sandbox-ID'' = v # vs \<and> TrimSpace v = gw_SandboxID g \<and>
     granted (Header_Values (rq_Header r) ''X-Kubebox-Scope'') (route_scope p)"
proof -
  from HTTPGateway_Handler_guard [OF assms] obtain p where
    p: "ServeMux gateway_patterns r = Dispatch p" "p \<in> {''/commands'', ''/files/read'', ''/files/write''}"
      "gateway_authorize g r (route_scope p) = None" by blast
  from p(3) obtain v vs where "Header_Values (rq_Header r) ''X-Kubebox-Sandbox-ID'' = v # vs" "TrimSpace v = gw_SandboxID g"
    "granted (Header_Values (rq_Header r) ''X-Kubebox-Scope'') (route_scope p)"
    unfolding gateway_authorize_iff by blast
  with p(1,2) show ?thesis by blast
qed

theorem gateway_guards_executor_witness:
  "\<exists>out st' p. HTTPGateway_Handler (demo_gateway memory_executor) NewMemoryExecutor
       (gw_request ''POST'' ''/files/write'' [] demo_body gw_headers) = Some (out, st') \<and> st' \<noteq> NewMemoryExecutor \<and>
     p \<in> {''/commands'', ''/files/read'', ''/files/write''} \<and> granted [''commands, files''] (route_scope p)"
proof -
  let ?r = "gw_request ''POST'' ''/files/write'' [] demo_body gw_headers"
  have "rq_Header ?r = gw_headers" by (simp add: gw_request_def)
  from demo_write_served [OF demo_gateway_authorize [OF this] demo_memory_write] obtain out st' where
    h: "HTTPGateway_Handler (demo_gateway memory_executor) NewMemoryExecutor ?r = Some (out, st')" "st' = \<lparr>me_files = [''notes/a'' \<mapsto> ''hi'']\<rparr>" by blast
  have ne: "st' \<noteq> NewMemoryExecutor" using h(2) by (simp add: NewMemoryExecutor_def)
  have scope: "Header_Values (rq_Header ?r) ''X-Kubebox-Scope'' = [''commands, files'']"
    by (simp add: gw_request_def gw_headers_def Header_Values_def canonical_consts)
  from gateway_guards_executor [OF h(1) disjI1 [OF ne]] h(1) ne scope show ?thesis by auto
qed

text \<open>
  Files over HTTP: when a write to a gateway with a process executor is answered with
  success, any authorized read of the same path is answered with exactly the data that was
  sent, and the write reports its length.
\<close>

theorem gateway_file_roundtrip:
  assumes "rooted e m root" and "gw_Executor g = Some (process_executor e sh errText)"
    and "handleFilesWrite g m r = Some (resp, m')" and "rs_Status resp = StatusOK"
    and "readLimited maxBody r = Some body" and "unmarshalWrite body = Some req"
    and "rq_Method r' = ''GET''" and "gateway_authorize g r' ''files'' = None" and "Query_Get r' ''path'' = wr_Path req"
  shows "handleFilesRead g m' r' = Some (writeJSON StatusOK (json_field ''data'' (wr_Data req)), m') \<and>
     resp = writeJSON StatusOK (json_object [(''bytesWritten'', json_int (int (length (wr_Data req))))])"
  using process.http_write_read [OF _ assms(2-9)] assms(1) by blast

theorem gateway_file_roundtrip_witness:
  "\<exists>m'. handleFilesWrite (demo_gateway (process_executor demo_executor demo_sh (\<lambda>_. []))) demo_fs
      (gw_request ''POST'' ''/files/write'' [] demo_body gw_headers) = Some (writeJSON StatusOK (json_object [(''bytesWritten'', ''2'')]), m') \<and>
   handleFilesRead (demo_gateway (process_executor demo_executor demo_sh (\<lambda>_. []))) m'
      (gw_request ''GET'' ''/files/read'' ''notes/a'' [] gw_headers) = Some (writeJSON StatusOK (json_field ''data'' ''hi''), m')"
proof -
  let ?ex = "process_executor demo_executor demo_sh (\<lambda>_. [])"
  let ?w = "gw_request ''POST'' ''/files/write'' [] demo_body gw_headers"
  let ?r = "gw_request ''GET'' ''/files/read'' ''notes/a'' [] gw_headers"
  have "map_option fst (PE_WriteFile demo_executor demo_fs ''notes/a'' ''hi'') = Some (Inr 2)" by code_simp
  then obtain m' where "PE_WriteFile demo_executor demo_fs ''notes/a'' ''hi'' = Some (Inr 2, m')" by auto
  then have ex: "ex_WriteFile ?ex demo_fs ''notes/a'' ''hi'' = Some (Inr 2, m')" by (simp add: process_WriteFile_Some)
  have h: "rq_Header ?w = gw_headers" "rq_Header ?r = gw_headers" by (simp_all add: gw_request_def)
  have two: "json_int 2 = ''2''" by code_simp
  have w: "handleFilesWrite (demo_gateway ?ex) demo_fs ?w = Some (writeJSON StatusOK (json_object [(''bytesWritten'', ''2'')]), m')"
    unfolding demo_write [OF demo_gateway_authorize [OF h(1)] ex] two ..
  have "readLimited maxBody ?w = Some demo_body" by (intro demo_body_read) (simp_all add: gw_request_def)
  from gateway_file_roundtrip [OF demo_rooted demo_gateway_Executor w _ this demo_body_decoded _ demo_gateway_authorize [OF h(2)]]
  have "handleFilesRead (demo_gateway ?ex) m' ?r = Some (writeJSON StatusOK (json_field ''data'' ''hi''), m')"
    by (simp add: gw_request_def Query_Get_def)
  with w show ?thesis by blast
qed

text \<open>
  The gateway decides as the gRPC server does: for the same identity and scope values,
  when the identity is not empty and has no space around it, the two refuse with
  corresponding codes and the same message or both accept.
\<close>

theorem gateway_agrees_with_server:
  assumes "Header_Values (rq_Header r) ''X-Kubebox-Sandbox-ID'' = MD_Get (Some md) ''x-kubebox-sandbox-id''"
    and "Header_Values (rq_Header r) ''X-Kubebox-Scope'' = MD_Get (Some md) ''x-kubebox-scope''"
    and "gw_SandboxID g = SandboxID s"
    and "\<forall>v \<in> set (MD_Get (Some md) ''x-kubebox-sandbox-id''). v \<noteq> [] \<and> TrimSpace v = v"
  shows "gateway_authorize g r scope = map_option (\<lambda>(c, m). (http_code c, m)) (Server_authorize s (Some md) scope)"
proof (cases "MD_Get (Some md) ''x-kubebox-sandbox-id''")
  case Nil
  with assms(1) show ?thesis by (simp add: gateway_authorize_def Server_authorize_def)
next
  case (Cons v vs)
  with assms(4) have "v \<noteq> []" "TrimSpace v = v" by simp_all
  with Cons assms(1-3) show ?thesis by (simp add: gateway_authorize_def Server_authorize_def)
qed

definition demo_md :: "string \<rightharpoonup> string list" where
  "demo_md = [''x-kubebox-sandbox-id'' \<mapsto> [''sbx-1''], ''x-kubebox-scope'' \<mapsto> [''commands, files'']]"

theorem gateway_agrees_with_server_witness:
  "gateway_authorize (demo_gateway memory_executor) (gw_request ''GET'' ''/files/read'' [] [] gw_headers) ''network'' =
     map_option (\<lambda>(c, m). (http_code c, m))
       (Server_authorize \<lparr>SandboxID = ''sbx-1'', srv_Executor = Some memory_executor\<rparr> (Some demo_md) ''network'')"
proof -
  have "TrimSpace ''sbx-1'' = ''sbx-1''" by code_simp
  then show ?thesis
    by (intro gateway_agrees_with_server)
      (simp_all add: gw_request_def gw_headers_def Header_Values_def canonical_consts MD_Get_def demo_md_def demo_gateway_def NewHTTPGateway_def)
qed

text \<open>
  C28. Proxy and gateway together: when a request that the proxy forwarded changes the
  state of the executor behind the gateway, the client's credential was valid for that
  sandbox and, its scopes being names without commas and spaces around them, lists the
  scope of the endpoint that was reached, whatever the proxy made of the path.
\<close>

theorem proxy_gateway_authorized:
  assumes "snd (Proxy_Handler p now backend r) = Some out" and "rq_Header r' = o_Header out"
    and "HTTPGateway_Handler g st r' = Some (x, st')" and "st' \<noteq> st"
  shows "\<exists>sandboxID bp envelope pat. parsePath (rq_Path r) = Some (sandboxID, bp) \<and>
     Validate (Issuer p) now (bearer r) sandboxID (scopeFor (rq_Method r) bp) = Inr envelope \<and>
     TrimSpace sandboxID = gw_SandboxID g \<and> ServeMux gateway_patterns r' = Dispatch pat \<and>
     ((\<forall>s \<in> set (c_Scopes envelope). CHR '','' \<notin> set s \<and> TrimSpace s = s) \<longrightarrow> route_scope pat \<in> set (c_Scopes envelope))"
proof -
  from assms(1) obtain sandboxID bp target envelope where
    f: "parsePath (rq_Path r) = Some (sandboxID, bp)"
      "Validate (Issuer p) now (bearer r) sandboxID (scopeFor (rq_Method r) bp) = Inr envelope"
      "out = outgoing target sandboxID bp (c_Scopes envelope) r" by (rule Proxy_Handler_forwarded)
  from HTTPGateway_Handler_guard [OF assms(3)] assms(4) obtain pat where
    pat: "ServeMux gateway_patterns r' = Dispatch pat" "gateway_authorize g r' (route_scope pat) = None" by blast
  have ids: "Header_Values (rq_Header r') ''X-Kubebox-Sandbox-ID'' \<in> {[], [sandboxID]}"
    and scs: "Header_Values (rq_Header r') ''X-Kubebox-Scope'' \<in> {[], [Join (c_Scopes envelope) '','']}"
    unfolding assms(2) f(3) by (simp_all add: Header_Values_def canonical_consts outgoing_identity)
  from pat(2) ids scs have id: "TrimSpace sandboxID = gw_SandboxID g"
    and gr: "granted [Join (c_Scopes envelope) '',''] (route_scope pat)"
    unfolding gateway_authorize_iff by (auto simp: granted_def)
  have "route_scope pat \<noteq> []" by (simp add: route_scope_def)
  with gr granted_Join [of "c_Scopes envelope" "route_scope pat"]
  have "(\<forall>s \<in> set (c_Scopes envelope). CHR '','' \<notin> set s \<and> TrimSpace s = s) \<longrightarrow> route_scope pat \<in> set (c_Scopes envelope)" by blast
  with f(1,2) id pat(1) show ?thesis by blast
qed

theorem proxy_gateway_authorized_witness:
  "\<exists>tok out x st' envelope. snd (Proxy_Handler demo_proxy demo_time (\<lambda>_. None) (demo_proxy_request ''/v1/sandboxes/sbx-1/files/write'' tok)) = Some out \<and>
     HTTPGateway_Handler (demo_gateway memory_executor) NewMemoryExecutor
       (gw_request ''POST'' ''/files/write'' [] demo_body (o_Header out)) = Some (x, st') \<and> st' \<noteq> NewMemoryExecutor \<and>
     Validate demo_issuer demo_time (bearer (demo_proxy_request ''/v1/sandboxes/sbx-1/files/write'' tok)) ''sbx-1'' ''files'' = Inr envelope"
proof -
  let ?path = "''/v1/sandboxes/sbx-1/files/write''"
  have pp: "parsePath ?path = Some (''sbx-1'', ''/files/write'')" "scopeFor ''POST'' ''/files/write'' = ''files''"
    "TrimSpace ''sbx-1'' = ''sbx-1''" "granted [''files''] ''files''" by code_simp+
  from demo_issue_one obtain tok where t: "Issue demo_issuer demo_time ''sbx-1'' [''files''] (60 * Second) = Inr tok" by blast
  let ?r = "demo_proxy_request ?path tok" and ?out = "outgoing demo_url ''sbx-1'' ''/files/write'' [''files''] (demo_proxy_request ?path tok)"
  let ?r' = "gw_request ''POST'' ''/files/write'' [] demo_body (o_Header ?out)"
  have f: "snd (Proxy_Handler demo_proxy demo_time (\<lambda>_. None) ?r) = Some ?out"
    using demo_proxy_forwards [OF t _ pp(1,2)] by (simp add: utf8_valid_ascii)
  have "connectionTokens (rq_Header ?r) = []"
    by (simp add: connectionTokens_def demo_proxy_request_def Header_Values_def canonical_consts)
  then have "gateway_authorize (demo_gateway memory_executor) ?r' ''files'' = None"
    unfolding gateway_authorize_iff using pp(3,4)
    by (simp add: gw_request_def Header_Values_def canonical_consts outgoing_identity dropped_identity demo_gateway_def NewHTTPGateway_def)
  from demo_write_served [OF this demo_memory_write] obtain x st' where
    h: "HTTPGateway_Handler (demo_gateway memory_executor) NewMemoryExecutor ?r' = Some (x, st')" "st' = \<lparr>me_files = [''notes/a'' \<mapsto> ''hi'']\<rparr>" by blast
  have ne: "st' \<noteq> NewMemoryExecutor" using h(2) by (simp add: NewMemoryExecutor_def)
  have "rq_Header ?r' = o_Header ?out" by (simp add: gw_request_def)
  from proxy_gateway_authorized [OF f this h(1) ne] obtain i bp env where
    v: "parsePath (rq_Path ?r) = Some (i, bp)" "Validate (Issuer demo_proxy) demo_time (bearer ?r) i (scopeFor (rq_Method ?r) bp) = Inr env" by blast
  have "rq_Path ?r = ?path" "rq_Method ?r = ''POST''" "Issuer demo_proxy = demo_issuer" by (simp_all add: demo_proxy_request_def demo_proxy_def)
  with v pp(1,2) have "Validate demo_issuer demo_time (bearer ?r) ''sbx-1'' ''files'' = Inr env" by auto
  with f h(1) ne show ?thesis by blast
qed

end
