(* ===== verification/Envd_Main.thy ===== *)
theory Envd_Main
  imports Envd_Rpc Gateway_Claims Operator
begin

text \<open>
  The start of \<open>cmd/envd/main.go\<close>: the flags, the root directory, and the two servers over
  one executor. The flags are parsed as Go's \<open>flag\<close> package parses string flags, and
  \<open>os.MkdirAll\<close> is Go's on the text of a path.
\<close>

section \<open>Flags\<close>

text \<open>\<open>None\<close> is a parse error, on which the process exits.\<close>

fun flag_parse :: "string list \<Rightarrow> string list \<Rightarrow> (string \<rightharpoonup> string) \<Rightarrow> (string \<rightharpoonup> string) option" where
  "flag_parse known [] v = Some v"
| "flag_parse known (s # rest) v =
     (if length s < 2 \<or> hd s \<noteq> CHR ''-'' \<or> s = ''--'' then Some v
      else
        let name = (if s ! 1 = CHR ''-'' then drop 2 s else drop 1 s) in
        if name = [] \<or> hd name = CHR ''-'' \<or> hd name = CHR ''='' then None
        else
          let key = hd name # takeWhile (\<lambda>c. c \<noteq> CHR ''='') (tl name) in
          if key \<notin> set known then None
          else (case dropWhile (\<lambda>c. c \<noteq> CHR ''='') (tl name) of
                  _ # value \<Rightarrow> flag_parse known rest (v(key \<mapsto> value))
                | [] \<Rightarrow> (case rest of [] \<Rightarrow> None | value # rest' \<Rightarrow> flag_parse known rest' (v(key \<mapsto> value)))))"

definition envd_flags :: "(string \<Rightarrow> string) \<Rightarrow> string \<rightharpoonup> string" where
  "envd_flags getenv = [''sandbox-id'' \<mapsto> getenv ''KUBEBOX_SANDBOX_ID'', ''root'' \<mapsto> getenv ''KUBEBOX_SANDBOX_ROOT'',
     ''grpc-addr'' \<mapsto> '':50051'', ''http-addr'' \<mapsto> '':8080'']"

section \<open>MkdirAll\<close>

definition os_Mkdir :: "fs \<Rightarrow> string \<Rightarrow> (os_error, fs) result" where
  \<comment> \<open>the system call allows slashes at the end\<close>
  "os_Mkdir m path = (if path = [] then Inl ENOENT else Mkdir m (Split (TrimRight path (CHR ''/'')) (CHR ''/'')))"

definition parent_dir :: "string \<Rightarrow> string" where
  \<comment> \<open>up to the slash before the last element\<close>
  "parent_dir path = rev (dropWhile (\<lambda>c. c \<noteq> CHR ''/'') (dropWhile (\<lambda>c. c = CHR ''/'') (rev path)))"

lemma parent_dir_shorter: "parent_dir path \<noteq> [] \<Longrightarrow> length (parent_dir path) < length path"
proof -
  assume ne: "parent_dir path \<noteq> []"
  let ?t = "dropWhile (\<lambda>c. c = CHR ''/'') (rev path)"
  have "?t \<noteq> []" using ne by (auto simp: parent_dir_def simp del: dropWhile_eq_Nil_conv)
  then obtain c cs where t: "?t = c # cs" by (cases ?t) simp_all
  then have "c \<noteq> CHR ''/''" using hd_dropWhile [of "\<lambda>c. c = CHR ''/''" "rev path"] by (metis list.sel(1) list.simps(3))
  then have "length (parent_dir path) \<le> length cs" using length_dropWhile_le [of _ cs] by (simp add: parent_dir_def t)
  moreover have "length (c # cs) \<le> length path" using length_dropWhile_le [of "\<lambda>c. c = CHR ''/''" "rev path"] unfolding t by simp
  ultimately show ?thesis by simp
qed

function os_MkdirAll :: "fs \<Rightarrow> string \<Rightarrow> os_error option \<times> fs" where
  "os_MkdirAll m path =
     (case Stat m path of
        Inr nd \<Rightarrow> (if nd = Directory then None else Some ENOTDIR, m)
      | Inl _ \<Rightarrow>
          (case (if parent_dir path = [] then (None, m) else os_MkdirAll m (parent_dir path)) of
             (Some e, m1) \<Rightarrow> (Some e, m1)
           | (None, m1) \<Rightarrow>
               (case os_Mkdir m1 path of
                  Inr m2 \<Rightarrow> (None, m2)
                | Inl e \<Rightarrow> (if Lstat m1 path = Inr Directory then None else Some e, m1))))"
  by pat_completeness auto
termination
  by (relation "measure (\<lambda>(m, path). length path)") (auto simp: parent_dir_shorter)

declare os_MkdirAll.simps [simp del]

section \<open>The command\<close>

datatype envd_error = BadFlags | SandboxIDRequired | CreateSandboxRoot os_error | InitProcessExecutor | ListenGRPC

record Envd =
  ev_Root :: string \<comment> \<open>the value of the flag\<close>
  ev_Executor :: ProcessExecutor
  ev_Server :: "fs Server"
  ev_Gateway :: "fs HTTPGateway"
  ev_GrpcAddr :: string
  ev_HttpAddr :: string

text \<open>
  \<open>listen\<close> says whether the process can listen on an address, \<open>getwd\<close> whether it can find its
  working directory, which is \<open>/\<close>: a relative root needs it.
\<close>

definition envd_main ::
  "(fs \<Rightarrow> Cmd \<Rightarrow> Run \<times> fs) \<Rightarrow> (exec_error \<Rightarrow> string) \<Rightarrow> (string \<Rightarrow> bool) \<Rightarrow> bool \<Rightarrow> fs \<Rightarrow> (string \<Rightarrow> string) \<Rightarrow> string list
     \<Rightarrow> (envd_error, Envd) result \<times> fs" where
  "envd_main sh errText listen getwd m getenv args =
     (case flag_parse [''sandbox-id'', ''root'', ''grpc-addr'', ''http-addr''] args (envd_flags getenv) of
        None \<Rightarrow> (Inl BadFlags, m)
      | Some v \<Rightarrow>
          let sandboxID = the (v ''sandbox-id'');
              root = the (v ''root'')
          in if sandboxID = [] then (Inl SandboxIDRequired, m)
             else
               let root = (if root = [] then ''/sandbox'' else root) in
               (case os_MkdirAll m root of
                  (Some err, m) \<Rightarrow> (Inl (CreateSandboxRoot err), m)
                | (None, m) \<Rightarrow>
                    if \<not> IsAbs root \<and> \<not> getwd then (Inl InitProcessExecutor, m)
                    else
                      let executor = NewProcessExecutor m ''/'' root;
                          ex = process_executor executor sh errText
                      in if \<not> listen (the (v ''grpc-addr'')) then (Inl ListenGRPC, m)
                         else (Inr \<lparr>ev_Root = root, ev_Executor = executor,
                                    ev_Server = \<lparr>SandboxID = sandboxID, srv_Executor = Some ex\<rparr>,
                                    ev_Gateway = NewHTTPGateway sandboxID (Some ex),
                                    ev_GrpcAddr = the (v ''grpc-addr''), ev_HttpAddr = the (v ''http-addr'')\<rparr>, m)))"

section \<open>Lemmas\<close>

text \<open>A walk that ends at a missing node ends in a directory, below which the node would be.\<close>

lemma walk_missing:
  assumes "walk n b m cur cs = Inr p" and "m p = None" and "fs_wf m" and "m cur = Some Directory" and "\<forall>c \<in> set cs. CHR ''/'' \<notin> set c"
  shows "\<exists>q c. p = q @ [c] \<and> m q = Some Directory \<and> proper c"
  using assms
proof (induction n b m cur cs rule: walk.induct)
  case (2 n b m cur c cs)
  show ?case
  proof (cases "c = [] \<or> c = ''.'' \<or> c = ''..''")
    case True
    then consider "c = [] \<or> c = ''.''" | "c = ''..''" by blast
    then show ?thesis
    proof cases
      case 1
      then have "walk n b m cur cs = Inr p" using "2.prems"(1) by auto
      with "2.IH"(1) [OF 1] "2.prems" show ?thesis by simp
    next
      case 2
      then have "walk n b m (butlast cur) cs = Inr p" using "2.prems"(1) by simp
      with "2.IH"(2) [OF _ 2] "2.prems" fs_butlast 2 show ?thesis by simp
    qed
  next
    case False
    then have c: "proper c" using "2.prems"(5) by (simp add: proper_def)
    show ?thesis
    proof (cases "m (cur @ [c])")
      case None
      with False "2.prems" c show ?thesis by (auto split: if_splits)
    next
      case (Some nd)
      show ?thesis
      proof (cases nd)
        case (File x)
        with False Some "2.prems" show ?thesis by (auto split: if_splits)
      next
        case Directory
        with False Some "2.prems" "2.IH"(3) [of nd] show ?thesis by simp
      next
        case (Symlink l)
        from False Some Symlink "2.prems"(1,2) have go: "\<not> (cs = [] \<and> \<not> b)" "n \<noteq> 0"
          and w: "walk (n - 1) b m (if IsAbs l then [] else cur) (Split l (CHR ''/'') @ cs) = Inr p"
          by (auto split: if_splits)
        have "\<forall>c \<in> set (Split l (CHR ''/'') @ cs). CHR ''/'' \<notin> set c" using "2.prems"(5) Split_parts_no_sep by auto
        moreover have "m (if IsAbs l then [] else cur) = Some Directory" using "2.prems"(3,4) fs_root by simp
        moreover have "c \<noteq> []" "c \<noteq> ''.''" "c \<noteq> ''..''" using False by auto
        ultimately show ?thesis using "2.IH"(4) [OF _ _ Some Symlink go] w "2.prems"(2,3) by simp
      qed
    qed
  qed
qed auto

text \<open>The walk to a directory that was just made.\<close>

lemma walk_made:
  assumes "walk n b m cur cs = Inr p" and "m p = None"
  shows "walk n True (m(p \<mapsto> Directory)) cur cs = Inr p"
  using assms
proof (induction n b m cur cs rule: walk.induct)
  case (2 n b m cur c cs)
  show ?case
  proof (cases "c = [] \<or> c = ''.'' \<or> c = ''..''")
    case True
    then consider "c = [] \<or> c = ''.''" | "c = ''..''" by blast
    then show ?thesis
    proof cases
      case 1
      then have "walk n b m cur cs = Inr p" using "2.prems"(1) by auto
      from "2.IH"(1) [OF 1 this "2.prems"(2)] 1 show ?thesis by auto
    next
      case 2
      then have "walk n b m (butlast cur) cs = Inr p" using "2.prems"(1) by simp
      from "2.IH"(2) [OF _ 2 this "2.prems"(2)] 2 show ?thesis by simp
    qed
  next
    case False
    show ?thesis
    proof (cases "m (cur @ [c])")
      case None
      with False "2.prems" have "cs = []" "p = cur @ [c]" by (auto split: if_splits)
      with False show ?thesis by simp
    next
      case (Some nd)
      with "2.prems"(2) have same: "(m(p \<mapsto> Directory)) (cur @ [c]) = Some nd" by auto
      show ?thesis
      proof (cases nd)
        case (File x)
        with False Some "2.prems" show ?thesis by (auto split: if_splits)
      next
        case Directory
        with False Some same "2.prems" "2.IH"(3) [of nd] show ?thesis by simp
      next
        case (Symlink l)
        from False Some Symlink "2.prems"(1,2) have go: "\<not> (cs = [] \<and> \<not> b)" "n \<noteq> 0"
          and w: "walk (n - 1) b m (if IsAbs l then [] else cur) (Split l (CHR ''/'') @ cs) = Inr p"
          by (auto split: if_splits)
        have c: "c \<noteq> []" "c \<noteq> ''.''" "c \<noteq> ''..''" using False by auto
        then have "walk (n - 1) True (m(p \<mapsto> Directory)) (if IsAbs l then [] else cur) (Split l (CHR ''/'') @ cs) = Inr p"
          using "2.IH"(4) [OF _ _ Some Symlink go w "2.prems"(2)] by (simp del: fun_upd_apply)
        with c same Symlink go show ?thesis by (simp del: fun_upd_apply)
      qed
    qed
  qed
qed simp

text \<open>A walk that does not end at a link is the same when its last link would be followed.\<close>

lemma walk_follow:
  assumes "walk n b m cur cs = Inr p" and "m p = Some Directory"
  shows "walk n True m cur cs = Inr p"
  using assms
proof (induction n b m cur cs rule: walk.induct)
  case (2 n b m cur c cs)
  consider "c = [] \<or> c = ''.''" | "c = ''..''" | "\<not> (c = [] \<or> c = ''.'')" "c \<noteq> ''..''" by blast
  then show ?case
  proof cases
    case 1
    then have "walk n b m cur cs = Inr p" using "2.prems"(1) by auto
    from "2.IH"(1) [OF 1 this "2.prems"(2)] 1 show ?thesis by auto
  next
    case dots: 2
    then have "walk n b m (butlast cur) cs = Inr p" using "2.prems"(1) by simp
    from "2.IH"(2) [OF _ dots this "2.prems"(2)] dots show ?thesis by simp
  next
    case 3
    then show ?thesis using "2.prems" "2.IH"(3,4) by (auto split: option.splits node.splits if_splits)
  qed
qed simp

lemma os_Mkdir_result:
  assumes "os_Mkdir m path = Inr m'" and "fs_wf m"
  shows "fs_wf m'" and "\<exists>p. walk kernel_links False m [] (Split (TrimRight path (CHR ''/'')) (CHR ''/'')) = Inr p \<and> m p = None \<and> m' = m(p \<mapsto> Directory)"
proof -
  let ?cs = "Split (TrimRight path (CHR ''/'')) (CHR ''/'')"
  from assms(1) obtain p where p: "walk kernel_links False m [] ?cs = Inr p" "m p = None" "m' = m(p \<mapsto> Directory)"
    by (auto simp: os_Mkdir_def Mkdir_def split: if_splits sum.splits option.splits)
  then show "\<exists>p. walk kernel_links False m [] ?cs = Inr p \<and> m p = None \<and> m' = m(p \<mapsto> Directory)" by blast
  have "\<forall>c \<in> set ?cs. CHR ''/'' \<notin> set c" using Split_parts_no_sep by blast
  from walk_missing [OF p(1,2) assms(2) fs_root [OF assms(2)] this]
  obtain q c where "p = q @ [c]" "m q = Some Directory" "proper c" by blast
  with p assms(2) show "fs_wf m'" by (auto intro: fs_wf_add)
qed

lemma os_MkdirAll_wf: "os_MkdirAll m path = (e, m') \<Longrightarrow> fs_wf m \<Longrightarrow> fs_wf m'"
proof (induction m path arbitrary: e m' rule: os_MkdirAll.induct)
  case (1 m path)
  show ?case
  proof (cases "Stat m path")
    case (Inr nd)
    with 1 show ?thesis by (simp add: os_MkdirAll.simps [of m path])
  next
    case (Inl x)
    obtain e1 m1 where m1: "(if parent_dir path = [] then (None, m) else os_MkdirAll m (parent_dir path)) = (e1, m1)" by fastforce
    then have wf: "fs_wf m1" using "1.IH" [OF Inl] "1.prems"(2) by (auto split: if_splits)
    from "1.prems"(1) Inl m1 have "m' = m1 \<or> os_Mkdir m1 path = Inr m'"
      by (auto simp: os_MkdirAll.simps [of m path] split: option.splits sum.splits)
    with wf os_Mkdir_result(1) show ?thesis by blast
  qed
qed

lemma TrimRight_abs_path: "list_all proper cs \<Longrightarrow> cs \<noteq> [] \<Longrightarrow> TrimRight (abs_path cs) (CHR ''/'') = abs_path cs"
proof (induction cs rule: rev_induct)
  case (snoc c cs)
  then have "c \<noteq> []" "CHR ''/'' \<notin> set c" by (simp_all add: proper_def)
  then obtain d x where "c = d @ [x]" "x \<noteq> CHR ''/''" by (cases c rule: rev_cases) auto
  then show ?case
    using TrimRight_snoc [of "(if cs = [] then ''/'' else abs_path cs @ ''/'') @ d" x "CHR ''/''"] by (simp add: abs_path_snoc)
qed simp

text \<open>The root directory exists once it was made.\<close>

lemma os_MkdirAll_Stat:
  assumes "os_MkdirAll m (abs_path cs) = (None, m')" and "fs_wf m" and "list_all proper cs"
  shows "Stat m' (abs_path cs) = Inr Directory"
proof (cases "Stat m (abs_path cs)")
  case (Inr nd)
  with assms(1) show ?thesis by (auto simp: os_MkdirAll.simps [of m "abs_path cs"] split: if_splits)
next
  case (Inl x)
  have ne: "cs \<noteq> []" using Inl assms(2,3) by (auto simp: Stat_def stat_at_def kwalk_abs fs_root)
  obtain e1 m1 where m1: "(if parent_dir (abs_path cs) = [] then (None, m) else os_MkdirAll m (parent_dir (abs_path cs))) = (e1, m1)" by fastforce
  then have wf: "fs_wf m1" using os_MkdirAll_wf assms(2) by (auto split: if_splits)
  from assms(1) Inl m1 consider (made) "os_Mkdir m1 (abs_path cs) = Inr m'" | (there) "m' = m1" "Lstat m1 (abs_path cs) = Inr Directory"
    by (auto simp: os_MkdirAll.simps [of m "abs_path cs"] split: option.splits sum.splits if_splits)
  then show ?thesis
  proof cases
    case made
    from os_Mkdir_result(2) [OF made wf] obtain p where
      p: "walk kernel_links False m1 [] (Split (abs_path cs) (CHR ''/'')) = Inr p" "m1 p = None" "m' = m1(p \<mapsto> Directory)"
      unfolding TrimRight_abs_path [OF assms(3) ne] by blast
    from walk_made [OF p(1,2)] p(3) show ?thesis by (simp add: Stat_def stat_at_def kwalk_def)
  next
    case there
    then obtain p where p: "walk kernel_links False m1 [] cs = Inr p" "m1 p = Some Directory"
      using assms(3) by (auto simp: Lstat_def stat_at_def kwalk_abs split: sum.splits option.splits)
    then show ?thesis using walk_follow there assms(3) by (simp add: Stat_def stat_at_def kwalk_abs)
  qed
qed

lemma envd_main_parts:
  assumes "envd_main sh errText listen getwd m getenv args = (Inr ev, m')"
  shows "os_MkdirAll m (ev_Root ev) = (None, m')" and "ev_Executor ev = NewProcessExecutor m' ''/'' (ev_Root ev)"
    and "srv_Executor (ev_Server ev) = Some (process_executor (ev_Executor ev) sh errText)"
    and "gw_Executor (ev_Gateway ev) = Some (process_executor (ev_Executor ev) sh errText)"
    and "gw_SandboxID (ev_Gateway ev) = SandboxID (ev_Server ev)" and "SandboxID (ev_Server ev) \<noteq> []"
  using assms by (auto simp: envd_main_def NewHTTPGateway_def Let_def split: option.splits prod.splits if_splits)

lemma envd_main_rooted:
  assumes "envd_main sh errText listen getwd m getenv args = (Inr ev, m')" and "fs_wf m" and "ev_Root ev = abs_path cs" and "list_all proper cs"
  shows "\<exists>r. rooted (ev_Executor ev) m' r"
proof -
  note parts = envd_main_parts [OF assms(1)]
  have "Clean (Abs ''/'' (ev_Root ev)) = ev_Root ev" using assms(3,4) by (simp add: Abs_def Clean_abs_path)
  moreover have "Stat m' (ev_Root ev) = Inr Directory" using os_MkdirAll_Stat parts(1) assms(2-4) by simp
  moreover have "fs_wf m'" using os_MkdirAll_wf parts(1) assms(2) by blast
  moreover have "IsAbs ''/''" by (simp add: IsAbs_def HasPrefix_def)
  ultimately show ?thesis unfolding parts(2) by (intro NewProcessExecutor_rooted) simp_all
qed

text \<open>An existing directory is not made again.\<close>

lemma os_MkdirAll_existing:
  "fs_wf m \<Longrightarrow> m [c] = Some Directory \<Longrightarrow> os_MkdirAll m (abs_path [c]) = (None, m)"
proof -
  assume wf: "fs_wf m" and c: "m [c] = Some Directory"
  then have "proper c" using fs_components [OF wf, of "[c]"] by simp
  with c have "Stat m (abs_path [c]) = Inr Directory" by (simp add: Stat_def stat_at_def kwalk_abs proper_def)
  then show ?thesis by (simp add: os_MkdirAll.simps [of m "abs_path [c]"])
qed

lemma Root_existing:
  assumes "fs_wf m" and "m [c] = Some Directory"
  shows "rooted (NewProcessExecutor m ''/'' (abs_path [c])) m [c]"
proof -
  have p: "list_all proper [c]" using assms fs_components [OF assms(1), of "[c]"] by simp
  then have "walk go_links True m [] [c] = Inr [c]" using assms(2) by (simp add: proper_def)
  with p assms have "EvalSymlinks m (abs_path [c]) = Inr (abs_path [c])" by (subst EvalSymlinks_abs_iff) simp_all
  with p assms show ?thesis by (simp add: rooted_def NewProcessExecutor_def Abs_def Clean_abs_path Let_def)
qed

text \<open>The start with the arguments of a pod.\<close>

definition sandbox_envd :: "(fs \<Rightarrow> Cmd \<Rightarrow> Run \<times> fs) \<Rightarrow> (exec_error \<Rightarrow> string) \<Rightarrow> fs \<Rightarrow> string \<Rightarrow> Envd" where
  "sandbox_envd sh errText m i =
     (let e = NewProcessExecutor m ''/'' ''/sandbox''; ex = process_executor e sh errText in
      \<lparr>ev_Root = ''/sandbox'', ev_Executor = e, ev_Server = \<lparr>SandboxID = i, srv_Executor = Some ex\<rparr>,
       ev_Gateway = NewHTTPGateway i (Some ex), ev_GrpcAddr = '':50051'', ev_HttpAddr = '':8080''\<rparr>)"

lemma sandbox_root: "''/sandbox'' = abs_path [''sandbox'']"
  by (simp add: abs_path_def)

lemma envd_main_pod:
  assumes "i \<noteq> []" and "fs_wf m" and "m [''sandbox''] = Some Directory" and "listen '':50051''"
  shows "envd_main sh errText listen getwd m getenv
       [''--sandbox-id'', i, ''--root'', ''/sandbox'', ''--grpc-addr'', '':50051'', ''--http-addr'', '':8080''] =
     (Inr (sandbox_envd sh errText m i), m)"
proof -
  let ?args = "[''--sandbox-id'', i, ''--root'', ''/sandbox'', ''--grpc-addr'', '':50051'', ''--http-addr'', '':8080'']"
  have fl: "flag_parse [''sandbox-id'', ''root'', ''grpc-addr'', ''http-addr''] ?args v =
      Some (v(''sandbox-id'' \<mapsto> i, ''root'' \<mapsto> ''/sandbox'', ''grpc-addr'' \<mapsto> '':50051'', ''http-addr'' \<mapsto> '':8080''))" for v
    by simp
  have "os_MkdirAll m ''/sandbox'' = (None, m)" unfolding sandbox_root using assms(2,3) by (rule os_MkdirAll_existing)
  moreover have "IsAbs ''/sandbox''" by code_simp
  ultimately show ?thesis unfolding envd_main_def fl using assms(1,4) by (simp add: sandbox_envd_def Let_def)
qed

text \<open>The text of an answer with one string, and what is lost in it.\<close>

lemma json_field_body:
  assumes "utf8_valid k"
  shows "Unmarshal [(k, \<lambda>v q. decode_string v q)] [] (json_field k s @ [CHR 0x0A]) = Some (to_valid s)"
proof -
  have "list_all2 (encodes_member 0) [(k, json_string s)] [(k, JStr (to_valid s))]" using assms by (simp add: message_simps)
  from encodes_object [OF this] have e: "encodes 1 (json_field k s) (JObj [(k, JStr (to_valid s))])" by (simp add: json_field_def)
  have "follow [CHR 0x0A]" by (simp add: follow_def digitp_def)
  with encodesD [OF e, of "2 * length (json_field k s @ [CHR 0x0A]) + 2" 0 "[CHR 0x0A]"]
  have "json_parse (json_field k s @ [CHR 0x0A]) = Some (JObj [(k, JStr (to_valid s))])"
    by (simp add: json_parse_def max_depth_def spacep_def)
  then show ?thesis by (simp add: Unmarshal_def decode_struct_def message_simps)
qed

lemma to_valid_length: "length s \<le> length (to_valid s)"
proof (induction s rule: to_valid.induct)
  case (2 c s)
  show ?case
  proof (cases "utf8_size (c # s) = 0")
    case True
    with "2.IH"(1) show ?thesis by (simp add: to_valid.simps)
  next
    case False
    with "2.IH"(2) utf8_size_le [of "c # s"] show ?thesis by (simp add: to_valid.simps Let_def)
  qed
qed simp

lemma to_valid_iff: "to_valid s = s \<longleftrightarrow> utf8_valid s"
proof
  show "to_valid s = s \<Longrightarrow> utf8_valid s"
  proof (induction s rule: to_valid.induct)
    case (2 c s)
    have "utf8_size (c # s) \<noteq> 0"
    proof
      assume "utf8_size (c # s) = 0"
      then have "length (to_valid (c # s)) = length (to_valid s) + 3" by (simp add: to_valid.simps)
      with 2 to_valid_length [of s] show False by simp
    qed
    moreover from this 2(3) have "take (utf8_size (c # s)) (c # s) @ to_valid (drop (utf8_size (c # s) - 1) s) =
        take (utf8_size (c # s)) (c # s) @ drop (utf8_size (c # s)) (c # s)" by (simp add: to_valid.simps Let_def)
    ultimately show ?case using 2(2) [OF refl] by (simp add: drop_Cons' utf8_valid.simps Let_def)
  qed simp
qed (rule to_valid_id)

lemma loopback_written:
  assumes "Server_WriteFile (demo_server ex) (arrives demo_grpc rpc_md) st (to_valid p) d = Some (Inr n, st')"
    and "ex_WriteFile ex st (to_valid p) d = Some (Inr n, st')" and "n < 2 ^ 63" and "0 \<le> n"
    and "length (marshal_WriteFileRequest p (Some d)) \<le> maxReceive" and "length (marshal_WriteFileResponse n) \<le> maxReceive"
  shows "Client_WriteFile (demo_conn ex) rpc_md p (Some d) st = Some (Inr n, st')"
proof -
  have "carried demo_grpc False (marshal_WriteFileRequest p (Some d)) marshal_WriteFileResponse id st
      (Server_WriteFile (demo_server ex) (arrives demo_grpc rpc_md) st (to_valid p) d) (Client_WriteFile (demo_conn ex) rpc_md p (Some d) st)"
    using assms(2-4) by (intro Client_WriteFile_carried [OF loopback_conn]) (simp add: demo_server_def)
  with assms(1,5,6) show ?thesis using carried_fits [of _ _ _ marshal_WriteFileResponse id _ n] by fastforce
qed

section \<open>Claims\<close>

text \<open>
  C21. The pod of a claim runs the claim's sandbox: with the volume mounted, the command and
  arguments of the pod the operator creates start envd with the identity under which the
  claim's route is registered, on the port of the container that the route targets, with
  both servers on an executor confined to the mounted volume.
\<close>

theorem pod_starts_envd:
  assumes "kp = kubePod (claimPod c)" and "cl_Name c \<noteq> []" and "fs_wf m" and "m [''sandbox''] = Some Directory" and "listen '':50051''"
  shows "\<exists>ev. envd_main sh errText listen getwd m getenv (kp_Args kp) = (Inr ev, m) \<and>
     SandboxID (ev_Server ev) = cl_Name c \<and> gw_SandboxID (ev_Gateway ev) = cl_Name c \<and>
     rooted (ev_Executor ev) m [''sandbox''] \<and> (''sandbox'', abs_path [''sandbox'']) \<in> set (kp_EmptyDirMounts kp) \<and>
     ev_HttpAddr ev = '':8080'' \<and> (''http'', 8080) \<in> set (kp_Ports kp) \<and> kp_Command kp = [''/usr/local/bin/envd'']"
proof -
  let ?ev = "sandbox_envd sh errText m (cl_Name c)"
  have args: "kp_Args kp = [''--sandbox-id'', cl_Name c, ''--root'', ''/sandbox'', ''--grpc-addr'', '':50051'', ''--http-addr'', '':8080'']"
    using assms(1,2) by (simp add: kubePod_def claimPod_def Let_def)
  have "rooted (ev_Executor ?ev) m [''sandbox'']"
    using Root_existing [OF assms(3,4)] unfolding sandbox_root [symmetric] by (simp add: sandbox_envd_def Let_def)
  with envd_main_pod [of "cl_Name c" m listen sh errText getwd getenv, OF assms(2-5)] assms(1) show ?thesis
    unfolding args by (intro exI [of _ ?ev]) (simp add: sandbox_envd_def NewHTTPGateway_def kubePod_def sandbox_root Let_def)
qed

definition demo_pod_claim :: Claim where
  "demo_pod_claim = \<lparr>cl_Namespace = ''team'', cl_Name = ''box'', cl_UID = ''u1'', cl_TenantID = ''acme'', cl_OwnerID = ''alice'',
     cl_IdempotencyKey = ''k1'', cl_Template = ''python'', cl_RuntimeClass = ''kata'', cl_TTLSeconds = 600, cl_DesiredState = [],
     cl_Phase = [], cl_PodName = ''sbx-1'', cl_PodIP = [], cl_SandboxID = [], cl_ProxyEndpoint = [], cl_ExpiresAt = zero_time\<rparr>"

definition demo_volume :: fs where
  "demo_volume = demo_fs([''sandbox''] \<mapsto> Directory)"

lemma demo_volume_wf: "fs_wf demo_volume"
proof -
  have "demo_fs [''sandbox''] = None" "demo_fs [] = Some Directory" "proper ''sandbox''" by code_simp+
  then show ?thesis using fs_wf_add [OF demo_fs_wf, of "[]" "''sandbox''" Directory] by (simp add: demo_volume_def del: fun_upd_apply)
qed

theorem pod_starts_envd_witness:
  "\<exists>ev. envd_main demo_sh (\<lambda>_. []) (\<lambda>_. True) True demo_volume (\<lambda>_. []) (kp_Args (kubePod (claimPod demo_pod_claim))) = (Inr ev, demo_volume) \<and>
     SandboxID (ev_Server ev) = ''box'' \<and> rooted (ev_Executor ev) demo_volume [''sandbox'']"
proof -
  have "cl_Name demo_pod_claim = ''box''" "demo_volume [''sandbox''] = Some Directory" by (simp_all add: demo_pod_claim_def demo_volume_def)
  with pod_starts_envd [OF refl _ demo_volume_wf, of demo_pod_claim "\<lambda>_. True" demo_sh "\<lambda>_. []" True "\<lambda>_. []"] show ?thesis by auto
qed

text \<open>
  C30. The two transports of envd share their files: after the start on a clean absolute root,
  and any reads and writes since, what a gRPC client writes with success is what an
  authorized HTTP read of the path answers with, as the JSON text of a string: the answer
  decodes to the bytes written with every byte that is not valid UTF-8 replaced by U+FFFD, so to
  the bytes written exactly when they are valid UTF-8.
\<close>

theorem envd_transports_share_files:
  assumes "envd_main sh errText listen getwd m getenv args = (Inr ev, m0)" and "fs_wf m" and "ev_Root ev = abs_path cs" and "list_all proper cs"
    and "(file_step (ev_Executor ev))\<^sup>*\<^sup>* m0 m1"
    and "grpc_conn lib lost (RegisterEnvdServer (bad_request lib) nilEmpty [] (server_methods (ev_Server ev))) conn"
    and "Client_WriteFile conn md path (Some data) m1 = Some (Inr n, m2)"
    and "rq_Method r = ''GET''" and "gateway_authorize (ev_Gateway ev) r ''files'' = None" and "Query_Get r ''path'' = to_valid path"
    and "to_valid path \<noteq> []"
  shows "n = int (length data) \<and>
    (\<exists>resp. handleFilesRead (ev_Gateway ev) m2 r = Some (resp, m2) \<and> rs_Status resp = StatusOK \<and>
       Unmarshal [(''data'', \<lambda>v q. decode_string v q)] [] (rs_Body resp) = Some (to_valid data)) \<and>
    (to_valid data = data \<longleftrightarrow> utf8_valid data)"
proof -
  note parts = envd_main_parts [OF assms(1)]
  from envd_main_rooted [OF assms(1-4)] obtain root where "rooted (ev_Executor ev) m0 root" ..
  with file_steps_confined [OF assms(5)] have root: "\<exists>root. rooted (ev_Executor ev) m1 root" by blast
  note written = process.rpc_written [OF root parts(3) assms(6,7)]
  with assms(8-11) parts(4) have "handleFilesRead (ev_Gateway ev) m2 r = Some (writeJSON StatusOK (json_field ''data'' data), m2)"
    by (simp add: handleFilesRead_def Let_def)
  with written(1) json_field_body [of "''data''" data] to_valid_iff show ?thesis by (auto simp: writeJSON_def utf8_valid_ascii)
qed

theorem envd_transports_share_files_witness:
  "\<exists>m resp. Client_WriteFile (loopback demo_grpc (RegisterEnvdServer (bad_request demo_grpc) True []
          (server_methods (ev_Server (sandbox_envd demo_sh (\<lambda>_. []) demo_volume ''sbx-1'')))))
        rpc_md ''notes/a'' (Some [CHR 0xFF]) demo_volume = Some (Inr 1, m) \<and>
     handleFilesRead (ev_Gateway (sandbox_envd demo_sh (\<lambda>_. []) demo_volume ''sbx-1'')) m (gw_request ''GET'' ''/files/read'' ''notes/a'' [] gw_headers) =
       Some (resp, m) \<and>
     Unmarshal [(''data'', \<lambda>v q. decode_string v q)] [] (rs_Body resp) = Some [CHR 0xEF, CHR 0xBF, CHR 0xBD]"
proof -
  let ?ev = "sandbox_envd demo_sh (\<lambda>_. []) demo_volume ''sbx-1''" and ?r = "gw_request ''GET'' ''/files/read'' ''notes/a'' [] gw_headers"
  let ?ex = "process_executor (ev_Executor ?ev) demo_sh (\<lambda>_. [])"
  have vol: "demo_volume [''sandbox''] = Some Directory" by (simp add: demo_volume_def)
  note main = envd_main_pod [where i = "''sbx-1''" and listen = "\<lambda>_. True" and sh = demo_sh and errText = "\<lambda>_. []" and getwd = True and getenv = "\<lambda>_. []",
      OF _ demo_volume_wf vol, simplified]
  have srv: "ev_Server ?ev = demo_server ?ex" and gw: "ev_Gateway ?ev = demo_gateway ?ex" and root: "ev_Root ?ev = abs_path [''sandbox'']"
    by (simp_all add: sandbox_envd_def demo_server_def demo_gateway_def NewHTTPGateway_def sandbox_root Let_def)
  have v: "to_valid ''notes/a'' = ''notes/a''" by (rule to_valid_id) (simp add: utf8_valid_ascii)
  have u: "to_valid [CHR 0xFF] = [CHR 0xEF, CHR 0xBF, CHR 0xBD]" by code_simp
  have "map_option fst (PE_WriteFile (NewProcessExecutor demo_volume ''/'' ''/sandbox'') demo_volume ''notes/a'' [CHR 0xFF]) = Some (Inr 1)" by code_simp
  then obtain m where "PE_WriteFile (ev_Executor ?ev) demo_volume ''notes/a'' [CHR 0xFF] = Some (Inr 1, m)" by (auto simp: sandbox_envd_def Let_def)
  then have ex: "ex_WriteFile ?ex demo_volume ''notes/a'' [CHR 0xFF] = Some (Inr 1, m)" by (simp add: process_WriteFile_Some)
  have se: "srv_Executor (demo_server ?ex) = Some ?ex" by (simp add: demo_server_def)
  have "Server_WriteFile (demo_server ?ex) (arrives demo_grpc rpc_md) demo_volume (to_valid ''notes/a'') [CHR 0xFF] = Some (Inr 1, m)"
    unfolding Server_WriteFile_def v by (simp add: demo_grpc_def demo_authorized) (simp add: se ex)
  moreover have "length (marshal_WriteFileRequest ''notes/a'' (Some [CHR 0xFF])) = 32" "length (marshal_WriteFileResponse 1) = 18" by code_simp+
  ultimately have w: "Client_WriteFile (demo_conn ?ex) rpc_md ''notes/a'' (Some [CHR 0xFF]) demo_volume = Some (Inr 1, m)"
    using ex v by (intro loopback_written) (simp_all add: maxReceive_def)
  have h: "rq_Header ?r = gw_headers" by (simp add: gw_request_def)
  have "gateway_authorize (ev_Gateway ?ev) ?r ''files'' = None" unfolding gw using h by (rule demo_gateway_authorize)
  moreover have "rq_Method ?r = ''GET''" "Query_Get ?r ''path'' = to_valid ''notes/a''"
    by (simp_all add: gw_request_def Query_Get_def v)
  ultimately show ?thesis
    using envd_transports_share_files [where r = ?r, OF main demo_volume_wf root _ rtranclp.rtrancl_refl loopback_conn w [folded srv]] w srv by (auto simp: proper_def v u)
qed

end
