(* ===== verification/Lifecycle.thy ===== *)
theory Lifecycle
  imports Kubebox_Prelude
begin

text \<open>
  The life of the processes \<open>cmd/envd\<close> and \<open>cmd/envd-proxy\<close> once they are set up: a
  goroutine for each server that reports how it ended on a buffered channel, the main
  goroutine that registers for signals, waits for a signal or a report, and then shuts
  down. Each step of a goroutine is one step of the relation, in any interleaving; the
  arrival of a signal and its receipt are two steps.
\<close>

section \<open>Model\<close>

datatype kind = Grpc | Http

datatype serve_error = ErrServerClosed | ServeError string

datatype stop = GracefulStop | CancelMonitor | ShutdownServer

datatype sys_signal = SIGINT | SIGTERM

record Program =
  pr_servers :: "kind list"
  pr_cap :: nat \<comment> \<open>capacity of \<open>errCh\<close>\<close>
  pr_sigcap :: nat \<comment> \<open>capacity of \<open>sigCh\<close>\<close>
  pr_stops :: "stop list"

definition envd_program :: Program where
  "envd_program = \<lparr>pr_servers = [Grpc, Http], pr_cap = 2, pr_sigcap = 1, pr_stops = [GracefulStop, ShutdownServer]\<rparr>"

definition proxy_program :: Program where
  "proxy_program = \<lparr>pr_servers = [Http], pr_cap = 1, pr_sigcap = 1, pr_stops = [CancelMonitor, ShutdownServer]\<rparr>"

text \<open>What a goroutine sends when its server returns.\<close>

fun report :: "kind \<Rightarrow> serve_error option \<Rightarrow> serve_error option" where
  "report Grpc err = err"
| "report Http err = (if err \<noteq> None \<and> err \<noteq> Some ErrServerClosed then err else None)"

datatype goroutine = Serving | Sending "serve_error option" | Returned

text \<open>
  The main goroutine has started the servers (\<open>Launched\<close>), has called \<open>signal.Notify\<close> and
  selects, or stops one thing after the other. A signal before \<open>signal.Notify\<close> ends the process
  at once (\<open>Killed\<close>); afterwards it goes into the channel, and is dropped when the channel is full.
\<close>

datatype main_state = Launched | Selecting | Stopping "stop list" | Exited nat | Killed

record Process =
  gos :: "goroutine list"
  errCh :: "serve_error option list"
  sigCh :: "sys_signal list"
  main :: main_state

definition process_start :: "Program \<Rightarrow> Process" where
  "process_start p = \<lparr>gos = map (\<lambda>_. Serving) (pr_servers p), errCh = [], sigCh = [], main = Launched\<rparr>"

datatype label =
    Served nat "serve_error option"
  | Sent nat
  | Notified
  | Arrived sys_signal
  | GotSignal sys_signal
  | GotReport "serve_error option"
  | Stopped stop
  | Exit

definition running :: "Process \<Rightarrow> bool" where
  "running s \<longleftrightarrow> main s \<noteq> Killed \<and> (\<forall>n. main s \<noteq> Exited n)"

inductive proc_step :: "Program \<Rightarrow> Process \<Rightarrow> label \<Rightarrow> Process \<Rightarrow> bool" for p where
  ps_served: "running s \<Longrightarrow> i < length (gos s) \<Longrightarrow> gos s ! i = Serving \<Longrightarrow>
    proc_step p s (Served i err) (s\<lparr>gos := (gos s)[i := Sending (report (pr_servers p ! i) err)]\<rparr>)"
| ps_sent: "running s \<Longrightarrow> i < length (gos s) \<Longrightarrow> gos s ! i = Sending r \<Longrightarrow> length (errCh s) < pr_cap p \<Longrightarrow>
    proc_step p s (Sent i) (s\<lparr>gos := (gos s)[i := Returned], errCh := errCh s @ [r]\<rparr>)"
| ps_notified: "main s = Launched \<Longrightarrow> proc_step p s Notified (s\<lparr>main := Selecting\<rparr>)"
| ps_killed: "main s = Launched \<Longrightarrow> proc_step p s (Arrived sig) (s\<lparr>main := Killed\<rparr>)"
| ps_arrived: "running s \<Longrightarrow> main s \<noteq> Launched \<Longrightarrow>
    proc_step p s (Arrived sig) (s\<lparr>sigCh := (if length (sigCh s) < pr_sigcap p then sigCh s @ [sig] else sigCh s)\<rparr>)"
| ps_signal: "main s = Selecting \<Longrightarrow> sigCh s = sig # rest \<Longrightarrow>
    proc_step p s (GotSignal sig) (s\<lparr>sigCh := rest, main := Stopping (pr_stops p)\<rparr>)"
| ps_report: "main s = Selecting \<Longrightarrow> errCh s = r # rest \<Longrightarrow>
    proc_step p s (GotReport r) (s\<lparr>errCh := rest, main := (if r \<noteq> None then Exited 1 else Stopping (pr_stops p))\<rparr>)"
| ps_stopped: "main s = Stopping (x # xs) \<Longrightarrow> proc_step p s (Stopped x) (s\<lparr>main := Stopping xs\<rparr>)"
| ps_exit: "main s = Stopping [] \<Longrightarrow> proc_step p s Exit (s\<lparr>main := Exited 0\<rparr>)"

inductive run :: "Program \<Rightarrow> label list \<Rightarrow> Process \<Rightarrow> bool" for p where
  run_start: "run p [] (process_start p)"
| run_step: "run p tr s \<Longrightarrow> proc_step p s l s' \<Longrightarrow> run p (tr @ [l]) s'"

section \<open>Invariant\<close>

definition stops_of :: "label list \<Rightarrow> stop list" where
  "stops_of tr = concat (map (\<lambda>l. case l of Stopped x \<Rightarrow> [x] | _ \<Rightarrow> []) tr)"

lemma stops_of_append [simp]: "stops_of (tr @ [l]) = stops_of tr @ (case l of Stopped x \<Rightarrow> [x] | _ \<Rightarrow> [])"
  by (simp add: stops_of_def)

definition live :: "goroutine list \<Rightarrow> nat" where
  "live gs = length (filter (\<lambda>g. g \<noteq> Returned) gs)"

lemma live_Sending: "i < length gs \<Longrightarrow> gs ! i = Serving \<Longrightarrow> live (gs[i := Sending r]) = live gs"
proof (induction gs arbitrary: i)
  case (Cons g gs)
  then show ?case by (cases i) (simp_all add: live_def)
qed simp

lemma live_Returned: "i < length gs \<Longrightarrow> gs ! i = Sending r \<Longrightarrow> Suc (live (gs[i := Returned])) = live gs"
proof (induction gs arbitrary: i)
  case (Cons g gs)
  then show ?case by (cases i) (simp_all add: live_def)
qed simp

text \<open>A report on its way comes from a server that returned with this error.\<close>

definition reported :: "Program \<Rightarrow> label list \<Rightarrow> serve_error option \<Rightarrow> bool" where
  "reported p tr r \<longleftrightarrow> (\<exists>i err. i < length (pr_servers p) \<and> Served i err \<in> set tr \<and> r = report (pr_servers p ! i) err)"

lemma reported_mono: "reported p tr r \<Longrightarrow> reported p (tr @ [l]) r"
  by (auto simp: reported_def)

definition received :: "label list \<Rightarrow> bool" where
  "received tr \<longleftrightarrow> (\<exists>sig. GotSignal sig \<in> set tr)"

definition arrived :: "label list \<Rightarrow> bool" where
  "arrived tr \<longleftrightarrow> (\<exists>sig. Arrived sig \<in> set tr)"

text \<open>
  What the main goroutine has done so far: while it selects it has stopped nothing and every
  arrival has left a signal in the channel.
\<close>

fun main_inv :: "Program \<Rightarrow> label list \<Rightarrow> sys_signal list \<Rightarrow> main_state \<Rightarrow> bool" where
  "main_inv p tr sigs Launched \<longleftrightarrow> \<not> received tr \<and> \<not> arrived tr \<and> stops_of tr = [] \<and> Notified \<notin> set tr"
| "main_inv p tr sigs Selecting \<longleftrightarrow> \<not> received tr \<and> stops_of tr = [] \<and> (arrived tr \<and> 0 < pr_sigcap p \<longrightarrow> sigs \<noteq> [])"
| "main_inv p tr sigs (Stopping xs) \<longleftrightarrow> stops_of tr @ xs = pr_stops p \<and> (received tr \<or> GotReport None \<in> set tr)"
| "main_inv p tr sigs (Exited n) \<longleftrightarrow> (n = 0 \<and> stops_of tr = pr_stops p \<and> (received tr \<or> GotReport None \<in> set tr) \<or>
     n = 1 \<and> stops_of tr = [] \<and> \<not> received tr \<and> (\<exists>r. r \<noteq> None \<and> reported p tr r))"
| "main_inv p tr sigs Killed \<longleftrightarrow> arrived tr \<and> stops_of tr = [] \<and> Notified \<notin> set tr"

definition proc_inv :: "Program \<Rightarrow> label list \<Rightarrow> Process \<Rightarrow> bool" where
  "proc_inv p tr s \<longleftrightarrow> length (gos s) = length (pr_servers p) \<and> length (errCh s) + live (gos s) \<le> length (pr_servers p) \<and>
     (\<forall>r \<in> set (errCh s). reported p tr r) \<and> (\<forall>r. Sending r \<in> set (gos s) \<longrightarrow> reported p tr r) \<and> main_inv p tr (sigCh s) (main s)"

lemma proc_inv_start: "proc_inv p [] (process_start p)"
  by (auto simp: proc_inv_def process_start_def live_def stops_of_def received_def arrived_def)

lemma main_inv_server:
  "main_inv p tr sigs m \<Longrightarrow> l = Served i err \<or> l = Sent i \<Longrightarrow> main_inv p (tr @ [l]) sigs m"
  by (cases m) (auto simp: received_def arrived_def intro: reported_mono)

text \<open>A step of the main goroutine or of the outside, which leaves the servers alone.\<close>

lemma proc_inv_main:
  assumes "proc_inv p tr s" and "gos s' = gos s" and "errCh s' = errCh s \<or> errCh s = r # errCh s'"
    and "main_inv p (tr @ [l]) (sigCh s') (main s')"
  shows "proc_inv p (tr @ [l]) s'"
proof -
  have "set (errCh s') \<subseteq> set (errCh s)" "length (errCh s') \<le> length (errCh s)" using assms(3) by auto
  with assms(1,2,4) reported_mono show ?thesis unfolding proc_inv_def by fastforce
qed

lemma proc_inv_step:
  assumes "proc_step p s l s'" and "proc_inv p tr s"
  shows "proc_inv p (tr @ [l]) s'"
proof -
  have m: "main_inv p tr (sigCh s) (main s)" using assms(2) by (simp add: proc_inv_def)
  from assms(1) show ?thesis
  proof (cases rule: proc_step.cases)
    case (ps_served i err)
    have "reported p (tr @ [l]) (report (pr_servers p ! i) err)"
      using ps_served assms(2) by (auto simp: reported_def proc_inv_def)
    then show ?thesis
      using assms(2) ps_served main_inv_server [OF m, of l i err]
      by (auto simp: proc_inv_def live_Sending reported_mono dest!: set_update_subset_insert [THEN subsetD])
  next
    case (ps_sent i r)
    have "reported p (tr @ [l]) r" using ps_sent assms(2) nth_mem [of i "gos s"] by (auto simp: proc_inv_def intro!: reported_mono)
    then show ?thesis
      using assms(2) ps_sent main_inv_server [OF m, of l i] live_Returned [of i "gos s" r]
      by (auto simp: proc_inv_def reported_mono dest!: set_update_subset_insert [THEN subsetD])
  next
    case ps_notified
    with m show ?thesis by (intro proc_inv_main [OF assms(2)]) (auto simp: received_def arrived_def)
  next
    case (ps_killed sig)
    with m show ?thesis by (intro proc_inv_main [OF assms(2)]) (auto simp: received_def arrived_def)
  next
    case (ps_arrived sig)
    with m show ?thesis
      by (intro proc_inv_main [OF assms(2)]) (cases "main s"; auto simp: received_def arrived_def running_def intro: reported_mono)+
  next
    case (ps_signal sig rest)
    with m show ?thesis by (intro proc_inv_main [OF assms(2)]) (auto simp: received_def)
  next
    case (ps_report r rest)
    have "reported p (tr @ [l]) r" using ps_report assms(2) by (simp add: proc_inv_def reported_mono)
    with ps_report m show ?thesis by (intro proc_inv_main [OF assms(2), where r = r]) (auto simp: received_def)
  next
    case (ps_stopped x xs)
    with m show ?thesis by (intro proc_inv_main [OF assms(2)]) (auto simp: received_def)
  next
    case ps_exit
    with m show ?thesis by (intro proc_inv_main [OF assms(2)]) (auto simp: received_def)
  qed
qed

lemma proc_inv_run: "run p tr s \<Longrightarrow> proc_inv p tr s"
  by (induction rule: run.induct) (auto intro: proc_inv_start proc_inv_step)

lemma reported_server:
  assumes "reported p tr (Some e)"
  shows "\<exists>i err. Served i (Some err) \<in> set tr \<and> i < length (pr_servers p) \<and> (pr_servers p ! i = Http \<longrightarrow> err \<noteq> ErrServerClosed)"
proof -
  from assms obtain i err where s: "Served i err \<in> set tr" "i < length (pr_servers p)" "Some e = report (pr_servers p ! i) err"
    by (auto simp: reported_def)
  then show ?thesis by (intro exI [of _ i] exI [of _ e]) (cases "pr_servers p ! i"; auto split: if_splits)
qed

section \<open>Claims\<close>

text \<open>
  C31. Shutdown, in every run of envd and of envd-proxy. A goroutine that has the end of its
  server to report finds room in the channel, so it never blocks. As long as the process
  selects, a signal that has arrived waits in the channel and can be received. Exit status 0
  means that a signal or the regular end of a server was received and then envd has called
  \<open>GracefulStop\<close> and after it \<open>Shutdown\<close>, envd-proxy has cancelled the monitor and after that called
  \<open>Shutdown\<close>. Any other exit has status 1: no signal was received, although one may have arrived
  (the witness has such a run), nothing was stopped, and a server had failed with an error
  other than being closed (gRPC's \<open>Serve\<close> with any error). Only a signal before the process has
  registered for signals kills it.
\<close>

theorem shutdown_lifecycle:
  assumes "p = envd_program \<or> p = proxy_program" and "run p tr s"
  shows "(\<forall>i r. running s \<and> i < length (gos s) \<and> gos s ! i = Sending r \<longrightarrow> (\<exists>s'. proc_step p s (Sent i) s')) \<and>
     (main s = Selecting \<and> (\<exists>sig. Arrived sig \<in> set tr) \<longrightarrow> (\<exists>sig s'. proc_step p s (GotSignal sig) s')) \<and>
     (main s = Exited 0 \<longrightarrow>
        (p = envd_program \<longrightarrow> stops_of tr = [GracefulStop, ShutdownServer]) \<and>
        (p = proxy_program \<longrightarrow> stops_of tr = [CancelMonitor, ShutdownServer]) \<and>
        ((\<exists>sig. GotSignal sig \<in> set tr) \<or> GotReport None \<in> set tr)) \<and>
     (\<forall>n. main s = Exited n \<and> n \<noteq> 0 \<longrightarrow> n = 1 \<and> (\<forall>sig. GotSignal sig \<notin> set tr) \<and> stops_of tr = [] \<and>
        (\<exists>i err. Served i (Some err) \<in> set tr \<and> i < length (pr_servers p) \<and> (pr_servers p ! i = Http \<longrightarrow> err \<noteq> ErrServerClosed))) \<and>
     (main s = Killed \<longrightarrow> (\<exists>sig. Arrived sig \<in> set tr) \<and> Notified \<notin> set tr)"
proof -
  note inv = proc_inv_run [OF assms(2)]
  then have m: "main_inv p tr (sigCh s) (main s)" by (simp add: proc_inv_def)
  have cap: "pr_cap p = length (pr_servers p)" "0 < pr_sigcap p" using assms(1) by (auto simp: envd_program_def proxy_program_def)
  have room: "\<exists>s'. proc_step p s (Sent i) s'" if "running s" "i < length (gos s)" "gos s ! i = Sending r" for i r
  proof -
    have "length (errCh s) < pr_cap p" using inv live_Returned [OF that(2,3)] cap by (simp add: proc_inv_def)
    with that show ?thesis by (blast intro: ps_sent)
  qed
  have waits: "\<exists>sig s'. proc_step p s (GotSignal sig) s'" if "main s = Selecting" "\<exists>sig. Arrived sig \<in> set tr"
    using m that cap(2) ps_signal [OF that(1)] by (cases "sigCh s") (auto simp: arrived_def)
  have zero: "(p = envd_program \<longrightarrow> stops_of tr = [GracefulStop, ShutdownServer]) \<and>
      (p = proxy_program \<longrightarrow> stops_of tr = [CancelMonitor, ShutdownServer]) \<and>
      ((\<exists>sig. GotSignal sig \<in> set tr) \<or> GotReport None \<in> set tr)" if "main s = Exited 0"
    using m that by (auto simp: received_def envd_program_def proxy_program_def)
  have one: "n = 1 \<and> (\<forall>sig. GotSignal sig \<notin> set tr) \<and> stops_of tr = [] \<and>
      (\<exists>i err. Served i (Some err) \<in> set tr \<and> i < length (pr_servers p) \<and> (pr_servers p ! i = Http \<longrightarrow> err \<noteq> ErrServerClosed))"
    if "main s = Exited n" "n \<noteq> 0" for n
    using m that reported_server [of p tr] by (auto simp: received_def)
  have "(\<exists>sig. Arrived sig \<in> set tr) \<and> Notified \<notin> set tr" if "main s = Killed" using m that by (simp add: arrived_def)
  with room waits zero one show ?thesis by simp
qed

text \<open>A signal arrives and waits while the failure of a server is received.\<close>

definition demo_process :: "goroutine \<Rightarrow> serve_error option list \<Rightarrow> sys_signal list \<Rightarrow> main_state \<Rightarrow> Process" where
  "demo_process g es sigs m = \<lparr>gos = [Serving, g], errCh = es, sigCh = sigs, main = m\<rparr>"

theorem shutdown_lifecycle_witness:
  "\<exists>tr s. run envd_program tr s \<and> main s = Exited 1 \<and> Arrived SIGTERM \<in> set tr \<and> (\<forall>sig. GotSignal sig \<notin> set tr) \<and> stops_of tr = []"
proof -
  let ?e = "Some (ServeError ''x'')" and ?P = demo_process
  note defs = demo_process_def running_def
  have s0: "process_start envd_program = ?P Serving [] [] Launched"
    by (simp add: process_start_def envd_program_def demo_process_def)
  have "run envd_program [] (?P Serving [] [] Launched)" using run_start [of envd_program] unfolding s0 .
  moreover have "proc_step envd_program (?P Serving [] [] Launched) Notified (?P Serving [] [] Selecting)"
    using ps_notified [of "?P Serving [] [] Launched" envd_program] by (simp add: defs)
  moreover have "proc_step envd_program (?P Serving [] [] Selecting) (Arrived SIGTERM) (?P Serving [] [SIGTERM] Selecting)"
    using ps_arrived [of "?P Serving [] [] Selecting" envd_program SIGTERM] by (simp add: defs envd_program_def)
  moreover have "proc_step envd_program (?P Serving [] [SIGTERM] Selecting) (Served 1 ?e) (?P (Sending ?e) [] [SIGTERM] Selecting)"
    using ps_served [of "?P Serving [] [SIGTERM] Selecting" 1 envd_program ?e] by (simp add: defs envd_program_def)
  moreover have "proc_step envd_program (?P (Sending ?e) [] [SIGTERM] Selecting) (Sent 1) (?P Returned [?e] [SIGTERM] Selecting)"
    using ps_sent [of "?P (Sending ?e) [] [SIGTERM] Selecting" 1 ?e envd_program] by (simp add: defs envd_program_def)
  moreover have "proc_step envd_program (?P Returned [?e] [SIGTERM] Selecting) (GotReport ?e) (?P Returned [] [SIGTERM] (Exited 1))"
    using ps_report [of "?P Returned [?e] [SIGTERM] Selecting" ?e "[]" envd_program] by (simp add: defs)
  ultimately have r: "run envd_program ((((([] @ [Notified]) @ [Arrived SIGTERM]) @ [Served 1 ?e]) @ [Sent 1]) @ [GotReport ?e])
      (?P Returned [] [SIGTERM] (Exited 1))" by (blast intro: run_step)
  have "main (?P Returned [] [SIGTERM] (Exited 1)) = Exited 1" by (simp add: demo_process_def)
  with r obtain tr s where t: "run envd_program tr s" "main s = Exited 1" "Arrived SIGTERM \<in> set tr" by force
  then have "(\<forall>sig. GotSignal sig \<notin> set tr) \<and> stops_of tr = []"
    using shutdown_lifecycle [OF disjI1 [OF refl] t(1)] by (metis one_neq_zero)
  with t show ?thesis by blast
qed

end
