(* ===== verification/Spec2Isabelle.thy ===== *)
theory Spec2Isabelle
  imports Control_Plane Operator_System Operator_Scheme Kube_Objects Envd_Main Lifecycle
begin

text \<open>
  A verification of kubebox, a control plane and data plane for sandboxes on Kubernetes.

  \<^bold>\<open>The program.\<close> The control plane (\<open>internal/sandbox\<close>) serves an HTTP API that creates,
  shows and drains sandboxes under a quota per tenant and owner; its quota and allocation
  writes can go to a governance boundary (\<open>internal/persistence\<close>), in memory or in a SQL
  database. The operator (\<open>internal/operator\<close>, \<open>internal/kubeapi\<close>) turns a
  \<open>SandboxClaim\<close> object into a pod and, when the pod is healthy, registers a route for it
  with envd-proxy (\<open>internal/dataplane\<close>) over HTTP. envd-proxy keeps the table of routes,
  probes the sandboxes, checks the credential of each public request and forwards it with
  the identity it derived. envd (\<open>internal/envd\<close>) runs in the sandbox: its HTTP gateway
  (and its gRPC server) check the identity and the scope again and run commands and
  file operations below a root directory.

  \<^bold>\<open>Go's library.\<close> \<open>Kubebox_Prelude\<close> has the shared vocabulary (results, wrap-around of
  \<open>int64\<close>, times, collections of automation). \<open>Go_Strings\<close>, \<open>Go_Path\<close>, \<open>Go_Crypto\<close>
  (SHA-256, HMAC, base64, hexadecimal), \<open>Go_Json\<close>, \<open>Go_Json_Decode\<close>, \<open>Go_Http\<close> and
  \<open>File_System\<close> define what the sources use of the standard library and of the operating
  system, as computable functions: \<open>Clean\<close>, \<open>Join\<close> and \<open>Rel\<close> of paths, the JSON encoder and
  decoder with the lemma that the decoder reads what the encoder wrote, the dispatch of
  \<open>ServeMux\<close> by unescaped segments, the headers a reverse proxy forwards, and a file system with symbolic links.

  \<^bold>\<open>Control plane.\<close>
  \<^item> \<open>Governance\<close>: \<open>store.go\<close> (the interface, as a record of methods) and \<open>memory.go\<close>. The
    contract is the locale \<open>governance\<close>, and \<open>atomic_governance\<close> for stores whose failing
    calls change nothing; \<open>mg\<close> interprets it on \<open>MemoryGovernanceStore\<close>.
  \<^item> \<open>Sql_Store\<close>: \<open>sql.go\<close>, transactions over three tables in which every driver call may
    fail and a commit may be applied although it reports an error. \<open>Sql_Claims\<close> shows that
    counts and ledger agree whatever fails, interprets \<open>governance\<close> on it (\<open>sq\<close>), and
    \<open>atomic_governance\<close> where the driver does not fail (\<open>sure\<close>), proves the refinement of
    the in-memory store (what succeeds on the database succeeds there, and on which calls the two
    agree), and states the effect of the swapped idempotency arguments.
  \<^item> \<open>Sql_Open\<close>: \<open>open.go\<close> and \<open>migrate.go\<close>, the calls of an opening with their answers as
    events. The migrations of several replicas on one server, as an inductive relation with
    the server's rule for locks, do not interleave; a failed opening closes its handle.
  \<^item> \<open>Sandbox_Store\<close>: \<open>service.go\<close>, all methods of \<open>Store\<close>. \<open>Sandbox_Invariant\<close> has the
    well-formedness of its maps, \<open>Sandbox_Quota\<close> the step relation and the accounting,
    \<open>Sandbox_Governed\<close> the agreement with any boundary of the contract,
    \<open>Sandbox_Properties\<close> the behaviour over interleavings; \<open>Sandbox_Claims\<close> states the
    properties: quota safety, idempotent creation (with the keys that never expire), life cycle, draining, error paths, and
    the bounds of the expiry time.
  \<^item> \<open>Sandbox_Http\<close>: \<open>http.go\<close>, all handlers.
  \<^item> \<open>Control_Plane\<close>: the running control plane, the handler over the store that \<open>cmd/kubebox\<close>
    starts with. An invariant proved in \<open>atomic_governance\<close> gives the limit of 50 ready
    sandboxes over any requests; the status of every answer is determined by what the control
    plane holds; and what is created through the API is read, repeated and deleted through it.

  \<^bold>\<open>Data plane.\<close>
  \<^item> \<open>Token_Issuer\<close>, \<open>Route_Registry\<close> and \<open>Proxy\<close>: \<open>proxy.go\<close>. When an issued token is
    accepted, that an accepted token was signed, the locale \<open>route_table\<close> of the registry
    (\<open>rt\<close>), and what the proxy forwards.
  \<^item> \<open>Admin\<close>: \<open>admin.go\<close>; \<open>Route_Client\<close>: \<open>route_client.go\<close> and its composition with the admin
    handler over any transport that delivers; \<open>Health_Monitor\<close>: \<open>health.go\<close>, one round
    of probes, and the rule by which a probe evicts a route in any interleaving of probes with
    changes of the table.
  \<^item> \<open>Commands\<close>: the start and the listener of \<open>cmd/envd-proxy\<close>, where the proxy, the route
    API and the monitor share one table, with what any sequence of requests and probes can
    do there; and the start of \<open>cmd/kubebox\<close>, which gives a reachable store.

  \<^bold>\<open>Sandbox.\<close>
  \<^item> \<open>Envd_Executor\<close>: \<open>executor.go\<close>. \<open>Envd_Confinement\<close> and \<open>Envd_Claims\<close> show that no file
    operation reads or changes anything outside the root, whatever links the file system
    holds, that reads are bounded and see what was written, and that every call returns.
  \<^item> \<open>Envd_Service\<close>: \<open>service.go\<close>, the \<open>Executor\<close> interface as the locale \<open>executor\<close>,
    interpreted on the in-memory executor (\<open>mem\<close>) and the process executor (\<open>process\<close>), and
    the gRPC server. \<open>Http_Gateway\<close>: \<open>http_gateway.go\<close>. \<open>Gateway_Claims\<close>: the checks of the
    gateway, its round trip for files, its agreement with the gRPC server, and the composition
    of the proxy with the gateway behind it.
  \<^item> \<open>Envd_Rpc\<close>: the rest of \<open>service.go\<close>, the messages in JSON, the handlers, the service
    description with its registration, and the client. What gRPC documents of a connection (the
    limit of 4 MiB on a message, calls that fail on the way) is the hypothesis \<open>grpc_conn\<close>; under it
    the client gives what the server's methods give, within the limit, and files come back byte for
    byte. \<open>loopback\<close> is a connection that satisfies it.
  \<^item> \<open>Envd_Main\<close>: the start of \<open>cmd/envd\<close>, its flags and \<open>os.MkdirAll\<close> of the root. The
    arguments of the pod of a claim start the sandbox of the claim, confined to its volume,
    and the two transports share their files, up to what JSON does to bytes that are not
    valid UTF-8.
  \<^item> \<open>Lifecycle\<close>: the goroutines of \<open>cmd/envd\<close> and \<open>cmd/envd-proxy\<close>, the error channel, the
    arrival and the receipt of signals, and the order of the shutdown, as a step relation over all
    interleavings.

  \<^bold>\<open>Operator.\<close> \<open>Operator\<close>: \<open>reconciler.go\<close>, \<open>kube_client.go\<close>, \<open>controller.go\<close>, \<open>webhook.go\<close> and
  the types of \<open>kubeapi\<close>, over an environment whose answers may depend on all calls made
  so far. The reconciler works over the methods of a \<open>PodClient\<close>; what is shown of its calls is
  proved in the locale \<open>pod_client\<close> and holds for \<open>KubePodClient\<close> by the interpretation \<open>kpc\<close>. \<open>Operator_Claims\<close>: the order of deletion and which pod is deleted, what routes are registered, and which
  pods are created. \<open>Operator_Edge\<close>: \<open>cmd/controller\<close> and \<open>setup.go\<close>, and the controller with
  the route client as its registrar in front of the listener of envd-proxy, where requests
  and answers may be lost: a ready claim is routed or tried again, a deleted one is not
  routed. \<open>Operator_System\<close>: any interleaving of reconciliations with requests, probes of the
  monitor and calls that arrive late. Every route leads to a pod that was read as ready,
  a route changes only through calls that name it, and claims of one name in two
  namespaces share their route. \<open>Operator_Scheme\<close>: the scheme the controller starts with has
  the kind its pods name as their owner. \<open>Kube_Objects\<close>: the API objects on a store with sharing, their deep copies, and the
  in-place loop of \<open>removeString\<close>.

  \<^bold>\<open>Interfaces.\<close> Each interface the Go code declares between its components is a locale with
  the laws its clients use, interpreted where it is implemented: \<open>governance\<close> with its extension
  \<open>atomic_governance\<close> (\<open>mg\<close>, \<open>sq\<close>, \<open>sure\<close>), \<open>executor\<close> (\<open>mem\<close>, \<open>process\<close>), \<open>pod_client\<close> (\<open>kpc\<close>) and
  \<open>route_registrar\<close> (\<open>er\<close>, the route client in front of the listener); \<open>route_table\<close> (\<open>rt\<close>) is what the
  handlers of envd-proxy rely on in the registry.

  \<^bold>\<open>State, errors and time.\<close> A struct is a record, its methods pass it explicitly. The
  methods of the stores, of the registry and of the in-memory executor hold a lock for
  their whole body, so that each is one step; concurrent use is the interleaving of steps
  (\<open>store_step\<close>, \<open>hm_step\<close>, \<open>edge_step\<close>, \<open>server_run\<close>, \<open>file_step\<close>, \<open>proc_step\<close>,
  \<open>serve_step\<close>, \<open>system_step\<close>). Every error return is an \<open>Inl\<close> with a
  constructor of the component's error type. A reading of the clock is an argument.
  Strings are Go's byte strings; \<open>int64\<close> and \<open>time.Duration\<close> are integers with
  \<open>wrap64\<close> where the source can overflow.

  \<^bold>\<open>Bounds.\<close> The JSON parser runs on fuel \<open>2 * length + 2\<close>, and more never changes its
  result (\<open>json_value_fuel\<close>); it has the depth limit 10000 of Go's scanner. Walks of the file system follow
  at most 40 links for a system call and 255 for \<open>filepath.EvalSymlinks\<close>, as the real ones
  do. The loops of \<open>evalWithinRoot\<close> and \<open>createPath\<close> are partial functions, and \<open>Envd_Claims\<close>
  proves that they return. No other recursion needs fuel.

  \<^bold>\<open>Arguments of the model.\<close> What the sources only call is an argument: \<open>url.Parse\<close> and the
  texts of URLs and times, the HTTP transport and the backends behind it, the outcome of a
  shell command, the outcomes of driver calls, the answers of the API server and of the
  registrar, the connection of gRPC and the statuses it makes itself, the manager of
  controller-runtime, the operations of a scheme, the copy of an object's metadata, the order in which Go walks a map.

  \<^bold>\<open>Not modelled.\<close> Every operation of the sources that changes state is a definition here. Left out
  are the sockets and TLS below the listeners and the other calls that only pass on to
  a library; streaming of bodies and protocol upgrades in the proxy; file permissions, hard
  links, mounts, and special files (FIFOs, sockets and devices), on which a read could block; widths of SQL columns;
  logging; \<open>normalizeName\<close> of \<open>reconciler.go\<close>, which nothing calls. A reconciliation makes at
  most one call of the listener, so other requests are interleaved between reconciliations
  and not within one. Two file operations of one process are not interleaved below one call.
\<close>

end
